(* ===== verification/Prelude.thy ===== *)
theory Prelude
  imports
    Complex_Main
    "HOL-Library.AList"
    "HOL-Library.Char_ord"
    "HOL-Library.List_Lexorder"
begin

text \<open>
  The shared base of the development: exceptions as values, the state-and-exception actions
  every component is written in, the framework that lifts one-step facts through them
  (\<open>stays\<close>, the locale \<open>step_relation\<close>), insertion-ordered dictionaries, and the small
  string functions behind Python's formatting (\<open>str\<close> of an integer, \<open>repr\<close> of a string).

  A Python string is modelled by the list of its UTF-8 bytes: equality, concatenation, prefix
  tests and the order of strings are the same on code points and on UTF-8 bytes.
\<close>

named_theorems stays_intros \<open>introduction rules for \<open>stays\<close>, one per combinator\<close>
named_theorems act_defs \<open>definitions of the action combinators\<close>

section \<open>Exceptions and actions\<close>

text \<open>
  The exceptions the modelled code raises or catches. Those whose message reaches a client
  carry it.
\<close>

datatype exc =
    ValueError string
  | TypeError
  | AttributeError
  | KeyError
  | OverflowError
  | LookupError string
  | ActivationError string
  | RedisError
  | DatabaseError
  | WatchError
  | UpstreamError
  | OtherError string

type_synonym 'a res = "exc + 'a"
type_synonym ('w, 'a) act = "'w \<Rightarrow> 'a res \<times> 'w"

text \<open>
  An action keeps the state it had reached when it raises, as Python does: an exception does
  not undo the effects before it.
\<close>

definition ret :: "'a \<Rightarrow> ('w, 'a) act" where
  "ret x = (\<lambda>w. (Inr x, w))"

definition raise :: "exc \<Rightarrow> ('w, 'a) act" where
  "raise e = (\<lambda>w. (Inl e, w))"

definition bnd :: "('w, 'a) act \<Rightarrow> ('a \<Rightarrow> ('w, 'b) act) \<Rightarrow> ('w, 'b) act" where
  "bnd m f = (\<lambda>w. case m w of (Inl e, w') \<Rightarrow> (Inl e, w') | (Inr x, w') \<Rightarrow> f x w')"

definition try_catch :: "('w, 'a) act \<Rightarrow> (exc \<Rightarrow> ('w, 'a) act) \<Rightarrow> ('w, 'a) act" where
  "try_catch m h = (\<lambda>w. case m w of (Inl e, w') \<Rightarrow> h e w' | (Inr x, w') \<Rightarrow> (Inr x, w'))"

definition gets :: "('w \<Rightarrow> 'a) \<Rightarrow> ('w, 'a) act" where
  "gets f = (\<lambda>w. (Inr (f w), w))"

definition modify :: "('w \<Rightarrow> 'w) \<Rightarrow> ('w, unit) act" where
  "modify f = (\<lambda>w. (Inr (), f w))"

definition lift_res :: "'a res \<Rightarrow> ('w, 'a) act" where
  "lift_res r = (\<lambda>w. (r, w))"

fun for_each :: "('a \<Rightarrow> ('w, unit) act) \<Rightarrow> 'a list \<Rightarrow> ('w, unit) act" where
  "for_each f [] = ret ()"
| "for_each f (x # xs) = bnd (f x) (\<lambda>_. for_each f xs)"

fun for_fold :: "('s \<Rightarrow> 'a \<Rightarrow> ('w, 's) act) \<Rightarrow> 's \<Rightarrow> 'a list \<Rightarrow> ('w, 's) act" where
  "for_fold f s [] = ret s"
| "for_fold f s (x # xs) = bnd (f s x) (\<lambda>s'. for_fold f s' xs)"

declare ret_def [act_defs] raise_def [act_defs] bnd_def [act_defs] try_catch_def [act_defs]
  gets_def [act_defs] modify_def [act_defs] lift_res_def [act_defs]

definition res_bnd :: "'a res \<Rightarrow> ('a \<Rightarrow> 'b res) \<Rightarrow> 'b res" where
  "res_bnd r f = (case r of Inl e \<Rightarrow> Inl e | Inr x \<Rightarrow> f x)"

fun res_map :: "('a \<Rightarrow> 'b res) \<Rightarrow> 'a list \<Rightarrow> 'b list res" where
  "res_map f [] = Inr []"
| "res_map f (x # xs) = res_bnd (f x) (\<lambda>y. res_bnd (res_map f xs) (\<lambda>ys. Inr (y # ys)))"

lemma res_bnd_simps [simp]:
  "res_bnd (Inl e) f = Inl e"
  "res_bnd (Inr x) f = f x"
  by (simp_all add: res_bnd_def)

lemma res_bnd_cong [fundef_cong]:
  "r = s \<Longrightarrow> (\<And>x. s = Inr x \<Longrightarrow> f x = g x) \<Longrightarrow> res_bnd r f = res_bnd s g"
  by (cases s) auto

lemma res_bnd_Inr_iff: "res_bnd r f = Inr y \<longleftrightarrow> (\<exists>x. r = Inr x \<and> f x = Inr y)"
  by (cases r) auto

lemma res_map_Inr_length: "res_map f xs = Inr ys \<Longrightarrow> length ys = length xs"
  by (induction xs arbitrary: ys) (auto simp: res_bnd_Inr_iff)

lemma res_map_Inr_in:
  "res_map f xs = Inr ys \<Longrightarrow> y \<in> set ys \<Longrightarrow> \<exists>x \<in> set xs. f x = Inr y"
  by (induction xs arbitrary: ys) (auto simp: res_bnd_Inr_iff)

lemma res_map_Inr_from:
  "res_map f xs = Inr ys \<Longrightarrow> x \<in> set xs \<Longrightarrow> \<exists>y \<in> set ys. f x = Inr y"
  by (induction xs arbitrary: ys) (auto simp: res_bnd_Inr_iff)

section \<open>Inversion rules for successful and failing runs\<close>

lemma ret_run [simp]: "ret x w = (Inr x, w)"
  by (simp add: ret_def)

lemma raise_run [simp]: "raise e w = (Inl e, w)"
  by (simp add: raise_def)

lemma gets_run [simp]: "gets f w = (Inr (f w), w)"
  by (simp add: gets_def)

lemma modify_run [simp]: "modify f w = (Inr (), f w)"
  by (simp add: modify_def)

lemma lift_res_run [simp]: "lift_res r w = (r, w)"
  by (simp add: lift_res_def)

lemma bnd_run_Inl: "m w = (Inl e, w') \<Longrightarrow> bnd m f w = (Inl e, w')"
  by (simp add: bnd_def)

lemma bnd_run_Inr: "m w = (Inr x, w') \<Longrightarrow> bnd m f w = f x w'"
  by (simp add: bnd_def)

lemma bnd_ret [simp]: "bnd (ret x) f = f x"
  by (simp add: bnd_def ret_def)

lemma bnd_raise [simp]: "bnd (raise e) f = raise e"
  by (simp add: bnd_def raise_def)

lemma bnd_gets_run [simp]: "bnd (gets g) f w = f (g w) w"
  by (simp add: bnd_def)

lemma bnd_modify_run [simp]: "bnd (modify g) f w = f () (g w)"
  by (simp add: bnd_def)

lemma bnd_Inr_iff:
  "bnd m f w = (Inr y, w'') \<longleftrightarrow> (\<exists>x w'. m w = (Inr x, w') \<and> f x w' = (Inr y, w''))"
  by (auto simp: bnd_def split: prod.splits sum.splits)

lemma bnd_Inl_iff:
  "bnd m f w = (Inl e, w'') \<longleftrightarrow>
     m w = (Inl e, w'') \<or> (\<exists>x w'. m w = (Inr x, w') \<and> f x w' = (Inl e, w''))"
  by (auto simp: bnd_def split: prod.splits sum.splits)

lemma try_catch_Inr_iff:
  "try_catch m h w = (Inr y, w'') \<longleftrightarrow>
     m w = (Inr y, w'') \<or> (\<exists>e w'. m w = (Inl e, w') \<and> h e w' = (Inr y, w''))"
  by (auto simp: try_catch_def split: prod.splits sum.splits)

lemma try_catch_run_Inr: "m w = (Inr x, w') \<Longrightarrow> try_catch m h w = (Inr x, w')"
  by (simp add: try_catch_def)

lemma try_catch_run_Inl: "m w = (Inl e, w') \<Longrightarrow> try_catch m h w = h e w'"
  by (simp add: try_catch_def)

section \<open>What an action may change\<close>

text \<open>
  \<open>stays R m\<close>: whatever the outcome of \<open>m\<close>, the state it ends in is \<open>R\<close>-related to the one
  it starts in. For a reflexive and transitive \<open>R\<close> the combinators keep it, so a frame fact
  (the audit log only grows, the approvals table is untouched) or an invariant is proved for
  the primitive operations once and follows for every handler built from them.
\<close>

definition stays :: "('w \<Rightarrow> 'w \<Rightarrow> bool) \<Rightarrow> ('w, 'a) act \<Rightarrow> bool" where
  "stays R m \<longleftrightarrow> (\<forall>w. R w (snd (m w)))"

definition keeps :: "('w \<Rightarrow> bool) \<Rightarrow> 'w \<Rightarrow> 'w \<Rightarrow> bool" where
  "keeps I w w' \<longleftrightarrow> (I w \<longrightarrow> I w')"

definition same :: "('w \<Rightarrow> 'b) \<Rightarrow> 'w \<Rightarrow> 'w \<Rightarrow> bool" where
  "same f w w' \<longleftrightarrow> f w' = f w"

lemma staysD: "stays R m \<Longrightarrow> m w = (r, w') \<Longrightarrow> R w w'"
  by (metis snd_conv stays_def)

lemma staysI: "(\<And>w r w'. m w = (r, w') \<Longrightarrow> R w w') \<Longrightarrow> stays R m"
  by (metis prod.collapse stays_def)

lemma stays_mono: "stays R m \<Longrightarrow> (\<And>w w'. R w w' \<Longrightarrow> S w w') \<Longrightarrow> stays S m"
  by (auto simp: stays_def)

locale step_relation =
  fixes R :: "'w \<Rightarrow> 'w \<Rightarrow> bool"
  assumes R_refl: "R w w"
    and R_trans: "R u v \<Longrightarrow> R v w \<Longrightarrow> R u w"
begin

lemma stays_ret: "stays R (ret x)"
  by (simp add: stays_def R_refl)

lemma stays_raise: "stays R (raise e)"
  by (simp add: stays_def R_refl)

lemma stays_gets: "stays R (gets f)"
  by (simp add: stays_def R_refl)

lemma stays_lift_res: "stays R (lift_res r)"
  by (simp add: stays_def R_refl)

lemma stays_bnd:
  assumes "stays R m" and "\<And>x. stays R (f x)"
  shows "stays R (bnd m f)"
proof (rule staysI)
  fix w r w'
  assume run: "bnd m f w = (r, w')"
  show "R w w'"
  proof (cases "m w")
    case (Pair r1 w1)
    with assms(1) have 1: "R w w1" by (rule staysD)
    show ?thesis
    proof (cases r1)
      case (Inl e)
      with run Pair 1 show ?thesis by (simp add: bnd_def)
    next
      case (Inr x)
      with run Pair have "f x w1 = (r, w')" by (simp add: bnd_def)
      with assms(2) have "R w1 w'" by (rule staysD)
      with 1 show ?thesis by (rule R_trans)
    qed
  qed
qed

lemma stays_try_catch:
  assumes "stays R m" and "\<And>e. stays R (h e)"
  shows "stays R (try_catch m h)"
proof (rule staysI)
  fix w r w'
  assume run: "try_catch m h w = (r, w')"
  show "R w w'"
  proof (cases "m w")
    case (Pair r1 w1)
    with assms(1) have 1: "R w w1" by (rule staysD)
    show ?thesis
    proof (cases r1)
      case (Inr x)
      with run Pair 1 show ?thesis by (simp add: try_catch_def)
    next
      case (Inl e)
      with run Pair have "h e w1 = (r, w')" by (simp add: try_catch_def)
      with assms(2) have "R w1 w'" by (rule staysD)
      with 1 show ?thesis by (rule R_trans)
    qed
  qed
qed

lemma stays_for_each: "(\<And>x. stays R (f x)) \<Longrightarrow> stays R (for_each f xs)"
  by (induction xs) (auto intro: stays_ret stays_bnd)

lemma stays_for_fold: "(\<And>s x. stays R (f s x)) \<Longrightarrow> stays R (for_fold f s xs)"
  by (induction xs arbitrary: s) (auto intro: stays_ret stays_bnd)

lemma stays_if: "stays R m \<Longrightarrow> stays R n \<Longrightarrow> stays R (if b then m else n)"
  by simp

lemma stays_option:
  "stays R m \<Longrightarrow> (\<And>x. stays R (f x)) \<Longrightarrow> stays R (case_option m f v)"
  by (cases v) auto

lemma stays_let: "(\<And>x. stays R (f x)) \<Longrightarrow> stays R (let x = v in f x)"
  by simp

lemma stays_prod: "(\<And>x y. stays R (f x y)) \<Longrightarrow> stays R (case_prod f p)"
  by (cases p) auto

lemma stays_sum:
  "(\<And>e. stays R (f e)) \<Longrightarrow> (\<And>x. stays R (g x)) \<Longrightarrow> stays R (case_sum f g v)"
  by (cases v) auto

lemmas stays_all =
  stays_ret stays_raise stays_gets stays_lift_res stays_bnd stays_try_catch
  stays_for_each stays_for_fold stays_if stays_option stays_let stays_prod stays_sum

end

interpretation keeps: step_relation "keeps I" for I
  by unfold_locales (auto simp: keeps_def)

interpretation same: step_relation "same f" for f
  by unfold_locales (auto simp: same_def)

section \<open>Insertion-ordered dictionaries\<close>

text \<open>
  A Python \<open>dict\<close> is an association list with distinct keys in insertion order: \<open>map_of\<close> looks
  up, \<open>AList.update\<close> overwrites in place or appends, \<open>AList.delete\<close> removes. A dict display or
  comprehension inserts its pairs one by one, so the last value of a repeated key wins, at the
  position of its first occurrence.
\<close>

definition dict_of :: "('k \<times> 'v) list \<Rightarrow> ('k \<times> 'v) list" where
  "dict_of kvs = foldl (\<lambda>d kv. AList.update (fst kv) (snd kv) d) [] kvs"

lemma map_of_foldl_update:
  "map_of (foldl (\<lambda>d kv. AList.update (fst kv) (snd kv) d) d kvs) = map_of d ++ map_of (rev kvs)"
  by (induction kvs arbitrary: d) (auto simp: update_conv' map_add_upd_left fun_eq_iff map_add_def
      split: option.splits)

lemma update_last: "map_of xs k = None \<Longrightarrow> AList.update k t (xs @ [(k, s)]) = xs @ [(k, t)]"
  by (induction xs) auto

lemma map_of_dict_of: "map_of (dict_of kvs) = map_of (rev kvs)"
  by (simp add: dict_of_def map_of_foldl_update)

lemma distinct_foldl_update:
  "distinct (map fst d) \<Longrightarrow>
     distinct (map fst (foldl (\<lambda>d kv. AList.update (fst kv) (snd kv) d) d kvs))"
  by (induction kvs arbitrary: d) (auto simp: distinct_update)

lemma distinct_dict_of: "distinct (map fst (dict_of kvs))"
  by (simp add: dict_of_def distinct_foldl_update)

lemma map_of_dict_of_distinct:
  "distinct (map fst kvs) \<Longrightarrow> map_of (dict_of kvs) = map_of kvs"
  by (metis distinct_map distinct_rev map_of_dict_of map_of_inject_set rev_map set_rev)

lemma dict_of_in: "map_of (dict_of kvs) k = Some v \<Longrightarrow> (k, v) \<in> set kvs"
  by (metis map_of_SomeD map_of_dict_of set_rev)

section \<open>Formatting\<close>

text \<open>Decimal digits of an integer, as \<open>str\<close> and an f-string print it.\<close>

definition digit :: "int \<Rightarrow> char" where
  "digit d = (if d = 0 then CHR ''0'' else if d = 1 then CHR ''1'' else if d = 2 then CHR ''2''
     else if d = 3 then CHR ''3'' else if d = 4 then CHR ''4'' else if d = 5 then CHR ''5''
     else if d = 6 then CHR ''6'' else if d = 7 then CHR ''7'' else if d = 8 then CHR ''8''
     else CHR ''9'')"

function dec_pos :: "int \<Rightarrow> string" where
  "dec_pos n = (if n < 10 then [digit n] else dec_pos (n div 10) @ [digit (n mod 10)])"
  by pat_completeness auto
termination
  by (relation "measure nat") auto

declare dec_pos.simps [simp del]

definition dec_nat :: "nat \<Rightarrow> string" where
  "dec_nat n = dec_pos (int n)"

definition dec_int :: "int \<Rightarrow> string" where
  "dec_int i = (if i < 0 then CHR ''-'' # dec_pos (- i) else dec_pos i)"

text \<open>
  Zero-padding on the left to a width, as the format \<open>:06d\<close> does for a non-negative integer.
\<close>

definition pad_zeros :: "nat \<Rightarrow> string \<Rightarrow> string" where
  "pad_zeros w s = replicate (w - length s) CHR ''0'' @ s"

fun join :: "string \<Rightarrow> string list \<Rightarrow> string" where
  "join sep [] = []"
| "join sep [s] = s"
| "join sep (s # t # ss) = s @ sep @ join sep (t # ss)"

text \<open>
  \<open>repr\<close> of a string: single quotes unless the string has a single quote and no double quote;
  the quote, the backslash and the ASCII control characters are escaped. Bytes above 126 other
  than DEL stand for printable non-ASCII text and are kept.
\<close>

definition hex_digit :: "int \<Rightarrow> char" where
  "hex_digit d = (if d < 10 then digit d else char_of (d + 87))"

definition repr_char :: "char \<Rightarrow> char \<Rightarrow> string" where
  "repr_char q c =
     (if c = q \<or> c = CHR 0x5C then [CHR 0x5C, c]
      else if c = CHR 0x0A then [CHR 0x5C, CHR ''n'']
      else if c = CHR 0x0D then [CHR 0x5C, CHR ''r'']
      else if c = CHR 0x09 then [CHR 0x5C, CHR ''t'']
      else if of_char c < (32::int) \<or> of_char c = (127::int)
        then [CHR 0x5C, CHR ''x'', hex_digit (of_char c div 16), hex_digit (of_char c mod 16)]
      else [c])"

definition py_repr :: "string \<Rightarrow> string" where
  "py_repr s =
     (let q = (if CHR 0x27 \<in> set s \<and> CHR 0x22 \<notin> set s then CHR 0x22 else CHR 0x27)
      in q # concat (map (repr_char q) s) @ [q])"

text \<open>UTF-8 of two non-ASCII characters the messages use.\<close>

definition EM_DASH :: string where
  "EM_DASH = [CHR 0xE2, CHR 0x80, CHR 0x94]"

definition PLUS_MINUS :: string where
  "PLUS_MINUS = [CHR 0xC2, CHR 0xB1]"

lemma dec_pos_nonempty [simp]: "dec_pos n \<noteq> []" "[] \<noteq> dec_pos n"
  by (subst dec_pos.simps, simp)+

lemma digit_code: "0 \<le> a \<Longrightarrow> a < 10 \<Longrightarrow> of_char (digit a) = 48 + a"
  by (simp add: digit_def) presburger

lemma digit_inj: "0 \<le> a \<Longrightarrow> a < 10 \<Longrightarrow> 0 \<le> b \<Longrightarrow> b < 10 \<Longrightarrow> digit a = digit b \<Longrightarrow> a = b"
  by (metis digit_code add_left_cancel)

lemma dec_pos_inj: "0 \<le> m \<Longrightarrow> 0 \<le> n \<Longrightarrow> dec_pos m = dec_pos n \<Longrightarrow> m = n"
proof (induction m arbitrary: n rule: dec_pos.induct)
  case (1 m)
  show ?case
  proof (cases "m < 10")
    case True
    then have m: "dec_pos m = [digit m]" by (simp add: dec_pos.simps [of m])
    show ?thesis
    proof (cases "n < 10")
      case True
      with m \<open>m < 10\<close> "1.prems" show ?thesis
        by (auto simp: dec_pos.simps [of n] intro: digit_inj)
    next
      case False
      with m "1.prems" show ?thesis by (simp add: dec_pos.simps [of n])
    qed
  next
    case False
    then have m: "dec_pos m = dec_pos (m div 10) @ [digit (m mod 10)]"
      by (subst dec_pos.simps) simp
    show ?thesis
    proof (cases "n < 10")
      case True
      with m "1.prems" show ?thesis by (simp add: dec_pos.simps [of n])
    next
      case n: False
      with m "1.prems" have "dec_pos (m div 10) = dec_pos (n div 10)"
        and "digit (m mod 10) = digit (n mod 10)"
        by (simp_all add: dec_pos.simps [of n])
      then have "m div 10 = n div 10" and "m mod 10 = n mod 10"
        using "1.IH" False n by (auto intro: digit_inj)
      then show ?thesis by (metis div_mult_mod_eq)
    qed
  qed
qed

lemma dec_nat_inj: "dec_nat m = dec_nat n \<Longrightarrow> m = n"
  using dec_pos_inj [of "int m" "int n"] by (simp add: dec_nat_def)

end
