(* ===== verification/PyData.thy ===== *)
theory PyData
  imports Prelude
begin

text \<open>
  The Python values that cross the gateway's interfaces: JSON documents as \<open>json.loads\<close> gives
  them, with Python's own equality, truth value, \<open>dict.get\<close>, membership and \<open>str\<close>.
  A float is a rational (every finite double is one), an infinity or NaN.
\<close>

section \<open>Values\<close>

datatype pyfloat = Fin rat | PosInf | NegInf | NaN

datatype json =
    JNull
  | JBool bool
  | JInt int
  | JFloat pyfloat
  | JStr string
  | JList "json list"
  | JObj "(string \<times> json) list"

text \<open>Sizes of the parts of a document, for the termination of the walks over it.\<close>

lemma size_list_mem [termination_simp]:
  "x \<in> set xs \<Longrightarrow> size x \<le> size_list size xs"
  by (rule size_list_estimation') auto

lemma size_dict_mem [termination_simp]:
  "(k, v) \<in> set d \<Longrightarrow> size v \<le> size_list (size_prod (\<lambda>_. 0) size) d"
  by (rule size_list_estimation' [where x = "(k, v)"]) auto

text \<open>
  Numeric comparison: exact between integers and floats, false for every comparison with NaN.
\<close>

fun num_eq :: "pyfloat \<Rightarrow> pyfloat \<Rightarrow> bool" where
  "num_eq (Fin a) (Fin b) = (a = b)"
| "num_eq PosInf PosInf = True"
| "num_eq NegInf NegInf = True"
| "num_eq _ _ = False"

fun num_lt :: "pyfloat \<Rightarrow> pyfloat \<Rightarrow> bool" where
  "num_lt NaN _ = False"
| "num_lt _ NaN = False"
| "num_lt (Fin a) (Fin b) = (a < b)"
| "num_lt _ NegInf = False"
| "num_lt NegInf _ = True"
| "num_lt PosInf _ = False"
| "num_lt _ PosInf = True"

definition num_le :: "pyfloat \<Rightarrow> pyfloat \<Rightarrow> bool" where
  "num_le a b = (num_lt a b \<or> num_eq a b)"

text \<open>A bool is an integer (0 or 1) in arithmetic and in comparisons.\<close>

fun num_of :: "json \<Rightarrow> pyfloat option" where
  "num_of (JBool b) = Some (Fin (if b then 1 else 0))"
| "num_of (JInt i) = Some (Fin (of_int i))"
| "num_of (JFloat f) = Some f"
| "num_of _ = None"

text \<open>
  \<open>==\<close>: numbers by value, lists element by element, dicts key by key whatever the order of
  insertion, values of different kinds never.
\<close>

function (sequential) py_eq :: "json \<Rightarrow> json \<Rightarrow> bool" where
  "py_eq JNull JNull = True"
| "py_eq (JStr s) (JStr t) = (s = t)"
| "py_eq (JList xs) (JList ys) =
     (length xs = length ys \<and> list_all (\<lambda>(x, y). py_eq x y) (zip xs ys))"
| "py_eq (JObj d) (JObj e) =
     (length d = length e \<and>
      list_all (\<lambda>(k, v). case map_of e k of None \<Rightarrow> False | Some v' \<Rightarrow> py_eq v v') d)"
| "py_eq a b = (case (num_of a, num_of b) of (Some x, Some y) \<Rightarrow> num_eq x y | _ \<Rightarrow> False)"
  by pat_completeness auto
termination
  by (relation "measure (\<lambda>(a, b). size a)")
    (auto simp: less_Suc_eq_le dest!: set_zip_leftD intro: size_list_mem size_dict_mem)

section \<open>Truth value, lookup, membership\<close>

fun truthy :: "json \<Rightarrow> bool" where
  "truthy JNull = False"
| "truthy (JBool b) = b"
| "truthy (JInt i) = (i \<noteq> 0)"
| "truthy (JFloat f) = (f \<noteq> Fin 0)"
| "truthy (JStr s) = (s \<noteq> [])"
| "truthy (JList xs) = (xs \<noteq> [])"
| "truthy (JObj d) = (d \<noteq> [])"

text \<open>\<open>x or y\<close>, for the idiom \<open>value or {}\<close>.\<close>

definition py_or :: "json \<Rightarrow> json \<Rightarrow> json" where
  "py_or a b = (if truthy a then a else b)"

text \<open>\<open>v.get(k)\<close> and \<open>v.get(k, d)\<close>: only a dict has \<open>get\<close>.\<close>

fun py_get_default :: "json \<Rightarrow> string \<Rightarrow> json \<Rightarrow> json res" where
  "py_get_default (JObj d) k dv = Inr (case map_of d k of None \<Rightarrow> dv | Some v \<Rightarrow> v)"
| "py_get_default _ _ _ = Inl AttributeError"

definition py_get :: "json \<Rightarrow> string \<Rightarrow> json res" where
  "py_get v k = py_get_default v k JNull"

text \<open>Substring test, Python's \<open>in\<close> on two strings.\<close>

fun is_prefix_of :: "'a list \<Rightarrow> 'a list \<Rightarrow> bool" where
  "is_prefix_of [] _ = True"
| "is_prefix_of (x # xs) [] = False"
| "is_prefix_of (x # xs) (y # ys) = (x = y \<and> is_prefix_of xs ys)"

fun is_infix_of :: "'a list \<Rightarrow> 'a list \<Rightarrow> bool" where
  "is_infix_of xs [] = (xs = [])"
| "is_infix_of xs (y # ys) = (is_prefix_of xs (y # ys) \<or> is_infix_of xs ys)"

text \<open>\<open>k in v\<close> for a string \<open>k\<close>: keys of a dict, elements of a list, substrings of a string.\<close>

fun py_in :: "string \<Rightarrow> json \<Rightarrow> bool res" where
  "py_in k (JObj d) = Inr (k \<in> set (map fst d))"
| "py_in k (JList xs) = Inr (list_ex (\<lambda>x. py_eq x (JStr k)) xs)"
| "py_in k (JStr s) = Inr (is_infix_of k s)"
| "py_in _ _ = Inl TypeError"

definition is_dict :: "json \<Rightarrow> bool" where
  "is_dict v = (case v of JObj _ \<Rightarrow> True | _ \<Rightarrow> False)"

definition is_str :: "json \<Rightarrow> bool" where
  "is_str v = (case v of JStr _ \<Rightarrow> True | _ \<Rightarrow> False)"

text \<open>\<open>isinstance(v, int | float)\<close> and not a bool.\<close>

fun as_number :: "json \<Rightarrow> pyfloat option" where
  "as_number (JInt i) = Some (Fin (of_int i))"
| "as_number (JFloat f) = Some f"
| "as_number _ = None"

text \<open>
  \<open>str(v)\<close>. The text of a float, a list or a dict is a parameter: nothing in the gateway
  depends on its shape.
\<close>

fun py_str :: "(json \<Rightarrow> string) \<Rightarrow> json \<Rightarrow> string" where
  "py_str other (JStr s) = s"
| "py_str other JNull = ''None''"
| "py_str other (JBool b) = (if b then ''True'' else ''False'')"
| "py_str other (JInt i) = dec_int i"
| "py_str other v = other v"

text \<open>
  \<open>len\<close> of a string counts code points: the bytes that are not UTF-8 continuation bytes.
\<close>

definition py_len :: "string \<Rightarrow> nat" where
  "py_len s = length (filter (\<lambda>c. \<not> (128 \<le> (of_char c :: int) \<and> (of_char c :: int) < 192)) s)"

section \<open>Facts\<close>

lemma py_len_le: "py_len s \<le> length s"
  by (simp add: py_len_def)

lemma py_get_simps [simp]:
  "py_get (JObj d) k = Inr (case map_of d k of None \<Rightarrow> JNull | Some v \<Rightarrow> v)"
  "py_get JNull k = Inl AttributeError"
  "py_get (JStr s) k = Inl AttributeError"
  "py_get (JList xs) k = Inl AttributeError"
  "py_get (JBool b) k = Inl AttributeError"
  "py_get (JInt i) k = Inl AttributeError"
  "py_get (JFloat f) k = Inl AttributeError"
  by (simp_all add: py_get_def)

lemma py_get_Inr_iff: "py_get v k = Inr x \<longleftrightarrow>
    (\<exists>d. v = JObj d \<and> x = (case map_of d k of None \<Rightarrow> JNull | Some y \<Rightarrow> y))"
  by (cases v) auto

lemma py_or_JObj [simp]: "py_or JNull (JObj []) = JObj []" "py_or (JObj d) (JObj []) = JObj d"
  by (simp_all add: py_or_def)

lemma is_prefix_of_iff: "is_prefix_of xs ys \<longleftrightarrow> (\<exists>zs. ys = xs @ zs)"
  by (induction xs ys rule: is_prefix_of.induct) auto

lemma is_infix_of_iff: "is_infix_of xs ys \<longleftrightarrow> (\<exists>us zs. ys = us @ xs @ zs)"
proof (induction xs ys rule: is_infix_of.induct)
  case (2 xs y ys)
  show ?case
  proof
    assume "is_infix_of xs (y # ys)"
    then consider "is_prefix_of xs (y # ys)" | "is_infix_of xs ys" by auto
    then show "\<exists>us zs. y # ys = us @ xs @ zs"
    proof cases
      case 1
      then show ?thesis by (metis append_Nil is_prefix_of_iff)
    next
      case 2
      then show ?thesis using "2.IH" by (metis append_Cons)
    qed
  next
    assume "\<exists>us zs. y # ys = us @ xs @ zs"
    then obtain us zs where eq: "y # ys = us @ xs @ zs" by blast
    show "is_infix_of xs (y # ys)"
    proof (cases us)
      case Nil
      with eq have "is_prefix_of xs (y # ys)" by (auto simp: is_prefix_of_iff)
      then show ?thesis by simp
    next
      case (Cons u us')
      with eq "2.IH" show ?thesis by auto
    qed
  qed
qed auto

lemma num_lt_irrefl [simp]: "\<not> num_lt a a"
  by (cases a) auto

end
