(* ===== verification/Decision.thy ===== *)
theory Decision
  imports PyData
begin

text \<open>
  The canonical decision object (\<open>decision.py\<close>): event types, outcomes, risk factors and the
  \<open>Decision\<close> every terminal outcome is reported as, with their string values and the JSON
  document (\<open>model_dump\<close>) that travels in an error's data and in audit payloads; the drift
  severities of \<open>drift_detector.py\<close>, which name four of the events.
\<close>

datatype event_type =
    SESSION_START | TOOLS_LIST | ALLOW | DENY_RBAC | DENY_ABAC | DENY_REPLAY | DENY_DRIFT
  | DENY_RISK | DENY_VALIDATION | DENY_APPROVAL_MISMATCH | DENY_STEP_UP | CHALLENGE
  | HUMAN_APPROVAL_REQUIRED | APPROVED | EXPIRED | DRIFT_LOW | DRIFT_MEDIUM | DRIFT_HIGH
  | DRIFT_CRITICAL | BASELINE_FLAGGED | POLICY_ACTIVATED | POLICY_ERROR

fun event_value :: "event_type \<Rightarrow> string" where
  "event_value SESSION_START = ''SESSION_START''"
| "event_value TOOLS_LIST = ''TOOLS_LIST''"
| "event_value ALLOW = ''ALLOW''"
| "event_value DENY_RBAC = ''DENY_RBAC''"
| "event_value DENY_ABAC = ''DENY_ABAC''"
| "event_value DENY_REPLAY = ''DENY_REPLAY''"
| "event_value DENY_DRIFT = ''DENY_DRIFT''"
| "event_value DENY_RISK = ''DENY_RISK''"
| "event_value DENY_VALIDATION = ''DENY_VALIDATION''"
| "event_value DENY_APPROVAL_MISMATCH = ''DENY_APPROVAL_MISMATCH''"
| "event_value DENY_STEP_UP = ''DENY_STEP_UP''"
| "event_value CHALLENGE = ''CHALLENGE''"
| "event_value HUMAN_APPROVAL_REQUIRED = ''HUMAN_APPROVAL_REQUIRED''"
| "event_value APPROVED = ''APPROVED''"
| "event_value EXPIRED = ''EXPIRED''"
| "event_value DRIFT_LOW = ''DRIFT_LOW''"
| "event_value DRIFT_MEDIUM = ''DRIFT_MEDIUM''"
| "event_value DRIFT_HIGH = ''DRIFT_HIGH''"
| "event_value DRIFT_CRITICAL = ''DRIFT_CRITICAL''"
| "event_value BASELINE_FLAGGED = ''BASELINE_FLAGGED''"
| "event_value POLICY_ACTIVATED = ''POLICY_ACTIVATED''"
| "event_value POLICY_ERROR = ''POLICY_ERROR''"

definition all_events :: "event_type list" where
  "all_events = [SESSION_START, TOOLS_LIST, ALLOW, DENY_RBAC, DENY_ABAC, DENY_REPLAY, DENY_DRIFT,
     DENY_RISK, DENY_VALIDATION, DENY_APPROVAL_MISMATCH, DENY_STEP_UP, CHALLENGE,
     HUMAN_APPROVAL_REQUIRED, APPROVED, EXPIRED, DRIFT_LOW, DRIFT_MEDIUM, DRIFT_HIGH,
     DRIFT_CRITICAL, BASELINE_FLAGGED, POLICY_ACTIVATED, POLICY_ERROR]"

text \<open>\<open>EventType(s)\<close>: the member with that value, or ValueError.\<close>

definition event_of_value :: "string \<Rightarrow> event_type option" where
  "event_of_value s = List.find (\<lambda>e. event_value e = s) all_events"

datatype outcome = Allow | Deny | Challenge | HumanApprovalRequired

fun outcome_value :: "outcome \<Rightarrow> string" where
  "outcome_value Allow = ''allow''"
| "outcome_value Deny = ''deny''"
| "outcome_value Challenge = ''challenge''"
| "outcome_value HumanApprovalRequired = ''human_approval_required''"

record risk_factor =
  rf_factor :: string
  rf_contribution :: int
  rf_reason :: "string option"

record decision =
  d_decision :: outcome
  d_event_type :: event_type
  d_reason :: string
  d_matched_rules :: "string list"
  d_risk_score :: "int option"
  d_risk_factors :: "risk_factor list option"
  d_policy_version :: int
  d_audit_id :: "string option"
  d_approval_id :: "string option"
  d_challenge_id :: "string option"
  d_alternative :: "outcome option"

definition jopt :: "('a \<Rightarrow> json) \<Rightarrow> 'a option \<Rightarrow> json" where
  "jopt f v = (case v of None \<Rightarrow> JNull | Some x \<Rightarrow> f x)"

definition dump_factor :: "risk_factor \<Rightarrow> json" where
  "dump_factor f = JObj [(''factor'', JStr (rf_factor f)),
     (''contribution'', JInt (rf_contribution f)), (''reason'', jopt JStr (rf_reason f))]"

definition dump_decision :: "decision \<Rightarrow> json" where
  "dump_decision d = JObj
     [(''decision'', JStr (outcome_value (d_decision d))),
      (''event_type'', JStr (event_value (d_event_type d))),
      (''reason'', JStr (d_reason d)),
      (''matched_rules'', JList (map JStr (d_matched_rules d))),
      (''risk_score'', jopt JInt (d_risk_score d)),
      (''risk_factors'', jopt (\<lambda>fs. JList (map dump_factor fs)) (d_risk_factors d)),
      (''policy_version'', JInt (d_policy_version d)),
      (''audit_id'', jopt JStr (d_audit_id d)),
      (''approval_id'', jopt JStr (d_approval_id d)),
      (''challenge_id'', jopt JStr (d_challenge_id d)),
      (''alternative'', jopt (\<lambda>a. JStr (outcome_value a)) (d_alternative d))]"

section \<open>Drift severities\<close>

datatype severity = LOW | MEDIUM | HIGH | CRITICAL

fun severity_rank :: "severity \<Rightarrow> nat" where
  "severity_rank LOW = 1"
| "severity_rank MEDIUM = 2"
| "severity_rank HIGH = 3"
| "severity_rank CRITICAL = 4"

text \<open>\<open>DriftSeverity\<close> is an \<open>IntEnum\<close>: ordered by its value.\<close>

instantiation severity :: linorder
begin

definition less_eq_severity :: "severity \<Rightarrow> severity \<Rightarrow> bool" where
  "less_eq_severity a b = (severity_rank a \<le> severity_rank b)"

definition less_severity :: "severity \<Rightarrow> severity \<Rightarrow> bool" where
  "less_severity a b = (severity_rank a < severity_rank b)"

instance
proof
  fix x y z :: severity
  show "x < y \<longleftrightarrow> x \<le> y \<and> \<not> y \<le> x" by (auto simp: less_eq_severity_def less_severity_def)
  show "x \<le> x" by (simp add: less_eq_severity_def)
  show "x \<le> y \<Longrightarrow> y \<le> z \<Longrightarrow> x \<le> z" by (simp add: less_eq_severity_def)
  show "x \<le> y \<Longrightarrow> y \<le> x \<Longrightarrow> x = y"
    by (cases x; cases y) (simp_all add: less_eq_severity_def)
  show "x \<le> y \<or> y \<le> x" by (auto simp: less_eq_severity_def)
qed

end

fun severity_event :: "severity \<Rightarrow> event_type" where
  "severity_event LOW = DRIFT_LOW"
| "severity_event MEDIUM = DRIFT_MEDIUM"
| "severity_event HIGH = DRIFT_HIGH"
| "severity_event CRITICAL = DRIFT_CRITICAL"

fun severity_lower :: "severity \<Rightarrow> string" where
  "severity_lower LOW = ''low''"
| "severity_lower MEDIUM = ''medium''"
| "severity_lower HIGH = ''high''"
| "severity_lower CRITICAL = ''critical''"

definition severity_blocks :: "severity \<Rightarrow> bool" where
  "severity_blocks s = (HIGH \<le> s)"

lemma severity_blocks_iff [simp]: "severity_blocks s \<longleftrightarrow> s = HIGH \<or> s = CRITICAL"
  by (cases s) (simp_all add: severity_blocks_def less_eq_severity_def)

lemma event_of_value_event [simp]: "event_of_value (event_value e) = Some e"
  by (cases e) (simp_all add: event_of_value_def all_events_def)

lemma event_value_inj: "event_value a = event_value b \<Longrightarrow> a = b"
  by (metis event_of_value_event option.inject)

end
