(* ===== verification/PyLib.thy ===== *)
theory PyLib
  imports Prelude "HOL-Library.Word"
begin

unbundle bit_operations_syntax

text \<open>
  The parts of Python's standard library whose results decide what the gateway does, written as
  they work: splitting UTF-8 text into code points, \<open>str.strip\<close> and \<open>upper\<close> on ASCII,
  \<open>base64.b32decode\<close>, \<open>hmac.compare_digest\<close> on strings, \<open>struct.pack(">Q")\<close>,
  \<open>fnmatch.fnmatch\<close> and the acceptance test of \<open>uuid.UUID\<close>.
  Hashes and MACs stay parameters.
\<close>

section \<open>Bytes and code points\<close>

definition byte :: "char \<Rightarrow> int" where
  "byte c = of_char c"

definition is_ascii :: "string \<Rightarrow> bool" where
  "is_ascii s = list_all (\<lambda>c. byte c < 128) s"

definition is_cont :: "char \<Rightarrow> bool" where
  "is_cont c = (128 \<le> byte c \<and> byte c < 192)"

text \<open>The code points of a string, each as its UTF-8 bytes.\<close>

fun code_points :: "string \<Rightarrow> string list" where
  "code_points [] = []"
| "code_points (c # cs) =
     (case code_points cs of
        [] \<Rightarrow> [[c]]
      | p # ps \<Rightarrow> if p \<noteq> [] \<and> is_cont (hd p) then (c # p) # ps else [c] # p # ps)"

lemma concat_code_points [simp]: "concat (code_points s) = s"
  by (induction s) (auto split: list.splits)

definition is_space :: "char \<Rightarrow> bool" where
  "is_space c = (9 \<le> byte c \<and> byte c \<le> 13 \<or> 28 \<le> byte c \<and> byte c \<le> 32)"

definition strip_by :: "(char \<Rightarrow> bool) \<Rightarrow> string \<Rightarrow> string" where
  "strip_by p s = rev (dropWhile p (rev (dropWhile p s)))"

definition upper_char :: "char \<Rightarrow> char" where
  "upper_char c = (if 97 \<le> byte c \<and> byte c \<le> 122 then char_of (byte c - 32) else c)"

section \<open>base32\<close>

definition b32_value :: "char \<Rightarrow> int option" where
  "b32_value c =
     (if 65 \<le> byte c \<and> byte c \<le> 90 then Some (byte c - 65)
      else if 50 \<le> byte c \<and> byte c \<le> 55 then Some (byte c - 24)
      else None)"

fun b32_acc :: "int \<Rightarrow> string \<Rightarrow> int option" where
  "b32_acc acc [] = Some acc"
| "b32_acc acc (c # cs) =
     (case b32_value c of None \<Rightarrow> None | Some v \<Rightarrow> b32_acc (acc * 32 + v) cs)"

text \<open>\<open>int.to_bytes(n)\<close>, big-endian.\<close>

fun to_bytes :: "nat \<Rightarrow> int \<Rightarrow> string" where
  "to_bytes 0 v = []"
| "to_bytes (Suc n) v = to_bytes n (v div 256) @ [char_of (v mod 256)]"

text \<open>
  The loop over the groups of eight digits: the bytes decoded so far and the last accumulator.
\<close>

fun b32_loop :: "nat \<Rightarrow> string \<Rightarrow> string \<Rightarrow> int \<Rightarrow> (string \<times> int) option" where
  "b32_loop 0 s decoded acc = Some (decoded, acc)"
| "b32_loop (Suc n) s decoded acc =
     (if s = [] then Some (decoded, acc)
      else case b32_acc 0 (take 8 s) of
          None \<Rightarrow> None
        | Some a \<Rightarrow> b32_loop n (drop 8 s) (decoded @ to_bytes 5 a) a)"

definition b32decode :: "string \<Rightarrow> string res" where
  "b32decode s =
     (if \<not> is_ascii s then Inl (ValueError ''string argument should contain only ASCII characters'')
      else if length s mod 8 \<noteq> 0 then Inl (ValueError ''Incorrect padding'')
      else
        let body = rev (dropWhile (\<lambda>c. c = CHR ''='') (rev s));
            padchars = length s - length body
        in case b32_loop (length body) body [] 0 of
            None \<Rightarrow> Inl (ValueError ''Non-base32 digit found'')
          | Some (decoded, acc) \<Rightarrow>
              if padchars \<notin> {0, 1, 3, 4, 6} then Inl (ValueError ''Incorrect padding'')
              else if padchars \<noteq> 0 \<and> decoded \<noteq> []
              then Inr (take (length decoded - 5) decoded @
                     take ((43 - 5 * padchars) div 8) (to_bytes 5 (acc * 2 ^ (5 * padchars))))
              else Inr decoded)"

section \<open>compare_digest and struct\<close>

text \<open>Two strings compare by content; a non-ASCII string raises TypeError.\<close>

definition compare_digest :: "string \<Rightarrow> string \<Rightarrow> bool res" where
  "compare_digest a b = (if is_ascii a \<and> is_ascii b then Inr (a = b) else Inl TypeError)"

definition pack_u64 :: "int \<Rightarrow> string res" where
  "pack_u64 n = (if 0 \<le> n \<and> n < 2 ^ 64 then Inr (to_bytes 8 n) else Inl (OtherError ''struct.error''))"

fun from_bytes :: "string \<Rightarrow> int" where
  "from_bytes [] = 0"
| "from_bytes (c # cs) = byte c * 256 ^ length cs + from_bytes cs"

definition unpack_u32 :: "string \<Rightarrow> 32 word res" where
  "unpack_u32 s = (if length s = 4 then Inr (word_of_int (from_bytes s)) else Inl (OtherError ''struct.error''))"

section \<open>fnmatch\<close>

text \<open>
  A pattern is a list of tokens over code points: a star, any one character, a literal, or a
  (possibly negated) class of characters and ranges. A range whose bounds are out of order
  matches nothing.
\<close>

datatype glob = Star | AnyOne | Lit string | Cls bool "(string \<times> string) list"

fun class_items :: "string list \<Rightarrow> (string \<times> string) list" where
  "class_items [] = []"
| "class_items [a] = [(a, a)]"
| "class_items [a, b] = [(a, a), (b, b)]"
| "class_items (a # b # c # rest) =
     (if b = ''-'' then (a, c) # class_items rest else (a, a) # class_items (b # c # rest))"

text \<open>
  Split after \<open>[\<close> at the closing bracket: an optional \<open>!\<close>, a first \<open>]\<close> that is literal, then
  everything to the next \<open>]\<close>.
\<close>

fun until_close :: "string list \<Rightarrow> (string list \<times> string list) option" where
  "until_close [] = None"
| "until_close (p # ps) =
     (if p = '']'' then Some ([], ps)
      else case until_close ps of None \<Rightarrow> None | Some (inner, rest) \<Rightarrow> Some (p # inner, rest))"

definition bracket :: "string list \<Rightarrow> (glob \<times> string list) option" where
  "bracket ps =
     (let (neg, qs) = (case ps of p # rest \<Rightarrow> if p = ''!'' then (True, rest) else (False, ps) | [] \<Rightarrow> (False, ps));
          (first, rs) = (case qs of q # rest \<Rightarrow> if q = '']'' then ([q], rest) else ([], qs) | [] \<Rightarrow> ([], qs))
      in case until_close rs of
          None \<Rightarrow> None
        | Some (inner, rest) \<Rightarrow> Some (Cls neg (class_items (first @ inner)), rest))"

lemma until_close_length: "until_close ps = Some (inner, rest) \<Longrightarrow> length rest < length ps"
  by (induction ps arbitrary: inner rest) (auto split: if_splits option.splits)

lemma bracket_length: "bracket ps = Some (g, rest) \<Longrightarrow> length rest < length ps"
  by (auto simp: bracket_def split: list.splits if_splits option.splits prod.splits
      dest!: until_close_length)

function glob_tokens :: "string list \<Rightarrow> glob list" where
  "glob_tokens [] = []"
| "glob_tokens (p # ps) =
     (if p = ''*'' then Star # glob_tokens ps
      else if p = ''?'' then AnyOne # glob_tokens ps
      else if p = ''['' then
        (case bracket ps of
           None \<Rightarrow> Lit p # glob_tokens ps
         | Some (g, rest) \<Rightarrow> g # glob_tokens rest)
      else Lit p # glob_tokens ps)"
  by pat_completeness auto
termination
  by (relation "measure length") (auto dest!: bracket_length)

fun in_class :: "string \<Rightarrow> (string \<times> string) list \<Rightarrow> bool" where
  "in_class c [] = False"
| "in_class c ((lo, hi) # items) = (lo \<le> c \<and> c \<le> hi \<or> in_class c items)"

function glob_match :: "glob list \<Rightarrow> string list \<Rightarrow> bool" where
  "glob_match [] cs = (cs = [])"
| "glob_match (Star # gs) [] = glob_match gs []"
| "glob_match (Star # gs) (c # cs) = (glob_match gs (c # cs) \<or> glob_match (Star # gs) cs)"
| "glob_match (AnyOne # gs) [] = False"
| "glob_match (AnyOne # gs) (c # cs) = glob_match gs cs"
| "glob_match (Lit p # gs) [] = False"
| "glob_match (Lit p # gs) (c # cs) = (c = p \<and> glob_match gs cs)"
| "glob_match (Cls neg items # gs) [] = False"
| "glob_match (Cls neg items # gs) (c # cs) = (in_class c items \<noteq> neg \<and> glob_match gs cs)"
  by pat_completeness auto
termination
  by (relation "measure (\<lambda>(gs, cs). length gs + length cs)") auto

definition fnmatch :: "string \<Rightarrow> string \<Rightarrow> bool" where
  "fnmatch name pat = glob_match (glob_tokens (code_points pat)) (code_points name)"

section \<open>uuid.UUID\<close>

function remove_all :: "string \<Rightarrow> string \<Rightarrow> string" where
  "remove_all sub s =
     (if s = [] \<or> sub = [] then s
      else if take (length sub) s = sub then remove_all sub (drop (length sub) s)
      else hd s # remove_all sub (tl s))"
  by pat_completeness auto
termination
  by (relation "measure (\<lambda>(sub, s). length s)") auto

declare remove_all.simps [simp del]

definition is_hex_digit :: "char \<Rightarrow> bool" where
  "is_hex_digit c = (48 \<le> byte c \<and> byte c \<le> 57 \<or> 65 \<le> byte c \<and> byte c \<le> 70 \<or> 97 \<le> byte c \<and> byte c \<le> 102)"

text \<open>Digits of an integer literal: single underscores may stand between two digits.\<close>

fun hex_digits_ok :: "string \<Rightarrow> bool" where
  "hex_digits_ok [] = False"
| "hex_digits_ok [c] = is_hex_digit c"
| "hex_digits_ok (c # d # cs) =
     (is_hex_digit c \<and> (if d = CHR ''_'' then hex_digits_ok cs else hex_digits_ok (d # cs)))"

definition int16_ok :: "string \<Rightarrow> bool" where
  "int16_ok s =
     (let t = strip_by is_space s;
          u = (case t of c # cs \<Rightarrow> if c = CHR ''+'' then cs else t | [] \<Rightarrow> t);
          v = (if take 2 u = ''0x'' \<or> take 2 u = ''0X''
               then (case drop 2 u of c # cs \<Rightarrow> if c = CHR ''_'' then cs else drop 2 u | [] \<Rightarrow> [])
               else u)
      in hex_digits_ok v)"

definition uuid_ok :: "string \<Rightarrow> bool" where
  "uuid_ok s =
     (let h = filter (\<lambda>c. c \<noteq> CHR ''-'')
                (strip_by (\<lambda>c. c = CHR ''{'' \<or> c = CHR ''}'') (remove_all ''uuid:'' (remove_all ''urn:'' s)))
      in length (code_points h) = 32 \<and> int16_ok h)"

end
