(* ===== verification/Totp.thy ===== *)
theory Totp
  imports PyLib
begin

unbundle bit_operations_syntax

text \<open>
  The one-time codes of \<open>step_up.py\<close>: secret decoding, HOTP with its dynamic truncation on
  machine words, the code at a time and the check against the current step and its two
  neighbours. HMAC-SHA1 is a parameter.
\<close>

definition TOTP_STEP_SECONDS :: int where "TOTP_STEP_SECONDS = 30"
definition TOTP_DIGITS :: nat where "TOTP_DIGITS = 6"
definition TOTP_SKEW_STEPS :: int where "TOTP_SKEW_STEPS = 1"
definition CODE_DEDUP_TTL_SECONDS :: int where "CODE_DEDUP_TTL_SECONDS = 90"

definition decode_totp_secret :: "string \<Rightarrow> string res" where
  "decode_totp_secret s = b32decode (map upper_char (strip_by is_space s))"

definition hotp :: "(string \<Rightarrow> string \<Rightarrow> string) \<Rightarrow> string \<Rightarrow> int \<Rightarrow> string res" where
  "hotp hmac_sha1 secret counter =
     res_bnd (pack_u64 counter) (\<lambda>msg.
       let digest = hmac_sha1 secret msg
       in if digest = [] then Inl (OtherError ''IndexError'')
          else
            let offset = unat ((word_of_int (byte (last digest)) :: 8 word) AND 0x0F)
            in res_bnd (unpack_u32 (take 4 (drop offset digest))) (\<lambda>w.
                 let v = w AND 0x7FFFFFFF
                 in Inr (pad_zeros TOTP_DIGITS (dec_int (uint v mod 10 ^ TOTP_DIGITS)))))"

definition totp_counter :: "rat \<Rightarrow> int" where
  "totp_counter now = \<lfloor>now / of_int TOTP_STEP_SECONDS\<rfloor>"

definition totp_code :: "(string \<Rightarrow> string \<Rightarrow> string) \<Rightarrow> string \<Rightarrow> rat \<Rightarrow> string res" where
  "totp_code hmac_sha1 secret_b32 now =
     res_bnd (decode_totp_secret secret_b32) (\<lambda>secret. hotp hmac_sha1 secret (totp_counter now))"

fun any_code ::
  "(string \<Rightarrow> string \<Rightarrow> string) \<Rightarrow> string \<Rightarrow> string \<Rightarrow> int \<Rightarrow> int list \<Rightarrow> bool res" where
  "any_code hmac_sha1 secret code counter [] = Inr False"
| "any_code hmac_sha1 secret code counter (skew # skews) =
     res_bnd (hotp hmac_sha1 secret (counter + skew)) (\<lambda>expected.
     res_bnd (compare_digest expected code) (\<lambda>equal.
       if equal then Inr True else any_code hmac_sha1 secret code counter skews))"

definition verify_totp ::
  "(string \<Rightarrow> string \<Rightarrow> string) \<Rightarrow> string \<Rightarrow> string \<Rightarrow> rat \<Rightarrow> bool res" where
  "verify_totp hmac_sha1 secret_b32 code now =
     (case decode_totp_secret secret_b32 of
        Inl e \<Rightarrow> Inr False
      | Inr secret \<Rightarrow>
          any_code hmac_sha1 secret code (totp_counter now)
            [- TOTP_SKEW_STEPS .. TOTP_SKEW_STEPS])"

end
