(* ===== verification/Policy.thy ===== *)
theory Policy
  imports Abac Totp
begin

text \<open>
  The policy file and the engine built from it (\<open>policy_engine.py\<close>): the models with their
  load-time validators, the lookup tables, RBAC resolution. YAML parsing and the typing of the
  fields (pydantic) are parameters: a policy enters as the record of its fields.
\<close>

section \<open>Models\<close>

datatype tier = TierLow | TierMedium | TierHigh | TierCritical

record risk_policy =
  tool_sensitivity :: "(string \<times> tier) list"
  protected_repos :: "string list"

record server_grant =
  g_server_id :: string
  g_allowed_tools :: "string list"
  g_denied_tools :: "string list"
  g_conditions :: "string list"
  g_compiled :: "condition list"

datatype auth_mode = Bearer | Signed

record identity =
  id_id :: string
  id_auth_mode :: auth_mode
  id_api_key_hash :: "string option"
  id_key_id :: "string option"
  id_signing_secret_env :: "string option"
  id_totp_secret_env :: "string option"
  id_admin :: bool
  id_allowed_servers :: "server_grant list"
  id_attributes :: "(string \<times> attr_value) list"
  id_signing_secret :: string
  id_totp_secret :: string

record policy_file =
  p_version :: int
  p_servers :: "(string \<times> string) list"
  p_identities :: "identity list"
  p_risk :: risk_policy

text \<open>A string option as a truth value: absent and empty are false.\<close>

definition given :: "string option \<Rightarrow> bool" where
  "given v = (v \<noteq> None \<and> v \<noteq> Some [])"

section \<open>Load-time validators\<close>

definition compile_conditions ::
  "(string \<Rightarrow> parse_result) \<Rightarrow> server_grant \<Rightarrow> server_grant res"
where
  "compile_conditions parse g =
     res_bnd (res_map (compile_condition parse) (g_conditions g)) (\<lambda>cs.
       Inr (g\<lparr>g_compiled := cs\<rparr>))"

definition bad_identity :: "identity \<Rightarrow> string \<Rightarrow> 'a res" where
  "bad_identity i msg = Inl (ValueError (''identity '' @ py_repr (id_id i) @ '': '' @ msg))"

definition check_signing :: "(string \<Rightarrow> string option) \<Rightarrow> identity \<Rightarrow> identity res" where
  "check_signing environ i =
     (case id_auth_mode i of
        Bearer \<Rightarrow>
          if \<not> given (id_api_key_hash i)
          then bad_identity i ''bearer auth_mode requires api_key_hash''
          else if given (id_key_id i) \<or> given (id_signing_secret_env i)
          then bad_identity i ''key_id/signing_secret_env are signed-mode fields''
          else Inr i
      | Signed \<Rightarrow>
          if \<not> given (id_key_id i) \<or> \<not> given (id_signing_secret_env i)
          then bad_identity i ''signed auth_mode requires key_id and signing_secret_env''
          else if given (id_api_key_hash i)
          then bad_identity i ''signed auth_mode forbids api_key_hash''
          else if id_admin i
          then bad_identity i ''admin requires bearer auth_mode''
          else
            (let secret = environ (the (id_signing_secret_env i))
             in if \<not> given secret
                then bad_identity i (''env var '' @ py_repr (the (id_signing_secret_env i)) @ '' is unset '' @ EM_DASH
                       @ '' signed identities fail closed without their secret'')
                else Inr (i\<lparr>id_signing_secret := the secret\<rparr>)))"

definition check_totp :: "(string \<Rightarrow> string option) \<Rightarrow> identity \<Rightarrow> identity res" where
  "check_totp environ i =
     (if \<not> given (id_totp_secret_env i) then Inr i
      else
        (let secret = environ (the (id_totp_secret_env i))
         in if \<not> given secret
            then bad_identity i (''env var '' @ py_repr (the (id_totp_secret_env i)) @ '' is unset '' @ EM_DASH
                   @ '' a step-up factor fails closed without its secret'')
            else case decode_totp_secret (the secret) of
                Inl e \<Rightarrow> bad_identity i (py_repr (the (id_totp_secret_env i)) @ '' is not a valid base32 TOTP secret'')
              | Inr bs \<Rightarrow> Inr (i\<lparr>id_totp_secret := the secret\<rparr>)))"

text \<open>
  Validation starts from the parsed fields: the private attributes have their defaults.
\<close>

definition check_auth_fields :: "(string \<Rightarrow> string option) \<Rightarrow> identity \<Rightarrow> identity res" where
  "check_auth_fields environ i =
     res_bnd (check_signing environ (i\<lparr>id_signing_secret := [], id_totp_secret := []\<rparr>))
       (check_totp environ)"

definition validate_identity ::
  "(string \<Rightarrow> parse_result) \<Rightarrow> (string \<Rightarrow> string option) \<Rightarrow> identity \<Rightarrow> identity res"
where
  "validate_identity parse environ i =
     res_bnd (res_map (compile_conditions parse) (id_allowed_servers i)) (\<lambda>gs.
       check_auth_fields environ (i\<lparr>id_allowed_servers := gs\<rparr>))"

definition grant_registered :: "(string \<times> string) list \<Rightarrow> server_grant \<Rightarrow> bool" where
  "grant_registered servers g =
     (g_server_id g = ''*'' \<or> g_server_id g \<in> set (map fst servers))"

definition check_servers :: "policy_file \<Rightarrow> policy_file res" where
  "check_servers p =
     (if ''*'' \<in> set (map fst (p_servers p))
      then Inl (ValueError ''\"*\" is a grant wildcard, not a registrable server_id'')
      else case List.find (\<lambda>(i, g). \<not> grant_registered (p_servers p) g)
                  (concat (map (\<lambda>i. map (Pair i) (id_allowed_servers i)) (p_identities p))) of
          None \<Rightarrow> Inr p
        | Some (i, g) \<Rightarrow>
            bad_identity i (''grant references unregistered server '' @ py_repr (g_server_id g)))"

definition validate_policy ::
  "(string \<Rightarrow> parse_result) \<Rightarrow> (string \<Rightarrow> string option) \<Rightarrow> policy_file \<Rightarrow> policy_file res"
where
  "validate_policy parse environ p =
     res_bnd (res_map (validate_identity parse environ) (p_identities p)) (\<lambda>is.
       check_servers (p\<lparr>p_identities := is\<rparr>))"

section \<open>The engine\<close>

record engine =
  en_policy :: policy_file
  en_content_hash :: string
  en_raw :: string
  en_identities :: "(string \<times> identity) list"
  en_by_key_hash :: "(string \<times> string) list"
  en_by_key_id :: "(string \<times> string) list"

definition make_engine :: "policy_file \<Rightarrow> string \<Rightarrow> string \<Rightarrow> engine" where
  "make_engine p content_hash raw =
     \<lparr>en_policy = p,
      en_content_hash = content_hash,
      en_raw = raw,
      en_identities = dict_of (map (\<lambda>i. (id_id i, i)) (p_identities p)),
      en_by_key_hash = dict_of (map (\<lambda>i. (the (id_api_key_hash i), id_id i))
        (filter (\<lambda>i. given (id_api_key_hash i)) (p_identities p))),
      en_by_key_id = dict_of (map (\<lambda>i. (the (id_key_id i), id_id i))
        (filter (\<lambda>i. given (id_key_id i)) (p_identities p)))\<rparr>"

definition en_version :: "engine \<Rightarrow> int" where
  "en_version en = p_version (en_policy en)"

definition identity_for_key_hash :: "engine \<Rightarrow> string \<Rightarrow> string option" where
  "identity_for_key_hash en h = map_of (en_by_key_hash en) h"

definition identity_for_key_id :: "engine \<Rightarrow> string \<Rightarrow> string option" where
  "identity_for_key_id en k = map_of (en_by_key_id en) k"

definition identity_of :: "engine \<Rightarrow> string \<Rightarrow> identity option" where
  "identity_of en i = map_of (en_identities en) i"

definition is_admin :: "engine \<Rightarrow> string \<Rightarrow> bool" where
  "is_admin en i = (case identity_of en i of None \<Rightarrow> False | Some x \<Rightarrow> id_admin x)"

definition server_command :: "engine \<Rightarrow> string \<Rightarrow> string option" where
  "server_command en s = map_of (p_servers (en_policy en)) s"

fun first_grant :: "server_grant list \<Rightarrow> string \<Rightarrow> string \<Rightarrow> server_grant option" where
  "first_grant [] server_id tool_name = None"
| "first_grant (g # gs) server_id tool_name =
     (if \<not> (g_server_id g = server_id \<or> g_server_id g = ''*'') then first_grant gs server_id tool_name
      else if tool_name \<in> set (g_denied_tools g) then None
      else if ''*'' \<in> set (g_allowed_tools g) \<or> tool_name \<in> set (g_allowed_tools g) then Some g
      else first_grant gs server_id tool_name)"

definition matching_grant ::
  "engine \<Rightarrow> string option \<Rightarrow> string \<Rightarrow> string \<Rightarrow> server_grant option"
where
  "matching_grant en identity_id server_id tool_name =
     (case identity_id of
        None \<Rightarrow> None
      | Some i \<Rightarrow>
          (case identity_of en i of
             None \<Rightarrow> None
           | Some x \<Rightarrow> first_grant (id_allowed_servers x) server_id tool_name))"

definition is_allowed :: "engine \<Rightarrow> string option \<Rightarrow> string \<Rightarrow> string \<Rightarrow> bool" where
  "is_allowed en identity_id server_id tool_name =
     (matching_grant en identity_id server_id tool_name \<noteq> None)"

section \<open>Facts\<close>

text \<open>What an allowing grant is, without the loop.\<close>

definition grant_covers :: "server_grant \<Rightarrow> string \<Rightarrow> bool" where
  "grant_covers g server_id = (g_server_id g = server_id \<or> g_server_id g = ''*'')"

definition grant_allows :: "server_grant \<Rightarrow> string \<Rightarrow> bool" where
  "grant_allows g tool_name = (''*'' \<in> set (g_allowed_tools g) \<or> tool_name \<in> set (g_allowed_tools g))"

lemma first_grant_Some:
  "first_grant gs s t = Some g \<longleftrightarrow>
     (\<exists>before after. gs = before @ g # after \<and> grant_covers g s \<and> grant_allows g t
        \<and> t \<notin> set (g_denied_tools g)
        \<and> (\<forall>h \<in> set before. grant_covers h s \<longrightarrow> t \<notin> set (g_denied_tools h) \<and> \<not> grant_allows h t))"
  (is "_ \<longleftrightarrow> ?R gs")
proof (induction gs)
  case Nil
  show ?case by simp
next
  case (Cons h gs)
  let ?here = "grant_covers h s \<and> grant_allows h t \<and> t \<notin> set (g_denied_tools h)"
  let ?skip = "grant_covers h s \<longrightarrow> t \<notin> set (g_denied_tools h) \<and> \<not> grant_allows h t"
  have split: "?R (h # gs) \<longleftrightarrow> (g = h \<and> ?here) \<or> (?skip \<and> ?R gs)"
  proof
    assume "?R (h # gs)"
    then obtain before after where *: "h # gs = before @ g # after" "grant_covers g s"
      "grant_allows g t" "t \<notin> set (g_denied_tools g)"
      "\<forall>h \<in> set before. grant_covers h s \<longrightarrow> t \<notin> set (g_denied_tools h) \<and> \<not> grant_allows h t"
      by blast
    show "(g = h \<and> ?here) \<or> (?skip \<and> ?R gs)"
    proof (cases before)
      case Nil
      with * show ?thesis by simp
    next
      case (Cons b bs)
      with * have "gs = bs @ g # after" and "?skip" by auto
      with * Cons show ?thesis by auto
    qed
  next
    assume "(g = h \<and> ?here) \<or> (?skip \<and> ?R gs)"
    then show "?R (h # gs)"
    proof
      assume "g = h \<and> ?here"
      then show ?thesis by (intro exI [of _ "[]"] exI [of _ gs]) simp
    next
      assume "?skip \<and> ?R gs"
      then obtain before after where "gs = before @ g # after" "grant_covers g s" "grant_allows g t"
        "t \<notin> set (g_denied_tools g)" "?skip"
        "\<forall>h \<in> set before. grant_covers h s \<longrightarrow> t \<notin> set (g_denied_tools h) \<and> \<not> grant_allows h t"
        by blast
      then show ?thesis by (intro exI [of _ "h # before"] exI [of _ after]) simp
    qed
  qed
  have "first_grant (h # gs) s t = Some g \<longleftrightarrow>
      (g = h \<and> ?here) \<or> (?skip \<and> first_grant gs s t = Some g)"
    by (auto simp: grant_covers_def grant_allows_def)
  with split Cons.IH show ?case by blast
qed

lemma matching_grant_Some:
  "matching_grant en i s t = Some g \<longleftrightarrow>
     (\<exists>iid x. i = Some iid \<and> identity_of en iid = Some x
        \<and> first_grant (id_allowed_servers x) s t = Some g)"
  by (auto simp: matching_grant_def split: option.splits)

lemma matching_grant_in:
  "matching_grant en (Some i) s t = Some g \<Longrightarrow>
     \<exists>x. identity_of en i = Some x \<and> g \<in> set (id_allowed_servers x)"
  by (auto simp: matching_grant_Some first_grant_Some)

lemma check_signing_Inr:
  "check_signing environ i = Inr j \<Longrightarrow>
     id_id j = id_id i \<and> id_auth_mode j = id_auth_mode i \<and> id_api_key_hash j = id_api_key_hash i
     \<and> id_key_id j = id_key_id i \<and> id_admin j = id_admin i
     \<and> id_allowed_servers j = id_allowed_servers i \<and> id_attributes j = id_attributes i
     \<and> id_totp_secret_env j = id_totp_secret_env i
     \<and> (id_auth_mode i = Bearer \<longrightarrow> given (id_api_key_hash i) \<and> \<not> given (id_key_id i))
     \<and> (id_auth_mode i = Signed \<longrightarrow> given (id_key_id i) \<and> \<not> given (id_api_key_hash i)
          \<and> \<not> id_admin i \<and> id_signing_secret j \<noteq> [])"
  by (auto simp: check_signing_def bad_identity_def given_def Let_def
      split: auth_mode.splits if_splits)

lemma check_totp_Inr:
  "check_totp environ i = Inr j \<Longrightarrow>
     j = i\<lparr>id_totp_secret := id_totp_secret j\<rparr>
     \<and> (id_totp_secret j = id_totp_secret i \<or> (\<exists>bs. decode_totp_secret (id_totp_secret j) = Inr bs))"
  by (auto simp: check_totp_def bad_identity_def Let_def split: if_splits sum.splits)

lemma identity_of_make_engine:
  "identity_of (make_engine p h r) i = Some x \<Longrightarrow> x \<in> set (p_identities p) \<and> id_id x = i"
  by (auto simp: identity_of_def make_engine_def dest!: dict_of_in)

lemma key_hash_make_engine:
  "identity_for_key_hash (make_engine p h r) kh = Some i \<Longrightarrow>
     \<exists>x \<in> set (p_identities p). id_id x = i \<and> id_api_key_hash x = Some kh"
  by (auto simp: identity_for_key_hash_def make_engine_def given_def dest!: dict_of_in) (metis option.sel)

lemma key_id_make_engine:
  "identity_for_key_id (make_engine p h r) k = Some i \<Longrightarrow>
     \<exists>x \<in> set (p_identities p). id_id x = i \<and> id_key_id x = Some k"
  by (auto simp: identity_for_key_id_def make_engine_def given_def dest!: dict_of_in) (metis option.sel)

end
