(* ===== verification/Demo.thy ===== *)
theory Demo
  imports World
begin

text \<open>
  A concrete instance of the supplied functions and a concrete world, for the witnesses: a
  canonical JSON printer, hashes and MACs that are the identity up to a tag (so they have no
  collisions), signatures that are tagged hashes, a validator that checks the required fields.
  Nothing else rests on these choices.
\<close>

definition quote_json :: "string \<Rightarrow> string" where
  "quote_json s = CHR 0x22 # concat (map (\<lambda>c. if c = CHR 0x22 \<or> c = CHR 0x5C then [CHR 0x5C, c] else [c]) s)
     @ [CHR 0x22]"

fun show_float :: "pyfloat \<Rightarrow> string option" where
  "show_float (Fin r) = (case quotient_of r of (n, d) \<Rightarrow> Some (dec_int n @ ''/'' @ dec_int d))"
| "show_float _ = None"

fun all_some :: "'a option list \<Rightarrow> 'a list option" where
  "all_some [] = Some []"
| "all_some (None # xs) = None"
| "all_some (Some x # xs) = map_option (Cons x) (all_some xs)"

function show_json :: "json \<Rightarrow> string option" where
  "show_json JNull = Some ''null''"
| "show_json (JBool b) = Some (if b then ''true'' else ''false'')"
| "show_json (JInt i) = Some (dec_int i)"
| "show_json (JFloat f) = show_float f"
| "show_json (JStr s) = Some (quote_json s)"
| "show_json (JList xs) =
     map_option (\<lambda>ss. ''['' @ join '','' ss @ '']'') (all_some (map show_json xs))"
| "show_json (JObj d) =
     map_option (\<lambda>kvs. ''{'' @ join '','' (map snd (sort_key fst kvs)) @ ''}'')
       (all_some (map (\<lambda>(k, v). map_option (\<lambda>s. (k, quote_json k @ '':'' @ s)) (show_json v)) d))"
  by pat_completeness auto
termination
  by (relation "measure size") (auto simp: less_Suc_eq_le intro: size_list_mem size_dict_mem)

definition demo_schema :: "json \<Rightarrow> json \<Rightarrow> schema_result" where
  "demo_schema args schema =
     (case (args, schema) of
        (JObj a, JObj s) \<Rightarrow>
          (case map_of s ''required'' of
             Some (JList ks) \<Rightarrow>
               if list_all (\<lambda>k. case k of JStr n \<Rightarrow> map_of a n \<noteq> None | _ \<Rightarrow> True) ks then Valid
               else ValidationError ''a required property is missing''
           | _ \<Rightarrow> Valid)
      | _ \<Rightarrow> Valid)"

text \<open>The conditions the demonstration policies use, as \<open>ast.parse\<close> gives them.\<close>

definition demo_parse :: "string \<Rightarrow> parse_result" where
  "demo_parse src =
     (if src = ''risk.score < 50''
      then Parsed (Compare (Attribute (Name ''risk'') ''score'') [Lt] [Constant (CVal (AInt 50))])
      else if src = ''identity.team == \"ops\"''
      then Parsed (Compare (Attribute (Name ''identity'') ''team'') [Eq] [Constant (CVal (AStr ''ops''))])
      else BadSyntax ''invalid syntax'')"

definition demo :: ext where
  "demo = \<lparr>
     x_cfg = default_settings,
     x_canon = show_json,
     x_sha256 = (\<lambda>s. s),
     x_hmac_sha256 = (\<lambda>k m. k @ ''|'' @ m),
     x_hmac_sha1 = (\<lambda>k m. take 20 (m @ k @ replicate 20 (CHR 0x00))),
     x_sign = (\<lambda>n h. ''sig:'' @ h),
     x_verify = (\<lambda>s h. s = ''sig:'' @ h),
     x_uuid = (\<lambda>n. ''id'' @ dec_nat n),
     x_jsonschema = demo_schema,
     x_py_parse = demo_parse,
     x_environ = (\<lambda>k. if k = ''OPS_TOTP'' then Some ''MZXW6YTBOI======''
                     else if k = ''BOT_SECRET'' then Some ''s3cret'' else None),
     x_read_policy = (\<lambda>raw. Inl (ValueError ''invalid policy'')),
     x_jsonb = (\<lambda>p. p),
     x_word = (\<lambda>s. False),
     x_str_other = (\<lambda>v. ''?'')\<rparr>"

text \<open>
  One bearer administrator \<open>ops\<close> with a TOTP factor who may call every tool but \<open>rm\<close> of the
  server \<open>srv\<close>, and one signed identity \<open>bot\<close>.
\<close>

definition demo_ops :: identity where
  "demo_ops = \<lparr>id_id = ''ops'', id_auth_mode = Bearer, id_api_key_hash = Some ''sha256:key'',
     id_key_id = None, id_signing_secret_env = None, id_totp_secret_env = Some ''OPS_TOTP'',
     id_admin = True,
     id_allowed_servers = [\<lparr>g_server_id = ''srv'', g_allowed_tools = [''*''], g_denied_tools = [''rm''],
       g_conditions = [], g_compiled = []\<rparr>],
     id_attributes = [(''team'', AStr ''ops'')], id_signing_secret = [],
     id_totp_secret = ''MZXW6YTBOI======''\<rparr>"

definition demo_bot :: identity where
  "demo_bot = \<lparr>id_id = ''bot'', id_auth_mode = Signed, id_api_key_hash = None,
     id_key_id = Some ''bot-key'', id_signing_secret_env = Some ''BOT_SECRET'', id_totp_secret_env = None,
     id_admin = False,
     id_allowed_servers = [\<lparr>g_server_id = ''srv'', g_allowed_tools = [''read''], g_denied_tools = [],
       g_conditions = [], g_compiled = []\<rparr>],
     id_attributes = [], id_signing_secret = ''s3cret'', id_totp_secret = []\<rparr>"

definition demo_policy :: policy_file where
  "demo_policy = \<lparr>p_version = 1, p_servers = [(''srv'', ''run'')],
     p_identities = [demo_ops, demo_bot],
     p_risk = \<lparr>tool_sensitivity = [(''write'', TierHigh)], protected_repos = [''prod/*'']\<rparr>\<rparr>"

definition demo_engine :: engine where
  "demo_engine = make_engine demo_policy ''hash1'' ''raw1''"

text \<open>A Monday at 12:00 UTC, every store empty, no fault ahead.\<close>

definition demo_world :: world where
  "demo_world = \<lparr>w_clock = 388800, w_redis = (\<lambda>_. None), w_audit = [], w_next_seq = 1,
     w_baselines = [], w_approvals = [], w_checkpoint = None, w_versions = [], w_snapshots = [],
     w_policy_bytes = None, w_engine = demo_engine, w_metrics = [], w_pending = (\<lambda>_. None),
     w_internal = (\<lambda>_. None), w_replies = [], w_uuids = 0, w_sigs = 0, w_races = [], w_faults = []\<rparr>"

end
