(* ===== verification/AuditLog.thy ===== *)
theory AuditLog
  imports Demo
begin

text \<open>
  The hash-chained audit log: the writer (\<open>audit_log.py\<close>), its signatures (\<open>signing.py\<close>, as
  parameters), the incremental verifier (\<open>audit_verifier.py\<close>) and the full-scan operator tool
  (\<open>scripts/verify_audit_chain.py\<close>). The lemmas: what a successful write leaves in the log, that
  the log only grows, that the chain invariant survives every write that returns, what the
  verifier accepts and rejects, and that the incremental verifier agrees with the full scan.
\<close>

section \<open>The writer\<close>

definition GENESIS_HASH :: string where
  "GENESIS_HASH = replicate 64 CHR ''0''"

definition POINTER_KEY :: string where
  "POINTER_KEY = ''latest_audit_hash''"

definition compute_hash :: "ext \<Rightarrow> string \<Rightarrow> json \<Rightarrow> string res" where
  "compute_hash E prev_hash payload =
     res_bnd (canon E payload) (\<lambda>c. Inr (x_sha256 E (prev_hash @ c)))"

definition escape_null :: "string \<Rightarrow> string" where
  "escape_null s = concat (map (\<lambda>c. if c = CHR 0x00 then CHR 0x5C # ''u0000'' else [c]) s)"

function jsonb_safe :: "json \<Rightarrow> json" where
  "jsonb_safe (JStr s) = JStr (escape_null s)"
| "jsonb_safe (JObj d) = JObj (dict_of (map (\<lambda>(k, v). (escape_null k, jsonb_safe v)) d))"
| "jsonb_safe (JList xs) = JList (map jsonb_safe xs)"
| "jsonb_safe JNull = JNull"
| "jsonb_safe (JBool b) = JBool b"
| "jsonb_safe (JInt i) = JInt i"
| "jsonb_safe (JFloat f) = JFloat f"
  by pat_completeness auto
termination
  by (relation "measure size") (auto simp: less_Suc_eq_le intro: size_list_mem size_dict_mem)

text \<open>\<open>cached.decode()\<close>: the text of a Redis value.\<close>

definition rval_text :: "ext \<Rightarrow> rval \<Rightarrow> string" where
  "rval_text E v = (case v of RNum n \<Rightarrow> dec_int n | RText s \<Rightarrow> s
     | RDoc j \<Rightarrow> (case x_canon E j of None \<Rightarrow> [] | Some s \<Rightarrow> s))"

definition last_hash :: "audit_row list \<Rightarrow> string" where
  "last_hash rows = (if rows = [] then GENESIS_HASH else ar_curr_hash (last (sort_key ar_seq rows)))"

definition prev_hash_of :: "ext \<Rightarrow> string step" where
  "prev_hash_of E =
     bnd (r_get POINTER_KEY) (\<lambda>cached.
       case cached of
         Some v \<Rightarrow> ret (rval_text E v)
       | None \<Rightarrow> db_read [] (\<lambda>w. last_hash (w_audit w)))"

definition sign_hash :: "ext \<Rightarrow> string \<Rightarrow> string step" where
  "sign_hash E curr_hash = (\<lambda>w. (Inr (x_sign E (w_sigs w) curr_hash), w\<lparr>w_sigs := Suc (w_sigs w)\<rparr>))"

definition opt_ok :: "string option \<Rightarrow> bool" where
  "opt_ok v = (case v of None \<Rightarrow> True | Some s \<Rightarrow> text_ok s)"

definition insert_row ::
  "ext \<Rightarrow> string \<Rightarrow> string \<Rightarrow> json \<Rightarrow> event_type \<Rightarrow> string \<Rightarrow> string option \<Rightarrow> string option
     \<Rightarrow> int option \<Rightarrow> int step"
where
  "insert_row E prev_hash curr_hash payload event_type identity_id server_id tool_name risk_score =
     bnd (sign_hash E curr_hash) (\<lambda>sig.
     bnd (gets w_next_seq) (\<lambda>seq.
     bnd (gets w_clock) (\<lambda>t.
     bnd the_engine (\<lambda>en.
     bnd (db_commit
           (text_ok identity_id \<and> opt_ok server_id \<and> opt_ok tool_name \<and> jsonb_ok payload)
           (\<lambda>w. w\<lparr>w_audit := w_audit w @
                 [\<lparr>ar_seq = seq, ar_prev_hash = prev_hash, ar_curr_hash = curr_hash,
                   ar_signature = sig, ar_timestamp = t, ar_identity_id = identity_id,
                   ar_server_id = server_id, ar_tool_name = tool_name,
                   ar_policy_version = en_version en, ar_event_type = event_value event_type,
                   ar_risk_score = risk_score, ar_payload = x_jsonb E payload\<rparr>],
               w_next_seq := seq + 1\<rparr>)) (\<lambda>_.
     ret seq)))))"

text \<open>\<open>{**base, **extra}\<close> of the payload.\<close>

definition audit_payload ::
  "event_type \<Rightarrow> string \<Rightarrow> string option \<Rightarrow> string option \<Rightarrow> int \<Rightarrow> (string \<times> json) list \<Rightarrow> json"
where
  "audit_payload event_type identity_id server_id tool_name version payload_extra =
     jsonb_safe (JObj (dict_of
       ([(''event_type'', JStr (event_value event_type)),
         (''identity_id'', JStr identity_id),
         (''server_id'', jopt JStr server_id),
         (''tool_name'', jopt JStr tool_name),
         (''policy_version'', JInt version)] @ payload_extra)))"

text \<open>
  \<open>EXEC\<close> after \<open>WATCH\<close>: when another client wrote the pointer in between, nothing is set and
  WatchError is raised.
\<close>

definition exec_set_pointer :: "string \<Rightarrow> unit step" where
  "exec_set_pointer curr_hash = faulty RedisError (\<lambda>w. case w_races w of
     [] \<Rightarrow> (Inr (), r_put POINTER_KEY (Some (RText curr_hash, None)) w)
   | None # rs \<Rightarrow> (Inr (), r_put POINTER_KEY (Some (RText curr_hash, None)) (w\<lparr>w_races := rs\<rparr>))
   | Some h # rs \<Rightarrow>
       (Inl WatchError, r_put POINTER_KEY (Some (RText h, None)) (w\<lparr>w_races := rs\<rparr>)))"

definition write_attempt ::
  "ext \<Rightarrow> event_type \<Rightarrow> string \<Rightarrow> string option \<Rightarrow> string option \<Rightarrow> (string \<times> json) list
     \<Rightarrow> int option \<Rightarrow> int step"
where
  "write_attempt E event_type identity_id server_id tool_name payload_extra risk_score =
     bnd (faulty RedisError (ret ())) (\<lambda>_.
     bnd (prev_hash_of E) (\<lambda>prev_hash.
     bnd the_engine (\<lambda>en.
     let payload = audit_payload event_type identity_id server_id tool_name (en_version en)
                     payload_extra in
     bnd (lift_res (compute_hash E prev_hash payload)) (\<lambda>curr_hash.
     bnd (insert_row E prev_hash curr_hash payload event_type identity_id server_id tool_name
            risk_score) (\<lambda>seq.
     bnd (exec_set_pointer curr_hash) (\<lambda>_.
     ret seq))))))"

text \<open>
  The \<open>while True\<close> loop, with fuel. Each retry follows a WatchError, which consumes one entry of
  the race schedule, so one more round than the schedule is long is always enough
  (\<open>audit_write_total\<close>).
\<close>

fun write_loop :: "nat \<Rightarrow> int step \<Rightarrow> int step" where
  "write_loop 0 body = raise WatchError"
| "write_loop (Suc n) body =
     try_catch body (\<lambda>e. if e = WatchError then write_loop n body else raise e)"

definition audit_write ::
  "ext \<Rightarrow> event_type \<Rightarrow> string \<Rightarrow> string option \<Rightarrow> string option \<Rightarrow> (string \<times> json) list
     \<Rightarrow> int option \<Rightarrow> int step"
where
  "audit_write E event_type identity_id server_id tool_name payload_extra risk_score =
     (\<lambda>w. write_loop (Suc (length (w_races w)))
            (write_attempt E event_type identity_id server_id tool_name payload_extra risk_score) w)"

section \<open>The verifiers\<close>

definition broken_link :: "int \<Rightarrow> string" where
  "broken_link seq = ''BROKEN LINK at seq='' @ dec_int seq @ '': prev_hash does not continue the chain''"

definition tampered_row :: "int \<Rightarrow> string" where
  "tampered_row seq = ''TAMPERED ROW at seq='' @ dec_int seq @ '': payload does not match curr_hash''"

definition bad_signature :: "int \<Rightarrow> string" where
  "bad_signature seq =
     ''BAD SIGNATURE at seq='' @ dec_int seq @ '': curr_hash was not signed by the gateway''"

text \<open>The three checks of one row, in order.\<close>

definition check_row :: "ext \<Rightarrow> bool \<Rightarrow> string \<Rightarrow> audit_row \<Rightarrow> string option res" where
  "check_row E with_sig prev_hash row =
     (if ar_prev_hash row \<noteq> prev_hash then Inr (Some (broken_link (ar_seq row)))
      else res_bnd (compute_hash E prev_hash (ar_payload row)) (\<lambda>h.
        if h \<noteq> ar_curr_hash row then Inr (Some (tampered_row (ar_seq row)))
        else if with_sig \<and> \<not> x_verify E (ar_signature row) (ar_curr_hash row)
        then Inr (Some (bad_signature (ar_seq row)))
        else Inr None))"

text \<open>The loop over the rows: how many passed, the last good sequence number, the failure.\<close>

fun verify_rows ::
  "ext \<Rightarrow> bool \<Rightarrow> string \<Rightarrow> int \<Rightarrow> nat \<Rightarrow> audit_row list \<Rightarrow> (nat \<times> int \<times> string option) res"
where
  "verify_rows E with_sig prev_hash last_verified verified [] = Inr (verified, last_verified, None)"
| "verify_rows E with_sig prev_hash last_verified verified (row # rows) =
     res_bnd (check_row E with_sig prev_hash row) (\<lambda>failure.
       case failure of
         Some f \<Rightarrow> Inr (verified, last_verified, Some f)
       | None \<Rightarrow> verify_rows E with_sig (ar_curr_hash row) (ar_seq row) (Suc verified) rows)"

definition rows_after :: "int \<Rightarrow> world \<Rightarrow> audit_row list" where
  "rows_after n w = sort_key ar_seq (filter (\<lambda>r. n < ar_seq r) (w_audit w))"

text \<open>The hash a pass starts from: genesis, or the checkpoint row's; None when that is gone.\<close>

definition anchor_hash :: "int \<Rightarrow> world \<Rightarrow> string option" where
  "anchor_hash last_verified w =
     (if last_verified = 0 then Some GENESIS_HASH
      else map_option ar_curr_hash (List.find (\<lambda>r. ar_seq r = last_verified) (w_audit w)))"

definition load_anchor :: "int \<Rightarrow> string option step" where
  "load_anchor last_verified =
     (if last_verified = 0 then ret (Some GENESIS_HASH) else db_read [] (anchor_hash last_verified))"

definition end_pass :: "nat \<Rightarrow> int \<Rightarrow> string option \<Rightarrow> (nat \<times> string option) step" where
  "end_pass verified last_good failure =
     bnd (if failure \<noteq> None then emit AuditVerifyFailure else ret ()) (\<lambda>_.
     bnd (if verified \<noteq> 0 then db_commit True (\<lambda>w. w\<lparr>w_checkpoint := Some last_good\<rparr>)
          else ret ()) (\<lambda>_.
     ret (verified, failure)))"

definition checkpoint_of :: "world \<Rightarrow> int" where
  "checkpoint_of w = (case w_checkpoint w of None \<Rightarrow> 0 | Some n \<Rightarrow> n)"

definition verify_increment :: "ext \<Rightarrow> (nat \<times> string option) step" where
  "verify_increment E =
     bnd (db_read [] checkpoint_of) (\<lambda>last_verified.
     bnd (load_anchor last_verified) (\<lambda>anchor.
       case anchor of
         None \<Rightarrow> ret (0, Some (''checkpoint row seq='' @ dec_int last_verified
                               @ '' is missing from audit_log''))
       | Some prev_hash \<Rightarrow>
           bnd (db_read [] (rows_after last_verified)) (\<lambda>rows.
           bnd (lift_res (verify_rows E True prev_hash last_verified 0 rows)) (\<lambda>result.
           case result of (verified, last_good, failure) \<Rightarrow> end_pass verified last_good failure))))"

text \<open>
  The operator's full scan; its exit code, and the message of the first break. Signatures are
  checked when the public key file exists.
\<close>

definition verify_full :: "ext \<Rightarrow> bool \<Rightarrow> (nat \<times> string) step" where
  "verify_full E key_exists =
     bnd (db_read [] (\<lambda>w. sort_key ar_seq (w_audit w))) (\<lambda>rows.
     bnd (lift_res (verify_rows E key_exists GENESIS_HASH 0 0 rows)) (\<lambda>(count, last_good, failure).
       case failure of
         Some f \<Rightarrow> ret (1, f)
       | None \<Rightarrow> ret (0, ''chain OK ('' @ dec_nat count @ '' rows)'')))"

section \<open>Frames: relations a row may be appended under\<close>

definition log_grows :: "world \<Rightarrow> world \<Rightarrow> bool" where
  "log_grows w w' \<longleftrightarrow> (\<exists>rows. w_audit w' = w_audit w @ rows)"

text \<open>
  A relation that also ignores the signing counter and the race schedule and allows a row to be
  appended: every audit write, failed or not, stays within it.
\<close>

locale append_ok = aux_blind R for R :: "world \<Rightarrow> world \<Rightarrow> bool" +
  assumes R_sigs: "R w (w\<lparr>w_sigs := n\<rparr>)"
    and R_races: "R w (w\<lparr>w_races := rc\<rparr>)"
    and R_append: "R w (w\<lparr>w_audit := w_audit w @ [row], w_next_seq := q\<rparr>)"
begin

lemma stays_sign_hash: "stays R (sign_hash E h)"
  by (simp add: sign_hash_def stays_def R_sigs)

lemma stays_exec_set_pointer: "stays R (exec_set_pointer h)"
  unfolding exec_set_pointer_def
proof (rule stays_faulty, rule staysI)
  fix w r w'
  assume run: "(case w_races w of
     [] \<Rightarrow> (Inr (), r_put POINTER_KEY (Some (RText h, None)) w)
   | None # rs \<Rightarrow> (Inr (), r_put POINTER_KEY (Some (RText h, None)) (w\<lparr>w_races := rs\<rparr>))
   | Some g # rs \<Rightarrow>
       (Inl WatchError, r_put POINTER_KEY (Some (RText g, None)) (w\<lparr>w_races := rs\<rparr>)))
     = (r, w')"
  have "R w (r_put k x (w\<lparr>w_races := rs\<rparr>))" for k x rs
    using R_trans [OF R_races R_put] .
  with run show "R w w'" by (auto split: list.splits option.splits simp: R_put)
qed

lemma stays_prev_hash_of: "stays R (prev_hash_of E)"
  unfolding prev_hash_of_def by (intro blind_intros)

lemma stays_insert_row: "stays R (insert_row E p c pl ev i s t k)"
  unfolding insert_row_def
  by (intro blind_intros stays_sign_hash stays_db_commit) (rule R_append)

lemma stays_write_attempt: "stays R (write_attempt E ev i s t x k)"
  unfolding write_attempt_def
  by (intro blind_intros stays_faulty stays_prev_hash_of stays_insert_row stays_exec_set_pointer)

lemma stays_write_loop: "stays R body \<Longrightarrow> stays R (write_loop n body)"
  by (induction n) (auto intro!: stays_raise stays_try_catch)

lemma stays_audit_write: "stays R (audit_write E ev i s t x k)"
proof (rule staysI)
  fix w r w'
  assume "audit_write E ev i s t x k w = (r, w')"
  then have "write_loop (Suc (length (w_races w))) (write_attempt E ev i s t x k) w = (r, w')"
    by (simp only: audit_write_def)
  then show "R w w'"
    by (rule staysD [OF stays_write_loop [OF stays_write_attempt]])
qed

lemmas append_intros = blind_intros stays_audit_write

end

interpretation log_grows: append_ok log_grows
  by unfold_locales (auto simp: log_grows_def)

interpretation same_approvals: append_ok "same w_approvals"
  by unfold_locales (auto simp: same_def)

interpretation same_baselines: append_ok "same w_baselines"
  by unfold_locales (auto simp: same_def)

interpretation same_engine: append_ok "same w_engine"
  by unfold_locales (auto simp: same_def)

interpretation same_clock: append_ok "same w_clock"
  by unfold_locales (auto simp: same_def)

section \<open>What a write leaves in the log\<close>

text \<open>The row a write of these arguments makes.\<close>

definition records ::
  "ext \<Rightarrow> event_type \<Rightarrow> string \<Rightarrow> string option \<Rightarrow> string option \<Rightarrow> (string \<times> json) list
     \<Rightarrow> int option \<Rightarrow> int \<Rightarrow> audit_row \<Rightarrow> bool"
where
  "records E ev i s t x k version row \<longleftrightarrow>
     ar_event_type row = event_value ev \<and> ar_identity_id row = i \<and> ar_server_id row = s
     \<and> ar_tool_name row = t \<and> ar_risk_score row = k \<and> ar_policy_version row = version
     \<and> ar_payload row = x_jsonb E (audit_payload ev i s t version x)
     \<and> compute_hash E (ar_prev_hash row) (audit_payload ev i s t version x)
         = Inr (ar_curr_hash row)"

text \<open>The hash a new row continues: the cached pointer, or the newest row when it is gone.\<close>

definition pointer_value :: "ext \<Rightarrow> world \<Rightarrow> string" where
  "pointer_value E w = (case r_live w POINTER_KEY of
     Some v \<Rightarrow> rval_text E v | None \<Rightarrow> last_hash (w_audit w))"

text \<open>A row and the state it was written from.\<close>

definition written ::
  "ext \<Rightarrow> event_type \<Rightarrow> string \<Rightarrow> string option \<Rightarrow> string option \<Rightarrow> (string \<times> json) list
     \<Rightarrow> int option \<Rightarrow> world \<Rightarrow> audit_row \<Rightarrow> bool"
where
  "written E ev i s t x k w row \<longleftrightarrow>
     records E ev i s t x k (en_version (w_engine w)) row
     \<and> ar_seq row = w_next_seq w \<and> ar_prev_hash row = pointer_value E w
     \<and> ar_timestamp row = w_clock w
     \<and> (\<exists>n. ar_signature row = x_sign E n (ar_curr_hash row))
     \<and> jsonb_ok (audit_payload ev i s t (en_version (w_engine w)) x)"

lemma pointer_value_quiet: "quiet w w' \<Longrightarrow> pointer_value E w' = pointer_value E w"
  by (simp add: pointer_value_def quiet_live quiet_fields split: option.split)

lemma prev_hash_of_Inr:
  "prev_hash_of E w = (Inr p, w') \<Longrightarrow> p = pointer_value E w \<and> quiet w w'"
  unfolding prev_hash_of_def pointer_value_def
  by (auto simp: bnd_Inr_iff quiet_fields split: option.splits dest!: r_get_Inr db_read_Inr
      intro: quiet_trans)

lemma prev_hash_of_Inl:
  "prev_hash_of E w = (Inl e, w') \<Longrightarrow> e \<noteq> WatchError \<and> quiet w w'"
  unfolding prev_hash_of_def
  by (auto simp: bnd_Inl_iff split: option.splits dest!: r_get_Inr r_get_Inl db_read_Inl
      intro: quiet_trans)

lemma insert_row_Inr:
  assumes "insert_row E p c pl ev i s t k w = (Inr seq, w')"
  shows "\<exists>w1. quiet (w\<lparr>w_sigs := Suc (w_sigs w)\<rparr>) w1 \<and> seq = w_next_seq w \<and> jsonb_ok pl
    \<and> w' = w1\<lparr>w_audit := w_audit w @
           [\<lparr>ar_seq = seq, ar_prev_hash = p, ar_curr_hash = c,
             ar_signature = x_sign E (w_sigs w) c, ar_timestamp = w_clock w, ar_identity_id = i,
             ar_server_id = s, ar_tool_name = t, ar_policy_version = en_version (w_engine w),
             ar_event_type = event_value ev, ar_risk_score = k, ar_payload = x_jsonb E pl\<rparr>],
         w_next_seq := seq + 1\<rparr>"
  using assms unfolding insert_row_def sign_hash_def the_engine_def
  by (auto simp: bnd_Inr_iff quiet_fields dest!: db_commit_Inr)

lemma insert_row_Inl:
  assumes "insert_row E p c pl ev i s t k w = (Inl e, w')"
  shows "quiet (w\<lparr>w_sigs := Suc (w_sigs w)\<rparr>) w' \<and> e \<noteq> WatchError"
  using assms unfolding insert_row_def sign_hash_def the_engine_def
  by (auto simp: bnd_Inl_iff dest!: db_commit_Inl)

lemma exec_set_pointer_Inr:
  "exec_set_pointer h w = (Inr u, w') \<Longrightarrow>
     w_audit w' = w_audit w \<and> w_next_seq w' = w_next_seq w \<and> w_clock w' = w_clock w
     \<and> w_redis w' = (w_redis w)(POINTER_KEY := Some (RText h, None))"
  unfolding exec_set_pointer_def
  by (drule faulty_Inr, elim exE conjE, rename_tac w1, case_tac "w_races w1")
    (auto simp: quiet_fields split: option.splits)

lemma exec_set_pointer_Inl:
  assumes "exec_set_pointer h w = (Inl e, w')"
  shows "w_audit w' = w_audit w \<and> w_clock w' = w_clock w
    \<and> (e = RedisError \<or> e = WatchError \<and> length (w_races w') < length (w_races w))"
proof -
  from faulty_Inl [OF assms [unfolded exec_set_pointer_def]]
  consider "e = RedisError" "quiet w w'"
    | w1 where "quiet w w1" "(case w_races w1 of
         [] \<Rightarrow> (Inr (), r_put POINTER_KEY (Some (RText h, None)) w1)
       | None # rs \<Rightarrow> (Inr (), r_put POINTER_KEY (Some (RText h, None)) (w1\<lparr>w_races := rs\<rparr>))
       | Some g # rs \<Rightarrow>
           (Inl WatchError, r_put POINTER_KEY (Some (RText g, None)) (w1\<lparr>w_races := rs\<rparr>)))
       = (Inl e, w')"
    by blast
  then show ?thesis
  proof cases
    case 1
    then show ?thesis by (simp add: quiet_fields)
  next
    case 2
    then obtain g rs where "w_races w1 = Some g # rs" "e = WatchError"
      "w' = r_put POINTER_KEY (Some (RText g, None)) (w1\<lparr>w_races := rs\<rparr>)"
      by (auto split: list.splits option.splits)
    with 2(1) show ?thesis by (simp add: quiet_fields(1,3) quiet_fields(17) [symmetric])
  qed
qed

lemma write_attempt_Inr:
  assumes "write_attempt E ev i s t x k w = (Inr seq, w')"
  shows "\<exists>row. written E ev i s t x k w row \<and> ar_seq row = seq \<and> w_audit w' = w_audit w @ [row]
    \<and> w_next_seq w' = seq + 1
    \<and> w_redis w' = (w_redis w)(POINTER_KEY := Some (RText (ar_curr_hash row), None))"
  using assms unfolding write_attempt_def Let_def the_engine_def
  by (auto simp: bnd_Inr_iff quiet_fields pointer_value_quiet written_def records_def
      dest!: prev_hash_of_Inr insert_row_Inr exec_set_pointer_Inr faulty_Inr)

lemma compute_hash_Inl: "compute_hash E p pl = Inl e \<Longrightarrow> e \<noteq> WatchError"
  by (auto simp: compute_hash_def canon_def res_bnd_def split: option.splits)

lemma write_attempt_Inl:
  assumes "write_attempt E ev i s t x k w = (Inl e, w')"
  shows "w_audit w' = w_audit w \<and> w_redis w' = w_redis w \<and> w_next_seq w' = w_next_seq w
       \<and> e \<noteq> WatchError
     \<or> length (w_audit w') = Suc (length (w_audit w))
       \<and> (e = RedisError \<or> e = WatchError \<and> length (w_races w') < length (w_races w))"
  using assms unfolding write_attempt_def Let_def the_engine_def
  by (auto simp: bnd_Inl_iff quiet_fields
      dest!: prev_hash_of_Inr prev_hash_of_Inl insert_row_Inr insert_row_Inl exec_set_pointer_Inl
        faulty_Inr faulty_Inl compute_hash_Inl)

lemma write_attempt_engine:
  "write_attempt E ev i s t x k w = (r, w') \<Longrightarrow> w_engine w' = w_engine w"
  using staysD [OF same_engine.stays_write_attempt] by (auto simp: same_def)

lemma write_loop_total:
  "write_loop n (write_attempt E ev i s t x k) w = (Inl e, w') \<Longrightarrow> length (w_races w) < n \<Longrightarrow>
     e \<noteq> WatchError"
proof (induction n arbitrary: w)
  case (Suc n)
  show ?case
  proof (cases "write_attempt E ev i s t x k w")
    case (Pair r w1)
    with Suc.prems obtain e1 where r: "r = Inl e1"
      by (cases r) (auto simp: try_catch_def)
    show ?thesis
    proof (cases "e1 = WatchError")
      case True
      with Pair r write_attempt_Inl [of E ev i s t x k w e1 w1]
      have "length (w_races w1) < length (w_races w)" by simp
      with Suc.prems(2) have "length (w_races w1) < n" by simp
      moreover from Suc.prems(1) Pair r True
      have "write_loop n (write_attempt E ev i s t x k) w1 = (Inl e, w')"
        by (simp add: try_catch_def)
      ultimately show ?thesis by (rule Suc.IH [rotated])
    next
      case False
      with Suc.prems(1) Pair r show ?thesis by (simp add: try_catch_def)
    qed
  qed
qed simp

lemma audit_write_total: "audit_write E ev i s t x k w = (Inl e, w') \<Longrightarrow> e \<noteq> WatchError"
  unfolding audit_write_def by (erule write_loop_total) simp

lemma write_loop_Inr:
  "write_loop n (write_attempt E ev i s t x k) w = (Inr seq, w') \<Longrightarrow>
     \<exists>w0. w_engine w0 = w_engine w \<and> log_grows w w0
       \<and> write_attempt E ev i s t x k w0 = (Inr seq, w')"
proof (induction n arbitrary: w)
  case (Suc n)
  show ?case
  proof (cases "write_attempt E ev i s t x k w")
    case (Pair r w1)
    show ?thesis
    proof (cases r)
      case (Inr q)
      with Suc.prems Pair have "write_attempt E ev i s t x k w = (Inr seq, w')"
        by (simp add: try_catch_def)
      moreover have "log_grows w w" by (rule log_grows.R_refl)
      ultimately show ?thesis by blast
    next
      case (Inl e)
      with Suc.prems Pair have "write_loop n (write_attempt E ev i s t x k) w1 = (Inr seq, w')"
        by (auto simp: try_catch_def split: if_splits)
      from Suc.IH [OF this] obtain w0 where "w_engine w0 = w_engine w1" "log_grows w1 w0"
        "write_attempt E ev i s t x k w0 = (Inr seq, w')" by blast
      moreover from Pair have "w_engine w1 = w_engine w" by (rule write_attempt_engine)
      moreover from Pair have "log_grows w w1" by (rule staysD [OF log_grows.stays_write_attempt])
      ultimately show ?thesis using log_grows.R_trans by metis
    qed
  qed
qed simp

text \<open>
  A write that returns has appended, as the last row, the record of exactly its arguments and
  of the active policy version, under the sequence number it returns.
\<close>

lemma audit_write_Inr:
  assumes "audit_write E ev i s t x k w = (Inr seq, w')"
  shows "\<exists>rows row. w_audit w' = w_audit w @ rows @ [row] \<and> ar_seq row = seq
    \<and> records E ev i s t x k (en_version (w_engine w)) row"
proof -
  from write_loop_Inr [OF assms [unfolded audit_write_def]] obtain w0 where
    w0: "w_engine w0 = w_engine w" "log_grows w w0"
      "write_attempt E ev i s t x k w0 = (Inr seq, w')" by blast
  from write_attempt_Inr [OF w0(3)] obtain row where
    "written E ev i s t x k w0 row" "ar_seq row = seq" "w_audit w' = w_audit w0 @ [row]" by blast
  with w0(1,2) show ?thesis by (auto simp: log_grows_def written_def)
qed

lemma audit_write_calm:
  assumes "w_races w = []" and "audit_write E ev i s t x k w = (r, w')"
  shows "write_attempt E ev i s t x k w = (r, w')"
proof -
  have total: "e \<noteq> WatchError" if "write_attempt E ev i s t x k w = (Inl e, w1)" for e w1
    using write_attempt_Inl [OF that] assms(1) by auto
  then show ?thesis
    using assms by (auto simp: audit_write_def try_catch_def split: prod.splits sum.splits)
qed

section \<open>The chain invariant\<close>

text \<open>Every row passes the verifier's checks after its predecessor.\<close>

fun chained :: "ext \<Rightarrow> bool \<Rightarrow> string \<Rightarrow> audit_row list \<Rightarrow> bool" where
  "chained E with_sig prev_hash [] = True"
| "chained E with_sig prev_hash (row # rows) =
     (check_row E with_sig prev_hash row = Inr None \<and> chained E with_sig (ar_curr_hash row) rows)"

definition end_hash :: "string \<Rightarrow> audit_row list \<Rightarrow> string" where
  "end_hash prev_hash rows = (if rows = [] then prev_hash else ar_curr_hash (last rows))"

definition end_seq :: "int \<Rightarrow> audit_row list \<Rightarrow> int" where
  "end_seq n rows = (if rows = [] then n else ar_seq (last rows))"

lemma end_simps [simp]:
  "end_hash p [] = p" "end_hash p (r # rs) = end_hash (ar_curr_hash r) rs"
  "end_seq n [] = n" "end_seq n (r # rs) = end_seq (ar_seq r) rs"
  "end_hash p (rs @ [r]) = ar_curr_hash r" "end_seq n (rs @ [r]) = ar_seq r"
  by (simp_all add: end_hash_def end_seq_def)

lemma chained_append:
  "chained E b p (xs @ ys) \<longleftrightarrow> chained E b p xs \<and> chained E b (end_hash p xs) ys"
  by (induction xs arbitrary: p) auto

lemma verify_rows_chained:
  "chained E b p rows \<Longrightarrow>
     verify_rows E b p n v rows = Inr (v + length rows, end_seq n rows, None)"
  by (induction rows arbitrary: p n v) auto

lemma verify_rows_append:
  "chained E b p xs \<Longrightarrow>
     verify_rows E b p n v (xs @ ys)
       = verify_rows E b (end_hash p xs) (end_seq n xs) (v + length xs) ys"
  by (induction xs arbitrary: p n v) auto

text \<open>What a run of the loop has established about the rows it counted.\<close>

lemma verify_rows_Inr:
  "verify_rows E b p n v rows = Inr (v', n', failure) \<Longrightarrow>
     \<exists>good rest. rows = good @ rest \<and> chained E b p good \<and> v' = v + length good
       \<and> n' = end_seq n good
       \<and> (failure = None \<longrightarrow> rest = [])
       \<and> (\<forall>f. failure = Some f \<longrightarrow> rest \<noteq> [] \<and> check_row E b (end_hash p good) (hd rest) = Inr (Some f))"
proof (induction rows arbitrary: p n v)
  case Nil
  then show ?case by auto
next
  case (Cons r rows)
  then obtain fo where fo: "check_row E b p r = Inr fo"
    by (cases "check_row E b p r") auto
  show ?case
  proof (cases fo)
    case None
    with Cons fo have "verify_rows E b (ar_curr_hash r) (ar_seq r) (Suc v) rows = Inr (v', n', failure)"
      by simp
    from Cons.IH [OF this] obtain good rest where *: "rows = good @ rest"
      "chained E b (ar_curr_hash r) good" "v' = Suc v + length good" "n' = end_seq (ar_seq r) good"
      "failure = None \<longrightarrow> rest = []"
      "\<forall>f. failure = Some f \<longrightarrow> rest \<noteq> []
         \<and> check_row E b (end_hash (ar_curr_hash r) good) (hd rest) = Inr (Some f)" by blast
    show ?thesis
      using * fo None by (intro exI [of _ "r # good"] exI [of _ rest]) simp
  next
    case (Some f)
    with Cons.prems fo show ?thesis by (intro exI [of _ "[]"] exI [of _ "r # rows"]) auto
  qed
qed

text \<open>
  The state of a log no write has broken: the rows chain from the genesis hash in the order of
  their sequence numbers, and a cached pointer, if any, is the last row's hash.
\<close>

definition chain_inv :: "ext \<Rightarrow> world \<Rightarrow> bool" where
  "chain_inv E w \<longleftrightarrow>
     chained E True GENESIS_HASH (w_audit w)
     \<and> sorted_wrt (\<lambda>a b. ar_seq a < ar_seq b) (w_audit w)
     \<and> (\<forall>r \<in> set (w_audit w). 0 < ar_seq r \<and> ar_seq r < w_next_seq w)
     \<and> 0 < w_next_seq w
     \<and> (\<forall>v t. w_redis w POINTER_KEY = Some (v, t) \<longrightarrow> v = RText (end_hash GENESIS_HASH (w_audit w)))"

lemma sort_key_sorted: "sorted_wrt (\<lambda>a b. ar_seq a < ar_seq b) rows \<Longrightarrow> sort_key ar_seq rows = rows"
  by (rule sort_key_id_if_sorted) (auto simp: sorted_wrt_map intro: sorted_wrt_mono_rel [rotated])

lemma chain_inv_pointer:
  assumes "chain_inv E w"
  shows "pointer_value E w = end_hash GENESIS_HASH (w_audit w)"
proof -
  from assms have "sort_key ar_seq (w_audit w) = w_audit w"
    by (intro sort_key_sorted) (simp add: chain_inv_def)
  then have "last_hash (w_audit w) = end_hash GENESIS_HASH (w_audit w)"
    by (simp add: last_hash_def end_hash_def)
  with assms show ?thesis
    by (auto simp: pointer_value_def r_live_def chain_inv_def rval_text_def split: option.splits)
qed

text \<open>
  What the chain needs of the packages around it, for the document at hand: the JSONB round trip
  keeps its canonical form, and the gateway's signatures verify.
\<close>

definition stores_faithfully :: "ext \<Rightarrow> json \<Rightarrow> bool" where
  "stores_faithfully E p \<longleftrightarrow> x_canon E (x_jsonb E p) = x_canon E p"

definition signer :: "ext \<Rightarrow> bool" where
  "signer E \<longleftrightarrow> (\<forall>n h. x_verify E (x_sign E n h) h)"

lemma written_check_row:
  assumes "written E ev i s t x k w row" and "signer E"
    and "stores_faithfully E (audit_payload ev i s t (en_version (w_engine w)) x)"
  shows "check_row E True (pointer_value E w) row = Inr None"
  using assms
  by (auto simp: written_def records_def check_row_def signer_def stores_faithfully_def
      compute_hash_def canon_def)

lemma chain_inv_write:
  assumes inv: "chain_inv E w" and E: "signer E"
      "stores_faithfully E (audit_payload ev i s t (en_version (w_engine w)) x)"
    and row: "written E ev i s t x k w row" "w_audit w' = w_audit w @ [row]"
      "w_next_seq w' = ar_seq row + 1"
      "w_redis w' = (w_redis w)(POINTER_KEY := Some (RText (ar_curr_hash row), None))"
  shows "chain_inv E w'"
proof -
  from row(1) have seq: "ar_seq row = w_next_seq w" by (simp add: written_def)
  have "check_row E True (end_hash GENESIS_HASH (w_audit w)) row = Inr None"
    using written_check_row [OF row(1) E] chain_inv_pointer [OF inv] by simp
  with inv row seq show ?thesis
    by (auto simp: chain_inv_def chained_append sorted_wrt_append)
qed

section \<open>Lemmas on the verifier's step\<close>

lemma insert_key_sort_split:
  "sort_key f xs = xs \<Longrightarrow>
     sort_key f (filter P xs) = filter P xs"
  for f :: "'a \<Rightarrow> int"
  by (metis filter_sort)

lemma rows_after_gt: "r \<in> set (rows_after n w) \<Longrightarrow> n < ar_seq r"
  by (simp add: rows_after_def)

lemma end_seq_ge: "(\<And>r. r \<in> set rows \<Longrightarrow> n < ar_seq r) \<Longrightarrow> n \<le> end_seq n rows"
  by (auto simp: end_seq_def intro: less_imp_le)

lemma rows_after_quiet: "quiet w w' \<Longrightarrow> rows_after n w' = rows_after n w"
  by (simp add: rows_after_def quiet_fields)

lemma checkpoint_of_quiet: "quiet w w' \<Longrightarrow> checkpoint_of w' = checkpoint_of w"
  by (simp add: checkpoint_of_def quiet_fields)

lemma anchor_hash_quiet: "quiet w w' \<Longrightarrow> anchor_hash n w' = anchor_hash n w"
  by (simp add: anchor_hash_def quiet_fields)

lemma load_anchor_Inr: "load_anchor n w = (Inr a, w') \<Longrightarrow> a = anchor_hash n w \<and> quiet w w'"
  by (auto simp: load_anchor_def anchor_hash_quiet split: if_splits dest!: db_read_Inr)
    (simp_all add: anchor_hash_def)

lemma load_anchor_Inl: "load_anchor n w = (Inl e, w') \<Longrightarrow> quiet w w'"
  by (auto simp: load_anchor_def split: if_splits dest!: db_read_Inl)

lemma end_pass_Inr:
  assumes "end_pass v n failure w = (Inr x, w')"
  shows "x = (v, failure) \<and> w_audit w' = w_audit w
    \<and> w_checkpoint w' = (if v = 0 then w_checkpoint w else Some n)
    \<and> w_metrics w' = w_metrics w @ (if failure = None then [] else [AuditVerifyFailure])"
  using assms unfolding end_pass_def emit_def
  by (cases failure; cases "v = 0") (auto simp: bnd_Inr_iff quiet_fields dest!: db_commit_Inr)

lemma end_pass_Inl:
  assumes "end_pass v n failure w = (Inl e, w')"
  shows "w_checkpoint w' = w_checkpoint w \<and> w_audit w' = w_audit w"
  using assms unfolding end_pass_def emit_def
  by (cases failure; cases "v = 0") (auto simp: bnd_Inl_iff quiet_fields dest!: db_commit_Inl)

lemma verify_increment_Inr:
  assumes "verify_increment E w = (Inr (v, failure), w')"
  shows "(anchor_hash (checkpoint_of w) w = None \<and> v = 0 \<and> failure \<noteq> None \<and> quiet w w') \<or>
    (\<exists>p n. anchor_hash (checkpoint_of w) w = Some p
      \<and> verify_rows E True p (checkpoint_of w) 0 (rows_after (checkpoint_of w) w) = Inr (v, n, failure)
      \<and> w_audit w' = w_audit w
      \<and> w_checkpoint w' = (if v = 0 then w_checkpoint w else Some n)
      \<and> w_metrics w' = w_metrics w @ (if failure = None then [] else [AuditVerifyFailure]))"
proof -
  from assms obtain c w1 a w2 where c: "db_read [] checkpoint_of w = (Inr c, w1)"
    and a: "load_anchor c w1 = (Inr a, w2)"
    and rest: "(case a of None \<Rightarrow> ret (0, Some (''checkpoint row seq='' @ dec_int c
                               @ '' is missing from audit_log''))
       | Some prev_hash \<Rightarrow>
           bnd (db_read [] (rows_after c)) (\<lambda>rows.
           bnd (lift_res (verify_rows E True prev_hash c 0 rows)) (\<lambda>result.
           case result of (verified, last_good, failure) \<Rightarrow> end_pass verified last_good failure)))
         w2 = (Inr (v, failure), w')"
    unfolding verify_increment_def bnd_Inr_iff by blast
  from c have q1: "quiet w w1" and c': "c = checkpoint_of w"
    using checkpoint_of_quiet by (auto dest!: db_read_Inr)
  with a have q2: "quiet w w2" and a': "a = anchor_hash (checkpoint_of w) w"
    by (auto simp: anchor_hash_quiet dest!: load_anchor_Inr intro: quiet_trans)
  show ?thesis
  proof (cases a)
    case None
    with rest a' q2 show ?thesis by auto
  next
    case (Some p)
    with rest obtain rows w3 r where rows: "db_read [] (rows_after c) w2 = (Inr rows, w3)"
      and r: "verify_rows E True p c 0 rows = Inr r"
      and fin: "(case r of (x, y, z) \<Rightarrow> end_pass x y z) w3 = (Inr (v, failure), w')"
      by (auto simp: bnd_Inr_iff)
    from rows q2 have q3: "quiet w w3" and "rows = rows_after c w"
      by (auto simp: rows_after_quiet dest!: db_read_Inr intro: quiet_trans)
    moreover obtain x y z where "r = (x, y, z)" by (cases r) auto
    moreover from a' Some have "anchor_hash (checkpoint_of w) w = Some p" by simp
    ultimately show ?thesis
      using fin r c' end_pass_Inr [of x y z w3 "(v, failure)" w']
      by (intro disjI2 exI [of _ p] exI [of _ y]) (auto simp: quiet_fields)
  qed
qed

lemma verify_increment_Inl:
  assumes "verify_increment E w = (Inl e, w')"
  shows "w_checkpoint w' = w_checkpoint w \<and> w_audit w' = w_audit w"
  using assms unfolding verify_increment_def
  by (auto simp: bnd_Inl_iff quiet_fields split: option.splits prod.splits
      dest!: db_read_Inr load_anchor_Inr load_anchor_Inl db_read_Inl end_pass_Inl)

text \<open>A pass with no fault ahead, as an equation.\<close>

lemma verify_increment_calm:
  assumes "w_faults w = []" "anchor_hash (checkpoint_of w) w = Some p"
    "verify_rows E True p (checkpoint_of w) 0 (rows_after (checkpoint_of w) w) = Inr (v, n, failure)"
  shows "fst (verify_increment E w) = Inr (v, failure)"
    and "w_checkpoint (snd (verify_increment E w)) = (if v = 0 then w_checkpoint w else Some n)"
proof -
  have "load_anchor (checkpoint_of w) w = (Inr (Some p), w)"
    using assms(1,2) by (auto simp: load_anchor_def db_read_def anchor_hash_def split: if_splits)
  with assms(1,3) have "verify_increment E w = end_pass v n failure w"
    by (simp add: verify_increment_def bnd_def db_read_def)
  with assms(1) show "fst (verify_increment E w) = Inr (v, failure)"
    and "w_checkpoint (snd (verify_increment E w)) = (if v = 0 then w_checkpoint w else Some n)"
    by (simp_all add: end_pass_def bnd_def emit_def db_commit_def)
qed

lemma verify_full_calm:
  assumes "w_faults w = []"
    "verify_rows E b GENESIS_HASH 0 0 (sort_key ar_seq (w_audit w)) = Inr (v, n, failure)"
  shows "fst (verify_full E b w) = Inr (case failure of Some f \<Rightarrow> (1, f)
    | None \<Rightarrow> (0, ''chain OK ('' @ dec_nat v @ '' rows)''))"
  using assms
  by (auto simp: verify_full_def bnd_def db_read_def ret_def lift_res_def split: option.splits)

lemma verify_rows_shift:
  "verify_rows E b p n v rows = Inr (v', n', failure) \<Longrightarrow>
     verify_rows E b p n (k + v) rows = Inr (k + v', n', failure)"
proof (induction rows arbitrary: p n v)
  case (Cons r rows)
  then obtain fo where "check_row E b p r = Inr fo" by (cases "check_row E b p r") auto
  with Cons show ?case by (cases fo) (auto simp flip: add_Suc_right)
qed simp

lemma check_row_None:
  "check_row E b p r = Inr None \<Longrightarrow>
     ar_prev_hash r = p \<and> (\<exists>c. x_canon E (ar_payload r) = Some c \<and> ar_curr_hash r = x_sha256 E (p @ c))
     \<and> (b \<longrightarrow> x_verify E (ar_signature r) (ar_curr_hash r))"
  by (auto simp: check_row_def compute_hash_def canon_def res_bnd_def split: if_splits sum.splits option.splits)

text \<open>The rows of a sorted log after the last row of a prefix, and that row found by its number.\<close>

lemma filter_after:
  assumes "sorted_wrt (\<lambda>a b. ar_seq a < ar_seq b) (old @ fresh)"
    and "\<forall>r \<in> set (old @ fresh). 0 < ar_seq r"
  shows "filter (\<lambda>r. end_seq 0 old < ar_seq r) (old @ fresh) = fresh"
proof -
  have "\<not> end_seq 0 old < ar_seq r" if "r \<in> set old" for r
    using that assms(1) by (cases old rule: rev_cases) (auto simp: sorted_wrt_append)
  moreover have "end_seq 0 old < ar_seq r" if "r \<in> set fresh" for r
    using that assms by (cases old rule: rev_cases) (auto simp: sorted_wrt_append)
  ultimately show ?thesis by (simp add: filter_empty_conv)
qed

lemma find_end:
  assumes "sorted_wrt (\<lambda>a b. ar_seq a < ar_seq b) (old @ fresh)"
    and "\<forall>r \<in> set (old @ fresh). 0 < ar_seq r"
  shows "(if end_seq 0 old = 0 then Some GENESIS_HASH
      else map_option ar_curr_hash (List.find (\<lambda>r. ar_seq r = end_seq 0 old) (old @ fresh)))
    = Some (end_hash GENESIS_HASH old)"
proof (cases old rule: rev_cases)
  case (snoc xs r)
  with assms have ne: "ar_seq q \<noteq> ar_seq r" if "q \<in> set xs" for q
    using that by (auto simp: sorted_wrt_append)
  have "List.find (\<lambda>q. ar_seq q = ar_seq r) (xs @ r # fresh) = Some r"
    using ne by (induction xs) auto
  with snoc assms(2) show ?thesis by auto
qed simp

lemma audit_write_chain:
  assumes "chain_inv E w" and "w_races w = []" and "signer E"
    and "stores_faithfully E (audit_payload ev i s t (en_version (w_engine w)) x)"
    and "audit_write E ev i s t x k w = (r, w')"
    and "(\<exists>seq. r = Inr seq) \<or> w_audit w' = w_audit w"
  shows "chain_inv E w'"
proof -
  from assms(2,5) have run: "write_attempt E ev i s t x k w = (r, w')" by (rule audit_write_calm)
  show ?thesis
  proof (cases r)
    case (Inr seq)
    with run write_attempt_Inr obtain row where "written E ev i s t x k w row"
      "w_audit w' = w_audit w @ [row]" "w_next_seq w' = ar_seq row + 1"
      "w_redis w' = (w_redis w)(POINTER_KEY := Some (RText (ar_curr_hash row), None))" by metis
    with assms(1,3,4) show ?thesis by (rule chain_inv_write)
  next
    case (Inl e)
    with run assms(6) write_attempt_Inl [of E ev i s t x k w e w'] assms(1) show ?thesis
      by (auto simp: chain_inv_def)
  qed
qed

text \<open>A log of two rows in the demonstration world.\<close>

definition demo_write :: "event_type \<Rightarrow> int step" where
  "demo_write ev = audit_write demo ev ''ops'' (Some ''srv'') (Some ''read'') [] None"

definition demo_log :: world where
  "demo_log = snd (demo_write DENY_RISK (snd (demo_write ALLOW demo_world)))"

lemma demo_write_chain:
  assumes "chain_inv demo w" and "w_races w = []" and "fst (demo_write ev w) = Inr n"
  shows "chain_inv demo (snd (demo_write ev w))"
proof (rule audit_write_chain [OF assms(1,2)])
  show "signer demo" by (simp add: signer_def demo_def)
  show "stores_faithfully demo (audit_payload ev ''ops'' (Some ''srv'') (Some ''read'')
      (en_version (w_engine w)) [])"
    by (simp add: stores_faithfully_def demo_def)
  show "audit_write demo ev ''ops'' (Some ''srv'') (Some ''read'') [] None w
      = (fst (demo_write ev w), snd (demo_write ev w))"
    by (simp add: demo_write_def)
  show "(\<exists>seq. fst (demo_write ev w) = Inr seq) \<or> w_audit (snd (demo_write ev w)) = w_audit w"
    using assms(3) by blast
qed

lemma demo_world_chain: "chain_inv demo demo_world"
  by (simp add: chain_inv_def demo_world_def)

lemma demo_log_chain: "chain_inv demo demo_log"
  unfolding demo_log_def
proof (rule demo_write_chain [OF demo_write_chain [OF demo_world_chain]])
  show "fst (demo_write ALLOW demo_world) = Inr 1" by code_simp
  show "w_races demo_world = []" by code_simp
  show "w_races (snd (demo_write ALLOW demo_world)) = []" by code_simp
  show "fst (demo_write DENY_RISK (snd (demo_write ALLOW demo_world))) = Inr 2" by code_simp
qed

section \<open>Properties\<close>

text \<open>
  A write to the audit log that returns has appended, as the newest row, the record of
  exactly its arguments under the returned sequence number; one that raises never raises
  WatchError (the retry loop ends); whatever happens, no row is changed or removed.
\<close>
theorem audit_write_contract:
  "case audit_write E ev i s t x k w of
     (Inr seq, w') \<Rightarrow> \<exists>rows row. w_audit w' = w_audit w @ rows @ [row] \<and> ar_seq row = seq
        \<and> records E ev i s t x k (en_version (w_engine w)) row
   | (Inl e, w') \<Rightarrow> e \<noteq> WatchError \<and> log_grows w w'"
  using audit_write_Inr audit_write_total staysD [OF log_grows.stays_audit_write]
  by (fastforce split: prod.split sum.split)





text \<open>
  Whatever the log holds and however the stores fail, a verification pass never lowers the
  checkpoint and never changes the log.
\<close>
theorem checkpoint_never_lowered:
  "checkpoint_of w \<le> checkpoint_of (snd (verify_increment E w))
   \<and> w_audit (snd (verify_increment E w)) = w_audit w"
proof (cases "verify_increment E w")
  case (Pair r w')
  show ?thesis
  proof (cases r)
    case (Inl e)
    with Pair show ?thesis by (auto simp: checkpoint_of_def dest!: verify_increment_Inl)
  next
    case (Inr x)
    obtain v failure where x: "x = (v, failure)" by (cases x)
    from verify_increment_Inr [OF Pair [unfolded Inr x]]
    consider "quiet w w'" | p n where
      "verify_rows E True p (checkpoint_of w) 0 (rows_after (checkpoint_of w) w) = Inr (v, n, failure)"
      "w_audit w' = w_audit w" "w_checkpoint w' = (if v = 0 then w_checkpoint w else Some n)"
      by blast
    then show ?thesis
    proof cases
      case 1
      with Pair show ?thesis by (simp add: checkpoint_of_quiet quiet_fields)
    next
      case 2
      from verify_rows_Inr [OF 2(1)] obtain good rest where
        "rows_after (checkpoint_of w) w = good @ rest" "n = end_seq (checkpoint_of w) good"
        by blast
      then have "checkpoint_of w \<le> n"
        using rows_after_gt [of _ "checkpoint_of w" w]
        by (auto intro!: end_seq_ge)
      with 2 Pair show ?thesis by (auto simp: checkpoint_of_def)
    qed
  qed
qed

text \<open>
  C20: What a pass reports is so: the rows it counts are the first rows after the checkpoint and
  each continues the chain, matches its hash and bears a valid signature; with no failure these
  are all of them; a failure names a defect of the very next row (or a missing checkpoint row);
  the new checkpoint is the last of the counted rows.
\<close>
theorem verifier_sound:
  assumes "verify_increment E w = (Inr (v, failure), w')" and "anchor_hash (checkpoint_of w) w = Some p"
  shows "\<exists>good rest. rows_after (checkpoint_of w) w = good @ rest \<and> length good = v
    \<and> chained E True p good
    \<and> checkpoint_of w' = end_seq (checkpoint_of w) good
    \<and> (failure = None \<longleftrightarrow> rest = [])
    \<and> (failure \<noteq> None \<longrightarrow> check_row E True (end_hash p good) (hd rest) = Inr failure)"
proof -
  from verify_increment_Inr [OF assms(1)] assms(2) obtain n where
    n: "verify_rows E True p (checkpoint_of w) 0 (rows_after (checkpoint_of w) w) = Inr (v, n, failure)"
      "w_checkpoint w' = (if v = 0 then w_checkpoint w else Some n)"
    by auto
  from verify_rows_Inr [OF n(1)] obtain good rest where *:
    "rows_after (checkpoint_of w) w = good @ rest" "chained E True p good" "v = length good"
    "n = end_seq (checkpoint_of w) good" "failure = None \<longrightarrow> rest = []"
    "\<forall>f. failure = Some f \<longrightarrow> rest \<noteq> [] \<and> check_row E True (end_hash p good) (hd rest) = Inr (Some f)"
    by auto
  moreover from n(2) *(3,4) have "checkpoint_of w' = end_seq (checkpoint_of w) good"
    by (auto simp: checkpoint_of_def)
  ultimately show ?thesis by (intro exI [of _ good] exI [of _ rest]) auto
qed

theorem verifier_sound_witness:
  "\<exists>good rest. rows_after 0 demo_log = good @ rest \<and> length good = 2 \<and> chained demo True GENESIS_HASH good"
proof -
  have "fst (verify_increment demo demo_log) = Inr (2, None)" by code_simp
  then have run: "verify_increment demo demo_log = (Inr (2, None), snd (verify_increment demo demo_log))"
    by (simp add: prod_eq_iff)
  have c: "checkpoint_of demo_log = 0" by code_simp
  have "anchor_hash (checkpoint_of demo_log) demo_log = Some GENESIS_HASH"
    by (simp add: c anchor_hash_def)
  from verifier_sound [OF run this] c show ?thesis by metis
qed

text \<open>
  C21: Resuming from the checkpoint gives the verdict of the full scan: when the rows up to the
  checkpoint verify, a pass reports a failure exactly when the operator's full scan does, and
  the same one.
\<close>
theorem incremental_equals_full:
  assumes "w_faults w = []"
    and "sorted_wrt (\<lambda>a b. ar_seq a < ar_seq b) (w_audit w)" and "\<forall>r \<in> set (w_audit w). 0 < ar_seq r"
    and "w_audit w = old @ fresh" and "checkpoint_of w = end_seq 0 old"
    and "chained E True GENESIS_HASH old"
    and "fst (verify_increment E w) = Inr (v, failure)"
  shows "fst (verify_full E True w) = Inr (case failure of Some f \<Rightarrow> (1, f)
    | None \<Rightarrow> (0, ''chain OK ('' @ dec_nat (length old + v) @ '' rows)''))"
proof -
  have rows: "rows_after (checkpoint_of w) w = fresh"
    using filter_after [of old fresh] assms(2-5)
    by (simp add: rows_after_def sort_key_sorted sorted_wrt_append)
  have anchor: "anchor_hash (checkpoint_of w) w = Some (end_hash GENESIS_HASH old)"
    using find_end [of old fresh] assms(2,3) by (simp only: anchor_hash_def assms(4,5))
  from assms(7) obtain n where
    fresh: "verify_rows E True (end_hash GENESIS_HASH old) (end_seq 0 old) 0 fresh = Inr (v, n, failure)"
    using verify_increment_Inr [of E w v failure "snd (verify_increment E w)"] rows anchor assms(5)
    by (auto simp: prod_eq_iff)
  then have "verify_rows E True (end_hash GENESIS_HASH old) (end_seq 0 old) (length old) fresh
      = Inr (length old + v, n, failure)"
    using verify_rows_shift [of E True _ _ 0 fresh v n failure "length old"] by simp
  then have "verify_rows E True GENESIS_HASH 0 0 (sort_key ar_seq (w_audit w))
      = Inr (length old + v, n, failure)"
    using assms(2,4,6) by (simp add: sort_key_sorted verify_rows_append)
  with assms(1) show ?thesis by (rule verify_full_calm)
qed

theorem incremental_equals_full_witness:
  "fst (verify_full demo True demo_log) = Inr (0, ''chain OK (2 rows)'')"
proof -
  have "fst (verify_increment demo demo_log) = Inr (2, None)" by code_simp
  moreover have "w_faults demo_log = []" "checkpoint_of demo_log = end_seq 0 []" by code_simp+
  moreover have "dec_nat (Suc (Suc 0)) = ''2''" by code_simp
  ultimately show ?thesis
    using incremental_equals_full [of demo_log "[]" "w_audit demo_log" demo 2 None] demo_log_chain
    by (simp add: chain_inv_def)
qed

text \<open>
  C14: The chain is tamper-evident: two logs of the same length that both verify and end in the
  same hash hold the same sequence of payloads (up to canonical form), provided the hash has no
  collision among the inputs it was applied to and the stored hashes have their 64 characters.
\<close>
theorem chain_tamper_evident:
  assumes "chained E b GENESIS_HASH xs" and "chained E b GENESIS_HASH ys"
    and "length xs = length ys" and "end_hash GENESIS_HASH xs = end_hash GENESIS_HASH ys"
    and "\<forall>r \<in> set xs \<union> set ys. length (ar_prev_hash r) = 64"
    and "inj_on (x_sha256 E) {ar_prev_hash r @ c | r c. r \<in> set xs \<union> set ys \<and> x_canon E (ar_payload r) = Some c}"
  shows "map (\<lambda>r. x_canon E (ar_payload r)) xs = map (\<lambda>r. x_canon E (ar_payload r)) ys"
  using assms
proof (induction xs arbitrary: ys rule: rev_induct)
  case (snoc x xs)
  then obtain y zs where ys: "ys = zs @ [y]" by (cases ys rule: rev_cases) auto
  from snoc.prems(1) obtain cx where x: "ar_prev_hash x = end_hash GENESIS_HASH xs"
    "x_canon E (ar_payload x) = Some cx" "ar_curr_hash x = x_sha256 E (ar_prev_hash x @ cx)"
    by (auto simp: chained_append dest: check_row_None)
  from snoc.prems(2) ys obtain cy where y: "ar_prev_hash y = end_hash GENESIS_HASH zs"
    "x_canon E (ar_payload y) = Some cy" "ar_curr_hash y = x_sha256 E (ar_prev_hash y @ cy)"
    by (auto simp: chained_append dest: check_row_None)
  let ?A = "{ar_prev_hash r @ c | r c. r \<in> set (xs @ [x]) \<union> set ys \<and> x_canon E (ar_payload r) = Some c}"
  have inA: "ar_prev_hash x @ cx \<in> ?A" "ar_prev_hash y @ cy \<in> ?A"
    using x(2) y(2) ys by auto
  have "x_sha256 E (ar_prev_hash x @ cx) = x_sha256 E (ar_prev_hash y @ cy)"
    using snoc.prems(4) ys x(3) y(3) by simp
  from inj_onD [OF snoc.prems(6) this inA]
  have "ar_prev_hash x @ cx = ar_prev_hash y @ cy" .
  moreover have "length (ar_prev_hash x) = length (ar_prev_hash y)"
    using snoc.prems(5) ys by simp
  ultimately have eq: "ar_prev_hash x = ar_prev_hash y" "cx = cy" by simp_all
  have "map (\<lambda>r. x_canon E (ar_payload r)) xs = map (\<lambda>r. x_canon E (ar_payload r)) zs"
  proof (rule snoc.IH)
    show "inj_on (x_sha256 E) {ar_prev_hash r @ c | r c. r \<in> set xs \<union> set zs \<and> x_canon E (ar_payload r) = Some c}"
      by (rule inj_on_subset [OF snoc.prems(6)]) (auto simp: ys)
  next
    show "chained E b GENESIS_HASH xs" "chained E b GENESIS_HASH zs" "length xs = length zs"
      using snoc.prems(1-3) ys by (simp_all add: chained_append)
    show "end_hash GENESIS_HASH xs = end_hash GENESIS_HASH zs" using eq x(1) y(1) by simp
    show "\<forall>r \<in> set xs \<union> set zs. length (ar_prev_hash r) = 64" using snoc.prems(5) ys by simp
  qed
  then show ?case using ys x(2) y(2) eq by simp
qed simp

definition demo_short :: ext where
  "demo_short = demo\<lparr>x_sha256 := (\<lambda>s. take 64 (rev s))\<rparr>"

definition demo_short_log :: "audit_row list" where
  "demo_short_log = w_audit (snd (audit_write demo_short DENY_RISK ''b'' None None [] None
     (snd (audit_write demo_short ALLOW ''a'' None None [] None demo_world))))"

theorem chain_tamper_evident_witness:
  "map (\<lambda>r. x_canon demo_short (ar_payload r)) demo_short_log
     = map (\<lambda>r. x_canon demo_short (ar_payload r)) demo_short_log \<and> length demo_short_log = 2"
proof -
  have "chained demo_short True GENESIS_HASH demo_short_log" by code_simp
  moreover have "list_all (\<lambda>r. length (ar_prev_hash r) = 64) demo_short_log" by code_simp
  moreover have "{ar_prev_hash r @ c | r c. r \<in> set demo_short_log \<union> set demo_short_log
        \<and> x_canon demo_short (ar_payload r) = Some c}
      \<subseteq> set (map (\<lambda>r. ar_prev_hash r @ the (x_canon demo_short (ar_payload r))) demo_short_log)"
    by force
  moreover have "distinct (map (x_sha256 demo_short)
      (map (\<lambda>r. ar_prev_hash r @ the (x_canon demo_short (ar_payload r))) demo_short_log))"
    by code_simp
  then have "inj_on (x_sha256 demo_short)
      (set (map (\<lambda>r. ar_prev_hash r @ the (x_canon demo_short (ar_payload r))) demo_short_log))"
    by (simp only: distinct_map)
  moreover have "length demo_short_log = 2" by code_simp
  ultimately show ?thesis
    using chain_tamper_evident [of demo_short True demo_short_log demo_short_log]
    by (metis (no_types, lifting) Un_absorb inj_on_subset list_all_iff)
qed

text \<open>
  A write that inserts its row and then loses the connection before the pointer moves breaks
  the chain for good: the next write chains to the same predecessor, so the verifier reports a
  broken link in a log nobody tampered with.
\<close>
theorem failed_pointer_update_forks_chain:
  "let w1 = snd (demo_write ALLOW demo_world);
       w2 = snd (demo_write CHALLENGE (w1\<lparr>w_faults := [False, False, False, True]\<rparr>));
       w3 = snd (demo_write DENY_RISK w2)
   in length (w_audit w2) = 2 \<and> length (w_audit w3) = 3
      \<and> fst (verify_increment demo w3) = Inr (2, Some (broken_link 3))"
  by code_simp

end
