(* ===== verification/Replay.thy ===== *)
theory Replay
  imports AuditLog
begin

text \<open>
  The Replay Guard (\<open>replay_guard.py\<close>): format checks on the nonce and the timestamp, the
  acceptance window, and the nonce dedup in Redis. The contract it shares with the one-time
  codes of the step-up store is the locale \<open>claim_store\<close>: a key claimed once stays claimed.
\<close>

section \<open>The interface: claiming a key once\<close>

locale claim_store =
  fixes claim :: "'k \<Rightarrow> ('w, bool) act" and taken :: "'w \<Rightarrow> 'k \<Rightarrow> bool"
  assumes claim_True: "claim k w = (Inr True, w') \<Longrightarrow> \<not> taken w k \<and> taken w' k"
    and claim_keeps: "taken w j \<Longrightarrow> claim k w = (r, w') \<Longrightarrow> taken w' j"
begin

text \<open>A run of claims, each result in turn; a claim that raises is a refusal.\<close>

fun claims :: "'k list \<Rightarrow> 'w \<Rightarrow> ('k \<times> bool) list" where
  "claims [] w = []"
| "claims (k # ks) w = (case claim k w of (r, w') \<Rightarrow> (k, r = Inr True) # claims ks w')"

lemma claims_taken: "taken w k \<Longrightarrow> (k, True) \<notin> set (claims ks w)"
proof (induction ks arbitrary: w)
  case (Cons j ks)
  obtain r w' where run: "claim j w = (r, w')" by (cases "claim j w")
  with Cons.prems have "taken w' k" using claim_keeps by blast
  moreover have "\<not> (j = k \<and> r = Inr True)" using run claim_True Cons.prems by blast
  ultimately show ?case using run Cons.IH by auto
qed simp

text \<open>However many claims of a key are made, at most one is granted.\<close>

lemma claim_once: "length (filter (\<lambda>x. x = (k, True)) (claims ks w)) \<le> 1"
proof (induction ks arbitrary: w)
  case (Cons j ks)
  obtain r w' where run: "claim j w = (r, w')" by (cases "claim j w")
  show ?case
  proof (cases "j = k \<and> r = Inr True")
    case True
    with run have "taken w' k" using claim_True by blast
    then have "filter (\<lambda>x. x = (k, True)) (claims ks w') = []"
      using claims_taken by (auto simp: filter_empty_conv)
    with run True show ?thesis by simp
  next
    case False
    with run Cons.IH show ?thesis by (cases "j = k") auto
  qed
qed simp

end

text \<open>Redis' \<open>SET NX EX\<close> is such a store under any way of forming the keys.\<close>

definition r_taken :: "('k \<Rightarrow> string) \<Rightarrow> world \<Rightarrow> 'k \<Rightarrow> bool" where
  "r_taken key w k = (r_live w (key k) \<noteq> None)"

lemma r_set_nx_keeps:
  assumes "r_live w j \<noteq> None" and "r_set_nx k v n w = (r, w')"
  shows "r_live w' j \<noteq> None"
proof (cases r)
  case (Inr b)
  with assms show ?thesis
    by (cases b) (auto simp: r_live_put quiet_live dest!: r_set_nx_True r_set_nx_False)
next
  case (Inl e)
  with assms have "quiet w w'"
    unfolding r_set_nx_def by (auto dest!: faulty_Inl split: if_splits)
  with assms show ?thesis by (simp add: quiet_live)
qed

interpretation redis_claims: claim_store "\<lambda>k. r_set_nx (key k) v n" "r_taken key" for key v n
proof
  fix k w w' assume "r_set_nx (key k) v n w = (Inr True, w')"
  then show "\<not> r_taken key w k \<and> r_taken key w' k"
    by (auto simp: r_taken_def r_live_put quiet_fields dest!: r_set_nx_True)
next
  fix w j k r w' assume "r_taken key w j" "r_set_nx (key k) v n w = (r, w')"
  then show "r_taken key w' j" unfolding r_taken_def by (rule r_set_nx_keeps)
qed

section \<open>The guard\<close>

definition NONCE_META_KEY :: string where "NONCE_META_KEY = ''portunusmcp/nonce''"
definition TIMESTAMP_META_KEY :: string where "TIMESTAMP_META_KEY = ''portunusmcp/timestamp''"

definition nonce_key :: "string \<Rightarrow> string" where
  "nonce_key nonce = ''replay:'' @ nonce"

text \<open>
  \<open>abs(time.time() - timestamp) > window\<close>. An integer too large for a float raises; the
  difference of two floats is taken exactly.
\<close>

definition outside_window :: "int \<Rightarrow> rat \<Rightarrow> pyfloat \<Rightarrow> bool" where
  "outside_window window t ts = (case ts of
     Fin r \<Rightarrow> of_int window < \<bar>t - r\<bar> | PosInf \<Rightarrow> True | NegInf \<Rightarrow> True | NaN \<Rightarrow> False)"

definition float_overflows :: "json \<Rightarrow> bool" where
  "float_overflows v = (case v of JInt i \<Rightarrow> 2 ^ 1024 - 2 ^ 970 \<le> \<bar>i\<bar> | _ \<Rightarrow> False)"

definition replay_check :: "ext \<Rightarrow> json \<Rightarrow> json \<Rightarrow> string option step" where
  "replay_check E nonce timestamp =
     (case nonce of
        JStr s \<Rightarrow>
          if \<not> uuid_ok s then ret (Some ''missing or invalid nonce'')
          else (case as_number timestamp of
              None \<Rightarrow> ret (Some ''missing or invalid timestamp'')
            | Some ts \<Rightarrow>
                let window = cf_replay_window_seconds (x_cfg E) in
                if float_overflows timestamp then raise OverflowError
                else bnd now (\<lambda>t.
                  if outside_window window t ts
                  then ret (Some (''timestamp outside the '' @ PLUS_MINUS @ dec_int window @ ''s window''))
                  else bnd (r_set_nx (nonce_key s) (RNum 1) (2 * window)) (\<lambda>fresh.
                    if \<not> fresh then ret (Some ''nonce already seen within the timestamp window'')
                    else ret None)))
      | _ \<Rightarrow> ret (Some ''missing or invalid nonce''))"

text \<open>A nonce is remembered until an instant.\<close>

definition remembered :: "string \<Rightarrow> rat \<Rightarrow> world \<Rightarrow> bool" where
  "remembered s t w = (\<exists>v. w_redis w (nonce_key s) = Some (v, Some t))"

lemma replay_check_fresh:
  assumes "replay_check E nonce timestamp w = (Inr None, w')"
  shows "\<exists>s ts. nonce = JStr s \<and> uuid_ok s \<and> as_number timestamp = Some ts
    \<and> \<not> outside_window (cf_replay_window_seconds (x_cfg E)) (w_clock w) ts
    \<and> r_live w (nonce_key s) = None
    \<and> remembered s (w_clock w + of_int (2 * cf_replay_window_seconds (x_cfg E))) w'"
  using assms unfolding replay_check_def now_def Let_def
  by (auto simp: bnd_Inr_iff remembered_def split: json.splits if_splits option.splits
      dest!: r_set_nx_True)

lemma replay_check_stored:
  assumes "replay_check E (JStr s) timestamp w = (Inr None, w')"
  shows "r_live w' (nonce_key s) \<noteq> None"
  using assms unfolding replay_check_def now_def Let_def
  by (auto simp: bnd_Inr_iff r_live_put quiet_fields split: if_splits option.splits
      dest!: r_set_nx_True)

definition alive :: "string \<Rightarrow> world \<Rightarrow> bool" where
  "alive j w = (r_live w j \<noteq> None)"

lemma stays_alive_nx: "stays (keeps (alive j)) (r_set_nx k v n)"
proof (rule staysI)
  fix w r w' assume run: "r_set_nx k v n w = (r, w')"
  show "keeps (alive j) w w'"
    unfolding keeps_def alive_def using r_set_nx_keeps [OF _ run] by blast
qed

lemma replay_check_keeps:
  assumes "r_live w j \<noteq> None" and "replay_check E nonce timestamp w = (r, w')"
  shows "r_live w' j \<noteq> None"
proof -
  have "stays (keeps (alive j)) (replay_check E nonce timestamp)"
    unfolding replay_check_def now_def Let_def
    by (cases nonce) (auto intro!: keeps.stays_all stays_alive_nx)
  from staysD [OF this assms(2)] assms(1) show ?thesis by (simp add: keeps_def alive_def)
qed

text \<open>The guard itself, for a fixed timestamp, is a claim store over nonces.\<close>

definition accepts :: "ext \<Rightarrow> json \<Rightarrow> string \<Rightarrow> bool step" where
  "accepts E timestamp nonce = bnd (replay_check E (JStr nonce) timestamp) (\<lambda>r. ret (r = None))"

interpretation guard: claim_store "accepts E timestamp" "r_taken nonce_key" for E timestamp
proof
  fix k w w' assume "accepts E timestamp k w = (Inr True, w')"
  then have "replay_check E (JStr k) timestamp w = (Inr None, w')"
    by (auto simp: accepts_def bnd_Inr_iff)
  then have "r_live w (nonce_key k) = None" and "r_live w' (nonce_key k) \<noteq> None"
    by (auto dest: replay_check_fresh replay_check_stored)
  then show "\<not> r_taken nonce_key w k \<and> r_taken nonce_key w' k" by (simp add: r_taken_def)
next
  fix w j k r w' assume *: "r_taken nonce_key w j" "accepts E timestamp k w = (r, w')"
  then obtain r1 where "replay_check E (JStr k) timestamp w = (r1, w')"
    by (auto simp: accepts_def bnd_def ret_def split: prod.splits sum.splits)
  with *(1) show "r_taken nonce_key w' j" unfolding r_taken_def by (rule replay_check_keeps)
qed

text \<open>A run of requests that carry one timestamp, each with whether the guard let it pass.\<close>

fun guard_run :: "ext \<Rightarrow> json \<Rightarrow> string list \<Rightarrow> world \<Rightarrow> (string \<times> bool) list" where
  "guard_run E timestamp [] w = []"
| "guard_run E timestamp (nonce # nonces) w =
     (case replay_check E (JStr nonce) timestamp w of
        (r, w') \<Rightarrow> (nonce, r = Inr None) # guard_run E timestamp nonces w')"

lemma guard_run_claims: "guard_run E timestamp nonces w = guard.claims E timestamp nonces w"
proof (induction nonces arbitrary: w)
  case (Cons nonce nonces)
  obtain r w' where "replay_check E (JStr nonce) timestamp w = (r, w')" by fastforce
  then have "\<exists>r1. accepts E timestamp nonce w = (r1, w') \<and> (r = Inr None \<longleftrightarrow> r1 = Inr True)"
    by (cases r) (simp_all add: accepts_def bnd_def)
  with \<open>replay_check E (JStr nonce) timestamp w = (r, w')\<close> show ?case using Cons.IH by auto
qed simp

section \<open>Properties\<close>


definition demo_nonce :: json where
  "demo_nonce = JStr ''12345678123456781234567812345678''"

definition demo_replayed :: world where
  "demo_replayed = snd (replay_check demo demo_nonce (JInt 388830) demo_world)"


text \<open>
  However the requests with one timestamp are ordered and whichever Redis operations fail,
  the guard accepts a nonce at most once while no time passes.
\<close>
theorem nonce_accepted_once:
  "length (filter (\<lambda>x. x = (nonce, True)) (guard_run E timestamp nonces w)) \<le> 1"
  unfolding guard_run_claims by (rule guard.claim_once)

text \<open>
  A NaN timestamp passes the window test at every time: the comparison with NaN is false.
\<close>
theorem nan_timestamp_accepted:
  assumes "uuid_ok s" and "0 < cf_replay_window_seconds (x_cfg E)" and "w_faults w = []"
    and "r_live w (nonce_key s) = None"
  shows "fst (replay_check E (JStr s) (JFloat NaN) w) = Inr None"
  using assms
  by (simp add: replay_check_def float_overflows_def now_def outside_window_def r_set_nx_def bnd_def)

theorem nan_timestamp_accepted_witness:
  "fst (replay_check demo demo_nonce (JFloat NaN) demo_world) = Inr None"
  unfolding demo_nonce_def
  by (rule nan_timestamp_accepted) (code_simp, code_simp, code_simp, code_simp)

end
