(* ===== verification/StepUp.thy ===== *)
theory StepUp
  imports Replay
begin

text \<open>
  Step-up authentication (\<open>step_up.py\<close>): facts on the one-time codes of theory Totp and the
  challenge store in Redis. A challenge is consumed by GETDEL before anything else is checked;
  an accepted code is remembered per identity so that it cannot answer a second challenge.
\<close>

section \<open>The challenge store\<close>

definition CHALLENGE_ID_META_KEY :: string where
  "CHALLENGE_ID_META_KEY = ''portunusmcp/challenge_id''"

definition CHALLENGE_PROOF_META_KEY :: string where
  "CHALLENGE_PROOF_META_KEY = ''portunusmcp/challenge_proof''"

definition challenge_key :: "string \<Rightarrow> string" where
  "challenge_key challenge_id = ''challenge:'' @ challenge_id"

definition code_dedup_key :: "string \<Rightarrow> string \<Rightarrow> string" where
  "code_dedup_key identity_id code = ''challenge:code:'' @ identity_id @ '':'' @ code"

definition challenge_record :: "string \<Rightarrow> string \<Rightarrow> string \<Rightarrow> string \<Rightarrow> int \<Rightarrow> json" where
  "challenge_record identity_id server_id tool_name args_hash audit_id = JObj
     [(''identity_id'', JStr identity_id), (''server_id'', JStr server_id),
      (''tool_name'', JStr tool_name), (''arguments_hash'', JStr args_hash),
      (''audit_id'', JInt audit_id)]"

definition create_challenge ::
  "ext \<Rightarrow> string \<Rightarrow> string \<Rightarrow> string \<Rightarrow> string \<Rightarrow> int \<Rightarrow> string step"
where
  "create_challenge E identity_id server_id tool_name args_hash audit_id =
     bnd (fresh_uuid E) (\<lambda>challenge_id.
     let record = challenge_record identity_id server_id tool_name args_hash audit_id in
     bnd (lift_res (canon E record)) (\<lambda>_.
     bnd (r_set_ex (challenge_key challenge_id) (RDoc record) (cf_step_up_ttl_seconds (x_cfg E))) (\<lambda>_.
     ret challenge_id)))"

text \<open>\<open>json.loads\<close> of a stored value, and \<open>v[k]\<close>.\<close>

definition rval_loads :: "rval \<Rightarrow> json res" where
  "rval_loads v = (case v of RNum n \<Rightarrow> Inr (JInt n) | RDoc j \<Rightarrow> Inr j
     | RText s \<Rightarrow> Inl (ValueError ''Expecting value''))"

fun subscript :: "json \<Rightarrow> string \<Rightarrow> json res" where
  "subscript (JObj d) k = (case map_of d k of None \<Rightarrow> Inl KeyError | Some v \<Rightarrow> Inr v)"
| "subscript _ k = Inl TypeError"

text \<open>\<open>record[k] != s\<close> for each pair in turn, stopping at the first that holds.\<close>

fun any_differs :: "json \<Rightarrow> (string \<times> string) list \<Rightarrow> bool res" where
  "any_differs record [] = Inr False"
| "any_differs record ((k, s) # kss) =
     res_bnd (subscript record k) (\<lambda>v. if \<not> py_eq v (JStr s) then Inr True else any_differs record kss)"

definition redeem_challenge ::
  "ext \<Rightarrow> string \<Rightarrow> string \<Rightarrow> string \<Rightarrow> string \<Rightarrow> string \<Rightarrow> json \<Rightarrow> string \<Rightarrow> string option step"
where
  "redeem_challenge E challenge_id identity_id server_id tool_name args_hash proof secret_b32 =
     bnd (r_getdel (challenge_key challenge_id)) (\<lambda>raw.
     case raw of
       None \<Rightarrow> ret (Some ''challenge is unknown, expired, or already used'')
     | Some v \<Rightarrow>
         bnd (lift_res (rval_loads v)) (\<lambda>record.
         bnd (lift_res (any_differs record
               [(''identity_id'', identity_id), (''server_id'', server_id), (''tool_name'', tool_name)]))
           (\<lambda>differs.
         if differs then ret (Some ''challenge was issued to a different identity, server, or tool'')
         else bnd (lift_res (any_differs record [(''arguments_hash'', args_hash)])) (\<lambda>changed.
         if changed then ret (Some ''arguments differ from the ones that were challenged'')
         else if secret_b32 = [] then ret (Some ''identity has no step-up factor configured'')
         else bnd now (\<lambda>t.
         case proof of
           JStr code \<Rightarrow>
             bnd (lift_res (verify_totp (x_hmac_sha1 E) secret_b32 code t)) (\<lambda>valid.
             if \<not> valid then ret (Some ''TOTP proof is invalid'')
             else bnd (r_set_nx (code_dedup_key identity_id code) (RNum 1) CODE_DEDUP_TTL_SECONDS)
               (\<lambda>fresh.
               if \<not> fresh then ret (Some ''TOTP code has already been used'') else ret None))
         | _ \<Rightarrow> ret (Some ''TOTP proof is invalid''))))))"

section \<open>Codes\<close>

lemma dec_pos_length: "n < 10 ^ k \<Longrightarrow> 0 < k \<Longrightarrow> length (dec_pos n) \<le> k"
proof (induction k arbitrary: n)
  case (Suc k)
  show ?case
  proof (cases "n < 10")
    case True
    then show ?thesis by (simp add: dec_pos.simps [of n])
  next
    case False
    with Suc.prems have "n div 10 < 10 ^ k" by (simp add: div_less_iff_less_mult mult.commute)
    moreover from this False have "0 < k" by (cases k) auto
    ultimately have "length (dec_pos (n div 10)) \<le> k" by (rule Suc.IH)
    with False show ?thesis by (simp add: dec_pos.simps [of n])
  qed
qed simp

definition is_digit :: "char \<Rightarrow> bool" where
  "is_digit c = (48 \<le> byte c \<and> byte c \<le> 57)"

lemma is_digit_digit: "is_digit (digit d)"
  by (simp add: digit_def is_digit_def byte_def)

lemma dec_pos_digits: "list_all is_digit (dec_pos n)"
  by (induction n rule: dec_pos.induct) (subst dec_pos.simps, simp add: is_digit_digit)

lemma pad_zeros_length: "length s \<le> w \<Longrightarrow> length (pad_zeros w s) = w"
  by (simp add: pad_zeros_def)

lemma pad_zeros_digits: "list_all is_digit s \<Longrightarrow> list_all is_digit (pad_zeros n s)"
proof -
  assume "list_all is_digit s"
  moreover have "is_digit CHR ''0''" using is_digit_digit [of 0] by (simp add: digit_def)
  ultimately show ?thesis by (simp add: pad_zeros_def list_all_length nth_append)
qed

lemma hotp_shape:
  assumes "hotp h secret c = Inr code"
  shows "length code = 6 \<and> list_all is_digit code"
proof -
  from assms obtain n where code: "code = pad_zeros 6 (dec_pos (n mod 10 ^ 6))"
    by (auto simp: hotp_def res_bnd_Inr_iff Let_def TOTP_DIGITS_def dec_int_def split: if_splits)
  have "length (dec_pos (n mod 10 ^ 6)) \<le> 6" by (rule dec_pos_length) simp_all
  then have "length code = 6" by (simp add: code pad_zeros_length)
  moreover have "list_all is_digit code"
    unfolding code by (rule pad_zeros_digits [OF dec_pos_digits])
  ultimately show ?thesis ..
qed

lemma digits_ascii: "list_all is_digit s \<Longrightarrow> is_ascii s"
  by (auto simp: is_ascii_def list_all_iff is_digit_def)

lemma any_code_sound:
  "any_code h secret code c skews = Inr True \<Longrightarrow> \<exists>k \<in> set skews. hotp h secret (c + k) = Inr code"
  by (induction skews) (auto simp: res_bnd_Inr_iff compare_digest_def split: if_splits)

lemma any_code_total:
  assumes "\<forall>k \<in> set skews. \<exists>x. hotp h secret (c + k) = Inr x" and "is_ascii code"
  shows "any_code h secret code c skews = Inr (\<exists>k \<in> set skews. hotp h secret (c + k) = Inr code)"
  using assms(1)
proof (induction skews)
  case (Cons j skews)
  from Cons.prems obtain x where x: "hotp h secret (c + j) = Inr x" by auto
  then have "is_ascii x" using hotp_shape digits_ascii by blast
  with x Cons assms(2) show ?case by (auto simp: compare_digest_def)
qed simp

text \<open>With a MAC of at least 20 bytes every counter a clock can give has a code.\<close>

lemma hotp_total:
  assumes "\<forall>k m. 20 \<le> length (h k m)" and "0 \<le> c" "c < 2 ^ 64"
  shows "\<exists>code. hotp h secret c = Inr code"
proof -
  let ?d = "h secret (to_bytes 8 c)"
  let ?o = "unat ((word_of_int (byte (last ?d)) :: 8 word) AND 0x0F)"
  have "(word_of_int (byte (last ?d)) :: 8 word) AND 0x0F \<le> 0x0F"
    by (simp add: word_and_le1)
  then have "?o \<le> 15" by (simp add: word_le_nat_alt)
  moreover have "20 \<le> length ?d" using assms(1) by blast
  ultimately have "length (take 4 (drop ?o ?d)) = 4" by (simp only: length_take length_drop)
  moreover have "?d \<noteq> []" using assms(1) by (metis list.size(3) not_numeral_le_zero)
  ultimately show ?thesis
    using assms(2,3) by (simp add: hotp_def pack_u64_def unpack_u32_def Let_def)
qed

lemma verify_totp_sound:
  assumes "verify_totp h secret_b32 code t = Inr True"
  shows "\<exists>secret k. decode_totp_secret secret_b32 = Inr secret \<and> - 1 \<le> k \<and> k \<le> 1
    \<and> hotp h secret (totp_counter t + k) = Inr code"
  using assms
  by (fastforce simp: verify_totp_def TOTP_SKEW_STEPS_def split: sum.splits dest!: any_code_sound)

section \<open>Redemption\<close>

lemma py_eq_JStr [simp]: "py_eq v (JStr s) \<longleftrightarrow> v = JStr s"
  by (cases v) (auto split: option.splits)

lemma any_differs_False:
  "any_differs record kss = Inr False \<longleftrightarrow> (\<forall>(k, s) \<in> set kss. subscript record k = Inr (JStr s))"
  by (induction kss) (auto simp: res_bnd_Inr_iff split: if_splits)

declare any_differs.simps [simp del]

text \<open>The challenge in Redis matches the call.\<close>

definition challenge_for ::
  "json \<Rightarrow> string \<Rightarrow> string \<Rightarrow> string \<Rightarrow> string \<Rightarrow> bool"
where
  "challenge_for record identity_id server_id tool_name args_hash \<longleftrightarrow>
     subscript record ''identity_id'' = Inr (JStr identity_id)
     \<and> subscript record ''server_id'' = Inr (JStr server_id)
     \<and> subscript record ''tool_name'' = Inr (JStr tool_name)
     \<and> subscript record ''arguments_hash'' = Inr (JStr args_hash)"

lemma quiet_put_live: "quiet w w' \<Longrightarrow> r_live (r_put k e w') j = r_live (r_put k e w) j"
  by (simp add: r_live_put quiet_live quiet_fields split: option.split)

lemma redeem_challenge_success:
  assumes "redeem_challenge E cid i s t h proof secret w = (Inr None, w')"
  shows "\<exists>v record code. r_live w (challenge_key cid) = Some v \<and> rval_loads v = Inr record
    \<and> challenge_for record i s t h \<and> secret \<noteq> [] \<and> proof = JStr code
    \<and> verify_totp (x_hmac_sha1 E) secret code (w_clock w) = Inr True
    \<and> r_live (r_put (challenge_key cid) None w) (code_dedup_key i code) = None
    \<and> w_redis w' = (w_redis w)(challenge_key cid := None,
          code_dedup_key i code := Some (RNum 1, Some (w_clock w + 90)))"
proof -
  from assms obtain v w1 where getdel: "r_getdel (challenge_key cid) w = (Inr (Some v), w1)"
    by (auto simp: redeem_challenge_def bnd_Inr_iff split: option.splits)
  from assms getdel obtain rcd code where rec: "rval_loads v = Inr rcd"
      "challenge_for rcd i s t h" "secret \<noteq> []" "proof = JStr code"
      "verify_totp (x_hmac_sha1 E) secret code (w_clock w1) = Inr True"
    and nx: "r_set_nx (code_dedup_key i code) (RNum 1) 90 w1 = (Inr True, w')"
    by (auto simp: redeem_challenge_def now_def bnd_Inr_iff any_differs_False challenge_for_def
        CODE_DEDUP_TTL_SECONDS_def split: if_splits json.splits)
  from r_getdel_Inr [OF getdel] obtain w0 where "quiet w w0" "w1 = r_put (challenge_key cid) None w0"
    "r_live w (challenge_key cid) = Some v" by auto
  with rec nx show ?thesis
    by (auto simp: quiet_fields quiet_put_live dest!: r_set_nx_True)
qed

text \<open>A redemption that returns has removed the challenge.\<close>

lemma redeem_challenge_removes:
  assumes "redeem_challenge E cid i s t h proof secret w = (Inr r, w')"
  shows "r_live w' (challenge_key cid) = None \<or> r_live w' (challenge_key cid) = Some (RNum 1)"
proof -
  from assms obtain v w1 where getdel: "r_getdel (challenge_key cid) w = (Inr v, w1)"
    by (auto simp: redeem_challenge_def bnd_Inr_iff)
  then have gone: "r_live w1 (challenge_key cid) = None"
    by (auto simp: r_live_put dest!: r_getdel_Inr)
  have "w' = w1 \<or> (\<exists>code fresh. r_set_nx (code_dedup_key i code) (RNum 1) 90 w1 = (Inr fresh, w'))"
    using assms getdel
    by (auto simp: redeem_challenge_def now_def bnd_Inr_iff CODE_DEDUP_TTL_SECONDS_def
        split: if_splits json.splits option.splits)
  then show ?thesis
  proof
    assume "\<exists>code fresh. r_set_nx (code_dedup_key i code) (RNum 1) 90 w1 = (Inr fresh, w')"
    then obtain code fresh where "r_set_nx (code_dedup_key i code) (RNum 1) 90 w1 = (Inr fresh, w')"
      by blast
    then show ?thesis using gone
      by (cases fresh) (auto simp: r_live_put quiet_live quiet_fields
          dest!: r_set_nx_True r_set_nx_False split: if_splits)
  qed (simp add: gone)
qed

section \<open>Properties\<close>

text \<open>
  With a MAC of at least 20 bytes and a clock past the first step, a code of ASCII
  characters is accepted exactly when it is the code of the current 30-second step or of one of
  its two neighbours, and never raises.
\<close>
theorem totp_accepts_iff:
  assumes "\<forall>k m. 20 \<le> length (h k m)" and "decode_totp_secret secret_b32 = Inr secret"
    and "is_ascii code" and "1 \<le> totp_counter t" and "totp_counter t < 2 ^ 63"
  shows "verify_totp h secret_b32 code t = Inr (\<exists>k \<in> {-1, 0, 1}. hotp h secret (totp_counter t + k) = Inr code)"
proof -
  have "[- 1 .. 1] = [- 1, 0, 1 :: int]" by (simp add: upto.simps)
  moreover have "\<forall>k \<in> set [- 1, 0, 1]. \<exists>x. hotp h secret (totp_counter t + k) = Inr x"
    using hotp_total [OF assms(1)] assms(4,5) by simp
  ultimately show ?thesis
    using any_code_total [of "[-1, 0, 1]" h secret "totp_counter t" code] assms(2,3)
    by (simp add: verify_totp_def TOTP_SKEW_STEPS_def)
qed

theorem totp_accepts_iff_witness:
  "verify_totp (\<lambda>k m. replicate 20 CHR ''a'') ''MZXW6YTBOI======'' ''123456'' 388800
     = Inr (\<exists>k \<in> {-1, 0, 1}. hotp (\<lambda>k m. replicate 20 CHR ''a'') ''foobar'' (12960 + k) = Inr ''123456'')"
proof -
  have "decode_totp_secret ''MZXW6YTBOI======'' = Inr ''foobar''" by code_simp
  moreover have "is_ascii ''123456''" by code_simp
  moreover have "totp_counter 388800 = 12960" by code_simp
  ultimately show ?thesis
    using totp_accepts_iff [of "\<lambda>k m. replicate 20 CHR ''a''" "''MZXW6YTBOI======''" "''foobar''" "''123456''" 388800]
    by simp
qed

text \<open>Every code the gateway accepts has exactly six characters, all decimal digits.\<close>
theorem accepted_code_six_digits:
  assumes "verify_totp h secret_b32 code t = Inr True"
  shows "length code = 6 \<and> list_all is_digit code"
  using verify_totp_sound [OF assms] hotp_shape by blast

definition demo_code :: string where
  "demo_code = (case totp_code (x_hmac_sha1 demo) ''MZXW6YTBOI======'' 388800 of Inr c \<Rightarrow> c | Inl e \<Rightarrow> [])"

theorem accepted_code_six_digits_witness: "length demo_code = 6 \<and> list_all is_digit demo_code"
proof -
  have "verify_totp (x_hmac_sha1 demo) ''MZXW6YTBOI======'' demo_code 388800 = Inr True" by code_simp
  then show ?thesis by (rule accepted_code_six_digits)
qed


definition demo_challenged :: world where
  "demo_challenged = snd (create_challenge demo ''ops'' ''srv'' ''write'' ''h'' 1
     (snd (create_challenge demo ''ops'' ''srv'' ''write'' ''h'' 1 demo_world)))"

definition demo_redeem :: "string \<Rightarrow> string option step" where
  "demo_redeem cid = redeem_challenge demo cid ''ops'' ''srv'' ''write'' ''h'' (JStr demo_code)
     ''MZXW6YTBOI======''"


text \<open>
  A challenge is redeemed at most once: after any redemption attempt that returned, granted
  or refused, and until Redis holds a new value under that id, no attempt with that id by anyone
  succeeds.
\<close>
theorem challenge_one_time:
  assumes "redeem_challenge E cid i s t h proof secret w1 = (Inr r, w1')"
    and "r_live w2 (challenge_key cid) = r_live w1' (challenge_key cid) \<or> r_live w2 (challenge_key cid) = None"
  shows "fst (redeem_challenge E cid i2 s2 t2 h2 proof2 secret2 w2) \<noteq> Inr None"
proof
  assume "fst (redeem_challenge E cid i2 s2 t2 h2 proof2 secret2 w2) = Inr None"
  then obtain w2' where "redeem_challenge E cid i2 s2 t2 h2 proof2 secret2 w2 = (Inr None, w2')"
    by (metis prod.collapse)
  from redeem_challenge_success [OF this] redeem_challenge_removes [OF assms(1)] assms(2)
  show False by (auto simp: rval_loads_def challenge_for_def)
qed

theorem challenge_one_time_witness:
  "fst (demo_redeem ''id0'' demo_challenged) = Inr None
   \<and> fst (demo_redeem ''id0'' (snd (demo_redeem ''id0'' demo_challenged))) \<noteq> Inr None"
proof -
  let ?w = "snd (demo_redeem ''id0'' demo_challenged)"
  have ok: "fst (demo_redeem ''id0'' demo_challenged) = Inr None" by code_simp
  then have "redeem_challenge demo ''id0'' ''ops'' ''srv'' ''write'' ''h'' (JStr demo_code)
      ''MZXW6YTBOI======'' demo_challenged = (Inr None, ?w)"
    by (simp add: demo_redeem_def prod_eq_iff)
  from challenge_one_time [OF this, of ?w] ok show ?thesis unfolding demo_redeem_def by blast
qed

text \<open>
  A code answers one challenge: while its 90-second entry is left alone, no redemption for
  the same identity with the same code succeeds.
\<close>
theorem code_single_use:
  assumes "redeem_challenge E cid i s t h (JStr code) secret w1 = (Inr None, w1')"
    and "w_redis w2 (code_dedup_key i code) = w_redis w1' (code_dedup_key i code)"
    and "w_clock w2 < w_clock w1 + 90"
    and "challenge_key cid2 \<noteq> code_dedup_key i code"
  shows "fst (redeem_challenge E cid2 i s2 t2 h2 (JStr code) secret2 w2) \<noteq> Inr None"
proof
  assume "fst (redeem_challenge E cid2 i s2 t2 h2 (JStr code) secret2 w2) = Inr None"
  then obtain w2' where "redeem_challenge E cid2 i s2 t2 h2 (JStr code) secret2 w2 = (Inr None, w2')"
    by (metis prod.collapse)
  from redeem_challenge_success [OF this] assms(4) have "r_live w2 (code_dedup_key i code) = None"
    by (auto simp: r_live_put)
  with redeem_challenge_success [OF assms(1)] assms(2,3) show False
    by (auto simp: r_live_def)
qed

theorem code_single_use_witness:
  "fst (demo_redeem ''id1'' (snd (demo_redeem ''id0'' demo_challenged))) \<noteq> Inr None"
proof -
  let ?w = "snd (demo_redeem ''id0'' demo_challenged)"
  have "fst (demo_redeem ''id0'' demo_challenged) = Inr None" by code_simp
  then have run: "redeem_challenge demo ''id0'' ''ops'' ''srv'' ''write'' ''h'' (JStr demo_code)
      ''MZXW6YTBOI======'' demo_challenged = (Inr None, ?w)"
    by (simp add: demo_redeem_def prod_eq_iff)
  have "w_clock ?w < w_clock demo_challenged + 90" by code_simp
  moreover have "challenge_key ''id1'' \<noteq> code_dedup_key ''ops'' demo_code"
    by (simp add: challenge_key_def code_dedup_key_def)
  ultimately show ?thesis
    using code_single_use [OF run refl] unfolding demo_redeem_def by blast
qed

text \<open>
  The entry that remembers a code lies in the name space of the challenges: a client that
  redeems the id \<open>code:<identity>:<code>\<close> deletes it (the attempt itself fails), and the code
  then answers a second challenge.
\<close>
theorem code_entry_deleted_by_crafted_id:
  "let w1 = snd (demo_redeem ''id0'' demo_challenged);
       w2 = snd (demo_redeem (''code:ops:'' @ demo_code) w1)
   in fst (demo_redeem ''id0'' demo_challenged) = Inr None
      \<and> fst (demo_redeem (''code:ops:'' @ demo_code) w1) = Inl TypeError
      \<and> fst (demo_redeem ''id1'' w2) = Inr None"
  by code_simp

text \<open>
  A code is acceptable over three steps, nearly 90 seconds, not 60: the code of a step is
  accepted in the step before it and in the step after it.
\<close>
theorem code_accepted_for_three_steps:
  "verify_totp (x_hmac_sha1 demo) ''MZXW6YTBOI======'' demo_code 388770 = Inr True
   \<and> verify_totp (x_hmac_sha1 demo) ''MZXW6YTBOI======'' demo_code 388859 = Inr True"
  by code_simp

end
