(* ===== verification/Approvals.thy ===== *)
theory Approvals
  imports StepUp
begin

text \<open>
  The human approval lifecycle (\<open>approvals.py\<close>). A row goes from pending to approved to consumed,
  or from pending to expired; \<open>lifecycle\<close> is that state machine as a step relation, and every
  operation, whichever store fails during it, moves the table along it (\<open>ap_evolves\<close>). One-time
  use and the re-check of the approved call rest on it.
\<close>

section \<open>The store\<close>

definition APPROVAL_META_KEY :: string where
  "APPROVAL_META_KEY = ''portunusmcp/approval_id''"

definition arguments_hash :: "ext \<Rightarrow> json \<Rightarrow> string res" where
  "arguments_hash E arguments = canon_hash E arguments"

definition ap_expired :: "approval \<Rightarrow> rat \<Rightarrow> bool" where
  "ap_expired row t = (ap_expires_at row < t)"

text \<open>\<open>SELECT ... FOR UPDATE\<close> by id, and the update of that row at commit.\<close>

definition find_approval :: "string \<Rightarrow> approval list \<Rightarrow> approval option" where
  "find_approval approval_id rows = List.find (\<lambda>r. ap_approval_id r = approval_id) rows"

definition locked :: "string \<Rightarrow> approval option step" where
  "locked approval_id = db_read [approval_id] (\<lambda>w. find_approval approval_id (w_approvals w))"

fun update_first :: "('a \<Rightarrow> bool) \<Rightarrow> ('a \<Rightarrow> 'a) \<Rightarrow> 'a list \<Rightarrow> 'a list" where
  "update_first p f [] = []"
| "update_first p f (x # xs) = (if p x then f x # xs else x # update_first p f xs)"

definition set_approval :: "string \<Rightarrow> (approval \<Rightarrow> approval) \<Rightarrow> world \<Rightarrow> world" where
  "set_approval approval_id f w =
     w\<lparr>w_approvals := update_first (\<lambda>r. ap_approval_id r = approval_id) f (w_approvals w)\<rparr>"

definition create_approval ::
  "ext \<Rightarrow> string \<Rightarrow> string \<Rightarrow> string \<Rightarrow> string \<Rightarrow> int \<Rightarrow> string step"
where
  "create_approval E identity_id server_id tool_name args_hash audit_id =
     bnd (fresh_uuid E) (\<lambda>approval_id.
     bnd now (\<lambda>t.
     bnd (gets w_approvals) (\<lambda>rows.
     bnd (db_commit
           (list_all text_ok [approval_id, identity_id, server_id, tool_name, args_hash]
              \<and> find_approval approval_id rows = None)
           (\<lambda>w. w\<lparr>w_approvals := w_approvals w @
              [\<lparr>ap_approval_id = approval_id, ap_audit_id = audit_id, ap_identity_id = identity_id,
                ap_server_id = server_id, ap_tool_name = tool_name, ap_arguments_hash = args_hash,
                ap_created_at = t,
                ap_expires_at = t + of_int (cf_approval_ttl_seconds (x_cfg E)),
                ap_status = ''pending'', ap_approved_by = None, ap_approved_at = None,
                ap_consumed = False\<rparr>]\<rparr>)) (\<lambda>_.
     ret approval_id))))"

definition approve_approval ::
  "ext \<Rightarrow> string \<Rightarrow> string \<Rightarrow> (int \<times> string \<times> string \<times> string) step"
where
  "approve_approval E approval_id approved_by =
     bnd (locked approval_id) (\<lambda>found.
     case found of
       None \<Rightarrow> raise (LookupError ''unknown approval id'')
     | Some row \<Rightarrow>
         bnd now (\<lambda>t.
         if ap_status row = ''pending'' \<and> ap_expired row t then
           bnd (audit_write E EXPIRED (ap_identity_id row) (Some (ap_server_id row))
                  (Some (ap_tool_name row)) [(''approval_id'', JStr approval_id)] None) (\<lambda>_.
           bnd (db_commit True (set_approval approval_id (\<lambda>r. r\<lparr>ap_status := ''expired''\<rparr>))) (\<lambda>_.
           raise (LookupError ''approval has expired'')))
         else if ap_status row \<noteq> ''pending'' then
           raise (LookupError (''approval is '' @ ap_status row @ '', not pending''))
         else
           bnd (audit_write E APPROVED approved_by (Some (ap_server_id row)) (Some (ap_tool_name row))
                  [(''approval_id'', JStr approval_id), (''identity_id'', JStr (ap_identity_id row))]
                  None) (\<lambda>seq.
           bnd (db_commit (text_ok approved_by) (set_approval approval_id
                  (\<lambda>r. r\<lparr>ap_status := ''approved'', ap_approved_by := Some approved_by,
                        ap_approved_at := Some t\<rparr>))) (\<lambda>_.
           ret (seq, ap_identity_id row, ap_server_id row, ap_tool_name row)))))"

definition redeem_approval ::
  "string \<Rightarrow> string \<Rightarrow> string \<Rightarrow> string \<Rightarrow> string \<Rightarrow> (event_type \<times> string) option step"
where
  "redeem_approval approval_id identity_id server_id tool_name args_hash =
     bnd (locked approval_id) (\<lambda>found.
     case found of
       None \<Rightarrow> ret (Some (DENY_APPROVAL_MISMATCH, ''unknown approval id''))
     | Some row \<Rightarrow>
         bnd now (\<lambda>t.
         if ap_consumed row then ret (Some (DENY_REPLAY, ''approval has already been used''))
         else if ap_expired row t then
           bnd (if ap_status row = ''pending''
                then db_commit True (set_approval approval_id (\<lambda>r. r\<lparr>ap_status := ''expired''\<rparr>))
                else ret ()) (\<lambda>_.
           ret (Some (EXPIRED, ''approval has expired'')))
         else if ap_status row \<noteq> ''approved'' then
           ret (Some (DENY_APPROVAL_MISMATCH, ''approval has not been granted''))
         else if ap_identity_id row \<noteq> identity_id \<or> ap_server_id row \<noteq> server_id
                 \<or> ap_tool_name row \<noteq> tool_name then
           ret (Some (DENY_APPROVAL_MISMATCH,
             ''approval was granted to a different identity, server, or tool''))
         else if ap_arguments_hash row \<noteq> args_hash then
           ret (Some (DENY_APPROVAL_MISMATCH, ''arguments differ from the ones that were approved''))
         else
           bnd (db_commit True (set_approval approval_id (\<lambda>r. r\<lparr>ap_consumed := True\<rparr>))) (\<lambda>_.
           ret None)))"

text \<open>
  The startup sweep: each stale row is audited, all are committed as expired at the end.
\<close>

definition stale :: "rat \<Rightarrow> approval \<Rightarrow> bool" where
  "stale t row = (ap_status row = ''pending'' \<and> ap_expires_at row < t)"

definition expire_stale :: "ext \<Rightarrow> unit step" where
  "expire_stale E =
     bnd now (\<lambda>t.
     bnd (db_read [] (\<lambda>w. filter (stale t) (w_approvals w))) (\<lambda>rows.
     bnd (for_each (\<lambda>row.
            bnd (audit_write E EXPIRED (ap_identity_id row) (Some (ap_server_id row))
                   (Some (ap_tool_name row)) [(''approval_id'', JStr (ap_approval_id row))] None)
              (\<lambda>_. ret ())) rows) (\<lambda>_.
     db_commit True (\<lambda>w. w\<lparr>w_approvals :=
       map (\<lambda>r. if stale t r then r\<lparr>ap_status := ''expired''\<rparr> else r) (w_approvals w)\<rparr>))))"

section \<open>The lifecycle of a row\<close>

inductive lifecycle :: "approval \<Rightarrow> approval \<Rightarrow> bool" where
  grant: "ap_status r = ''pending'' \<Longrightarrow>
    lifecycle r (r\<lparr>ap_status := ''approved'', ap_approved_by := Some a, ap_approved_at := Some t\<rparr>)"
| expire: "ap_status r = ''pending'' \<Longrightarrow> lifecycle r (r\<lparr>ap_status := ''expired''\<rparr>)"
| consume: "ap_status r = ''approved'' \<Longrightarrow> \<not> ap_consumed r \<Longrightarrow> lifecycle r (r\<lparr>ap_consumed := True\<rparr>)"

inductive_cases lifecycleE: "lifecycle r r'"

text \<open>What a row never changes, and what it never takes back.\<close>

definition later_row :: "approval \<Rightarrow> approval \<Rightarrow> bool" where
  "later_row r r' \<longleftrightarrow>
     ap_approval_id r' = ap_approval_id r \<and> ap_identity_id r' = ap_identity_id r
     \<and> ap_server_id r' = ap_server_id r \<and> ap_tool_name r' = ap_tool_name r
     \<and> ap_arguments_hash r' = ap_arguments_hash r \<and> ap_audit_id r' = ap_audit_id r
     \<and> ap_expires_at r' = ap_expires_at r
     \<and> (ap_consumed r \<longrightarrow> ap_consumed r') \<and> (ap_status r = ''expired'' \<longrightarrow> ap_status r' = ''expired'')
     \<and> (ap_status r = ''approved'' \<longrightarrow> ap_status r' = ''approved'' \<and> ap_approved_by r' = ap_approved_by r)"

lemma lifecycle_later: "lifecycle r r' \<Longrightarrow> later_row r r'"
  by (auto simp: later_row_def elim: lifecycleE)

lemma lifecycle_star_later: "lifecycle\<^sup>*\<^sup>* r r' \<Longrightarrow> later_row r r'"
  by (induction rule: rtranclp_induct) (auto simp: later_row_def dest!: lifecycle_later)

text \<open>A row as \<open>create_approval\<close> makes it.\<close>

definition fresh_row :: "approval \<Rightarrow> bool" where
  "fresh_row r \<longleftrightarrow> ap_status r = ''pending'' \<and> \<not> ap_consumed r \<and> ap_approved_by r = None"

definition ap_evolves :: "world \<Rightarrow> world \<Rightarrow> bool" where
  "ap_evolves w w' \<longleftrightarrow> (\<exists>old new. w_approvals w' = old @ new
     \<and> list_all2 lifecycle\<^sup>*\<^sup>* (w_approvals w) old
     \<and> (\<forall>r \<in> set new. \<exists>r0. fresh_row r0 \<and> lifecycle\<^sup>*\<^sup>* r0 r))"

lemma ap_evolves_same: "w_approvals w' = w_approvals w \<Longrightarrow> ap_evolves w w'"
  unfolding ap_evolves_def by (intro exI [of _ "w_approvals w"] exI [of _ "[]"]) (simp add: list_all2_refl)

lemma ap_evolves_trans:
  assumes "ap_evolves u v" and "ap_evolves v w"
  shows "ap_evolves u w"
proof -
  from assms(1) obtain old new where 1: "w_approvals v = old @ new"
    "list_all2 lifecycle\<^sup>*\<^sup>* (w_approvals u) old" "\<forall>r \<in> set new. \<exists>r0. fresh_row r0 \<and> lifecycle\<^sup>*\<^sup>* r0 r"
    unfolding ap_evolves_def by blast
  from assms(2) obtain old2 new2 where 2: "w_approvals w = old2 @ new2"
    "list_all2 lifecycle\<^sup>*\<^sup>* (old @ new) old2" "\<forall>r \<in> set new2. \<exists>r0. fresh_row r0 \<and> lifecycle\<^sup>*\<^sup>* r0 r"
    unfolding ap_evolves_def 1(1) by blast
  from 2(2) obtain a b where ab: "old2 = a @ b" "list_all2 lifecycle\<^sup>*\<^sup>* old a" "list_all2 lifecycle\<^sup>*\<^sup>* new b"
    by (auto simp: list_all2_append1)
  have "list_all2 lifecycle\<^sup>*\<^sup>* (w_approvals u) a"
    using 1(2) ab(2) by (rule list_all2_trans [rotated]) (rule rtranclp_trans)
  moreover have "\<exists>r0. fresh_row r0 \<and> lifecycle\<^sup>*\<^sup>* r0 r" if "r \<in> set b" for r
    using that ab(3) 1(3) by (metis list_all2_conv_all_nth in_set_conv_nth rtranclp_trans)
  ultimately show ?thesis
    unfolding ap_evolves_def using 2(1,3) ab(1)
    by (intro exI [of _ a] exI [of _ "b @ new2"]) auto
qed

interpretation ap_evolves: append_ok ap_evolves
  by unfold_locales (auto intro: ap_evolves_same ap_evolves_trans)

lemma update_first_evolves:
  "(\<And>r. p r \<Longrightarrow> r \<in> set rows \<Longrightarrow> r = the (List.find p rows) \<Longrightarrow> lifecycle r (f r)) \<Longrightarrow>
     list_all2 lifecycle\<^sup>*\<^sup>* rows (update_first p f rows)"
proof (induction rows)
  case (Cons r rows)
  show ?case
  proof (cases "p r")
    case True
    with Cons.prems have "lifecycle r (f r)" by simp
    with True show ?thesis by (simp add: list_all2_refl)
  next
    case False
    with Cons show ?thesis by simp
  qed
qed simp

lemma set_approval_evolves:
  assumes "find_approval i (w_approvals w) = Some r" and "lifecycle r (f r)"
  shows "ap_evolves w (set_approval i f w)"
  unfolding ap_evolves_def set_approval_def
  using assms update_first_evolves [of "\<lambda>r. ap_approval_id r = i" "w_approvals w" f]
  by (intro exI [of _ "update_first (\<lambda>r. ap_approval_id r = i) f (w_approvals w)"] exI [of _ "[]"])
    (auto simp: find_approval_def)

section \<open>Every operation moves the table along the lifecycle\<close>

lemma locked_Inr:
  "locked i w = (Inr x, w') \<Longrightarrow> x = find_approval i (w_approvals w) \<and> quiet w w'"
  unfolding locked_def by (drule db_read_Inr) (auto simp: quiet_fields)

lemma locked_Inl: "locked i w = (Inl e, w') \<Longrightarrow> quiet w w'"
  unfolding locked_def by (drule db_read_Inl) auto

lemma quiet_evolves: "quiet w w' \<Longrightarrow> ap_evolves w w'"
  by (simp add: ap_evolves_same quiet_fields)

text \<open>
  Committing a lifecycle move of a row that was found earlier, when the table has not changed
  since.
\<close>

lemma commit_set_approval:
  assumes "db_commit ok (set_approval i f) w = (r, w')"
    and "find_approval i (w_approvals w) = Some row" and "lifecycle row (f row)"
  shows "ap_evolves w w'"
proof (cases r)
  case (Inl e)
  with assms(1) show ?thesis by (auto dest!: db_commit_Inl intro: quiet_evolves)
next
  case (Inr u)
  with assms(1) obtain w1 where "quiet w w1" "w' = set_approval i f w1"
    by (auto dest!: db_commit_Inr)
  moreover from this(1) assms(2) have "find_approval i (w_approvals w1) = Some row"
    by (simp add: quiet_fields)
  ultimately show ?thesis
    using set_approval_evolves assms(3) quiet_evolves ap_evolves_trans by metis
qed

lemma audit_write_approvals:
  "audit_write E ev i s t x k w = (r, w') \<Longrightarrow> w_approvals w' = w_approvals w"
  using staysD [OF same_approvals.stays_audit_write] by (auto simp: same_def)

lemma create_approval_evolves: "stays ap_evolves (create_approval E i s t h n)"
  unfolding create_approval_def
proof (intro ap_evolves.blind_intros ap_evolves.stays_db_commit)
  fix aid tm rows w
  let ?r = "\<lparr>ap_approval_id = aid, ap_audit_id = n, ap_identity_id = i, ap_server_id = s,
    ap_tool_name = t, ap_arguments_hash = h, ap_created_at = tm,
    ap_expires_at = tm + of_int (cf_approval_ttl_seconds (x_cfg E)), ap_status = ''pending'',
    ap_approved_by = None, ap_approved_at = None, ap_consumed = False\<rparr>"
  have "fresh_row ?r" by (simp add: fresh_row_def)
  then show "ap_evolves w (w\<lparr>w_approvals := w_approvals w @ [?r]\<rparr>)"
    unfolding ap_evolves_def
    by (intro exI [of _ "w_approvals w"] exI [of _ "[?r]"]) (auto simp: list_all2_refl)
qed

lemma redeem_approval_evolves: "stays ap_evolves (redeem_approval i a s t h)"
proof (rule staysI)
  fix w r w'
  assume run: "redeem_approval i a s t h w = (r, w')"
  obtain x w1 where lk: "locked i w = (x, w1)" by (cases "locked i w")
  show "ap_evolves w w'"
  proof (cases x)
    case (Inl e)
    with run lk show ?thesis
      by (auto simp: redeem_approval_def bnd_def dest!: locked_Inl intro: quiet_evolves)
  next
    case (Inr found)
    with lk have found: "found = find_approval i (w_approvals w1)" and q: "quiet w w1"
      by (auto simp: quiet_fields dest!: locked_Inr)
    have "ap_evolves w1 w'"
    proof (cases found)
      case None
      with run lk Inr show ?thesis
        by (simp add: redeem_approval_def bnd_def ap_evolves_same)
    next
      case (Some row)
      note row = found [unfolded Some, symmetric]
      have done_: "ap_evolves w1 w1" by (simp add: ap_evolves_same)
      consider "ap_consumed row" | "\<not> ap_consumed row" "ap_expired row (w_clock w1)"
        | "\<not> ap_consumed row" "\<not> ap_expired row (w_clock w1)" by blast
      then show ?thesis
      proof cases
        case 1
        with run lk Inr Some show ?thesis
          by (simp add: redeem_approval_def bnd_def now_def ap_evolves_same)
      next
        case 2
        show ?thesis
        proof (cases "ap_status row = ''pending''")
          case True
          then have "lifecycle row (row\<lparr>ap_status := ''expired''\<rparr>)" by (rule lifecycle.expire)
          moreover obtain r2 where
            "db_commit True (set_approval i (\<lambda>r. r\<lparr>ap_status := ''expired''\<rparr>)) w1 = (r2, w')"
            using run lk Inr Some 2 True
            by (auto simp: redeem_approval_def bnd_def now_def split: prod.splits sum.splits)
          ultimately show ?thesis using commit_set_approval row by blast
        next
          case False
          with run lk Inr Some 2 show ?thesis
            by (simp add: redeem_approval_def bnd_def now_def ap_evolves_same)
        qed
      next
        case 3
        show ?thesis
        proof (cases "ap_status row = ''approved'' \<and> ap_identity_id row = a \<and> ap_server_id row = s
            \<and> ap_tool_name row = t \<and> ap_arguments_hash row = h")
          case True
          with 3 have "lifecycle row (row\<lparr>ap_consumed := True\<rparr>)" by (simp add: lifecycle.consume)
          moreover obtain r2 where
            "db_commit True (set_approval i (\<lambda>r. r\<lparr>ap_consumed := True\<rparr>)) w1 = (r2, w')"
            using run lk Inr Some 3 True
            by (auto simp: redeem_approval_def bnd_def now_def split: prod.splits sum.splits)
          ultimately show ?thesis using commit_set_approval row by blast
        next
          case False
          with run lk Inr Some 3 show ?thesis
            by (auto simp: redeem_approval_def bnd_def now_def ap_evolves_same split: if_splits)
        qed
      qed
    qed
    with q show ?thesis using quiet_evolves ap_evolves_trans by blast
  qed
qed

lemma approve_approval_evolves: "stays ap_evolves (approve_approval E i by)"
proof (rule staysI)
  fix w r w'
  assume run: "approve_approval E i by w = (r, w')"
  obtain x w1 where lk: "locked i w = (x, w1)" by (cases "locked i w")
  show "ap_evolves w w'"
  proof (cases x)
    case (Inl e)
    with run lk show ?thesis
      by (auto simp: approve_approval_def bnd_def dest!: locked_Inl intro: quiet_evolves)
  next
    case (Inr found)
    with lk have found: "found = find_approval i (w_approvals w1)" and q: "quiet w w1"
      by (auto simp: quiet_fields dest!: locked_Inr)
    have "ap_evolves w1 w'"
    proof (cases found)
      case None
      with run lk Inr show ?thesis
        by (simp add: approve_approval_def bnd_def raise_def ap_evolves_same)
    next
      case (Some row)
      show ?thesis
      proof (cases "ap_status row = ''pending''")
        case False
        with run lk Inr Some show ?thesis
          by (simp add: approve_approval_def bnd_def now_def raise_def ap_evolves_same)
      next
        case pending: True
        have main: "ap_evolves w1 w'"
          if "audit_write E ev j sv tn p k w1 = (y, w2)" and move: "lifecycle row (f row)"
            and rest: "case y of Inl e \<Rightarrow> w' = w2
               | Inr q \<Rightarrow> (\<exists>r2. db_commit ok (set_approval i f) w2 = (r2, w'))"
          for ev j sv tn p k y w2 f ok
        proof -
          from that(1) have tab: "w_approvals w2 = w_approvals w1" by (rule audit_write_approvals)
          then have "ap_evolves w1 w2" by (rule ap_evolves_same)
          moreover have "find_approval i (w_approvals w2) = Some row"
            using tab found Some by simp
          with rest move have "ap_evolves w2 w'"
            by (auto simp: ap_evolves_same split: sum.splits dest: commit_set_approval)
          ultimately show ?thesis by (rule ap_evolves_trans)
        qed
        show ?thesis
        proof (cases "ap_expired row (w_clock w1)")
          case True
          let ?f = "\<lambda>r. r\<lparr>ap_status := ''expired''\<rparr>"
          obtain y w2 where aw: "audit_write E EXPIRED (ap_identity_id row) (Some (ap_server_id row))
              (Some (ap_tool_name row)) [(''approval_id'', JStr i)] None w1 = (y, w2)" by fastforce
          then have "case y of Inl e \<Rightarrow> w' = w2
               | Inr q \<Rightarrow> (\<exists>r2. db_commit True (set_approval i ?f) w2 = (r2, w'))"
            using run lk Inr Some pending True
            by (auto simp: approve_approval_def bnd_def now_def raise_def split: prod.splits sum.splits)
          with aw pending show ?thesis by (intro main [where f = ?f]) (auto intro: lifecycle.expire)
        next
          case False
          let ?f = "\<lambda>r. r\<lparr>ap_status := ''approved'', ap_approved_by := Some by,
                        ap_approved_at := Some (w_clock w1)\<rparr>"
          obtain y w2 where aw: "audit_write E APPROVED by (Some (ap_server_id row))
              (Some (ap_tool_name row)) [(''approval_id'', JStr i),
                (''identity_id'', JStr (ap_identity_id row))] None w1 = (y, w2)" by fastforce
          then have "case y of Inl e \<Rightarrow> w' = w2
               | Inr q \<Rightarrow> (\<exists>r2. db_commit (text_ok by) (set_approval i ?f) w2 = (r2, w'))"
            using run lk Inr Some pending False
            by (auto simp: approve_approval_def bnd_def now_def ret_def split: prod.splits sum.splits)
          with aw pending show ?thesis by (intro main [where f = ?f]) (auto intro: lifecycle.grant)
        qed
      qed
    qed
    with q show ?thesis using quiet_evolves ap_evolves_trans by blast
  qed
qed

lemma expire_stale_evolves: "stays ap_evolves (expire_stale E)"
  unfolding expire_stale_def
proof (intro ap_evolves.append_intros ap_evolves.stays_db_commit)
  fix tm and w :: world
  let ?f = "\<lambda>r. if stale tm r then r\<lparr>ap_status := ''expired''\<rparr> else r"
  have "lifecycle\<^sup>*\<^sup>* r (?f r)" for r by (auto simp: stale_def intro: lifecycle.expire)
  then have "list_all2 lifecycle\<^sup>*\<^sup>* (w_approvals w) (map ?f (w_approvals w))"
    by (simp add: list_all2_conv_all_nth)
  then show "ap_evolves w (w\<lparr>w_approvals := map ?f (w_approvals w)\<rparr>)"
    unfolding ap_evolves_def
    by (intro exI [of _ "map ?f (w_approvals w)"] exI [of _ "[]"]) simp
qed

section \<open>Redemption\<close>

lemma redeem_approval_success:
  assumes "redeem_approval aid i s t h w = (Inr None, w')"
  shows "\<exists>row w1. find_approval aid (w_approvals w) = Some row \<and> ap_status row = ''approved''
    \<and> \<not> ap_consumed row \<and> \<not> ap_expired row (w_clock w) \<and> ap_identity_id row = i
    \<and> ap_server_id row = s \<and> ap_tool_name row = t \<and> ap_arguments_hash row = h
    \<and> quiet w w1 \<and> w' = set_approval aid (\<lambda>r. r\<lparr>ap_consumed := True\<rparr>) w1"
proof -
  from assms obtain x w0 where lk: "locked aid w = (Inr x, w0)"
    by (auto simp: redeem_approval_def bnd_Inr_iff)
  then have q: "quiet w w0" and x: "x = find_approval aid (w_approvals w)"
    by (auto dest!: locked_Inr)
  from assms lk obtain row where row: "x = Some row"
    by (cases x) (auto simp: redeem_approval_def bnd_Inr_iff)
  from assms lk have *: "\<not> ap_consumed row" "\<not> ap_expired row (w_clock w0)"
    "ap_status row = ''approved''" "ap_identity_id row = i" "ap_server_id row = s"
    "ap_tool_name row = t" "ap_arguments_hash row = h"
    "db_commit True (set_approval aid (\<lambda>r. r\<lparr>ap_consumed := True\<rparr>)) w0 = (Inr (), w')"
    by (auto simp: row redeem_approval_def now_def bnd_Inr_iff bnd_def split: if_splits sum.splits prod.splits)
  from db_commit_Inr [OF *(8)] obtain w1 where "quiet w0 w1"
    "w' = set_approval aid (\<lambda>r. r\<lparr>ap_consumed := True\<rparr>) w1" by blast
  with q have w1: "quiet w w1 \<and> w' = set_approval aid (\<lambda>r. r\<lparr>ap_consumed := True\<rparr>) w1"
    using quiet_trans by blast
  from x row have "find_approval aid (w_approvals w) = Some row" by simp
  with * q w1 show ?thesis
    by (intro exI [of _ row] exI [of _ w1]) (simp add: quiet_fields)
qed

lemma redeem_approval_used:
  assumes "find_approval aid (w_approvals w) = Some row" and "ap_consumed row"
    and "redeem_approval aid i s t h w = (Inr r, w')"
  shows "r = Some (DENY_REPLAY, ''approval has already been used'')"
proof -
  from assms(3) obtain x w0 where lk: "locked aid w = (Inr x, w0)"
    by (auto simp: redeem_approval_def bnd_Inr_iff)
  with assms(1) have "x = Some row" by (auto dest!: locked_Inr)
  with assms(2,3) lk show ?thesis by (simp add: redeem_approval_def now_def bnd_def)
qed

lemma find_update_first:
  "List.find p rows = Some r \<Longrightarrow> p (f r) \<Longrightarrow> List.find p (update_first p f rows) = Some (f r)"
  by (induction rows) (auto split: if_splits)

lemma find_approval_set:
  "find_approval i (w_approvals w) = Some r \<Longrightarrow> ap_approval_id (f r) = ap_approval_id r \<Longrightarrow>
     find_approval i (w_approvals (set_approval i f w)) = Some (f r)"
proof -
  assume *: "find_approval i (w_approvals w) = Some r" "ap_approval_id (f r) = ap_approval_id r"
  then have "ap_approval_id r = i" by (auto simp: find_approval_def find_Some_iff)
  with * show ?thesis by (simp add: find_approval_def set_approval_def find_update_first)
qed

text \<open>The row a later table holds under an id is a later version of the row of that id.\<close>

lemma find_list_all2:
  assumes "list_all2 lifecycle\<^sup>*\<^sup>* rows old"
    and "find_approval i rows = Some r"
  shows "\<exists>r'. find_approval i (old @ new) = Some r' \<and> later_row r r'"
  using assms
proof (induction rule: list_all2_induct)
  case (Cons x xs y ys)
  then have y: "later_row x y" by (auto dest: lifecycle_star_later)
  show ?case
  proof (cases "ap_approval_id x = i")
    case True
    with Cons.prems y show ?thesis by (auto simp: find_approval_def later_row_def)
  next
    case False
    with Cons y show ?thesis by (auto simp: find_approval_def later_row_def)
  qed
qed (simp add: find_approval_def)

lemma find_evolves:
  "ap_evolves w w' \<Longrightarrow> find_approval i (w_approvals w) = Some r \<Longrightarrow>
     \<exists>r'. find_approval i (w_approvals w') = Some r' \<and> later_row r r'"
  unfolding ap_evolves_def using find_list_all2 by metis

section \<open>Properties\<close>

text \<open>
  C23: Creation, approval, redemption and the startup sweep, in any order and whatever fails in
  the middle, move every approval only along its lifecycle: pending to approved to consumed, or
  pending to expired, with everything else about the row fixed; new rows start pending.
\<close>
theorem approvals_follow_lifecycle:
  "stays ap_evolves (create_approval E i s t h n) \<and> stays ap_evolves (approve_approval E aid admin)
   \<and> stays ap_evolves (redeem_approval aid i s t h) \<and> stays ap_evolves (expire_stale E)"
  by (intro conjI create_approval_evolves approve_approval_evolves redeem_approval_evolves
      expire_stale_evolves)

text \<open>
  An approval is redeemed only if it was granted, is unexpired and unused, and names exactly
  this identity, server, tool and arguments hash; redemption marks it used.
\<close>
theorem approval_redeem_requires:
  assumes "redeem_approval aid i s t h w = (Inr None, w')"
  shows "\<exists>row. find_approval aid (w_approvals w) = Some row \<and> ap_status row = ''approved''
    \<and> \<not> ap_consumed row \<and> w_clock w \<le> ap_expires_at row
    \<and> (ap_identity_id row, ap_server_id row, ap_tool_name row, ap_arguments_hash row) = (i, s, t, h)
    \<and> find_approval aid (w_approvals w') = Some (row\<lparr>ap_consumed := True\<rparr>)"
proof -
  from redeem_approval_success [OF assms] obtain row w1 where *:
    "find_approval aid (w_approvals w) = Some row" "ap_status row = ''approved''" "\<not> ap_consumed row"
    "\<not> ap_expired row (w_clock w)" "ap_identity_id row = i" "ap_server_id row = s"
    "ap_tool_name row = t" "ap_arguments_hash row = h"
    "quiet w w1" "w' = set_approval aid (\<lambda>r. r\<lparr>ap_consumed := True\<rparr>) w1" by blast
  then have "find_approval aid (w_approvals w') = Some (row\<lparr>ap_consumed := True\<rparr>)"
    by (simp add: find_approval_set quiet_fields)
  with * show ?thesis by (auto simp: ap_expired_def)
qed

definition demo_approved :: world where
  "demo_approved = snd (approve_approval demo ''id0'' ''ops''
     (snd (create_approval demo ''bot'' ''srv'' ''write'' ''h'' 1 demo_world)))"

theorem approval_redeem_requires_witness:
  "\<exists>row. find_approval ''id0'' (w_approvals demo_approved) = Some row \<and> ap_status row = ''approved''
     \<and> \<not> ap_consumed row"
proof -
  have "fst (redeem_approval ''id0'' ''bot'' ''srv'' ''write'' ''h'' demo_approved) = Inr None" by code_simp
  then have "redeem_approval ''id0'' ''bot'' ''srv'' ''write'' ''h'' demo_approved
      = (Inr None, snd (redeem_approval ''id0'' ''bot'' ''srv'' ''write'' ''h'' demo_approved))"
    by (simp add: prod_eq_iff)
  from approval_redeem_requires [OF this] show ?thesis by blast
qed

text \<open>A redeemed approval stays used, for the call it was redeemed for, wherever the table evolves to.\<close>

lemma redeemed_stays_used:
  assumes "redeem_approval aid i s t h w1 = (Inr None, w1')" and "ap_evolves w1' w2"
  shows "\<exists>row. find_approval aid (w_approvals w2) = Some row \<and> ap_consumed row \<and> ap_status row = ''approved''
    \<and> ap_identity_id row = i \<and> ap_server_id row = s \<and> ap_tool_name row = t \<and> ap_arguments_hash row = h"
proof -
  from redeem_approval_success [OF assms(1)] obtain row w0 where
    row: "find_approval aid (w_approvals w1) = Some row" "quiet w1 w0"
      "w1' = set_approval aid (\<lambda>r. r\<lparr>ap_consumed := True\<rparr>) w0" and
    asked: "ap_status row = ''approved''" "ap_identity_id row = i" "ap_server_id row = s" "ap_tool_name row = t"
      "ap_arguments_hash row = h" by blast
  from row have "find_approval aid (w_approvals w1') = Some (row\<lparr>ap_consumed := True\<rparr>)"
    by (simp add: find_approval_set quiet_fields)
  from find_evolves [OF assms(2) this] asked show ?thesis by (auto simp: later_row_def)
qed

text \<open>
  An approval is redeemed at most once: after a successful redemption, in every state the
  table can evolve to, redeeming the same id is refused as a replay.
\<close>
theorem approval_one_time:
  assumes "redeem_approval aid i s t h w1 = (Inr None, w1')" and "ap_evolves w1' w2"
    and "redeem_approval aid i2 s2 t2 h2 w2 = (Inr r, w2')"
  shows "r = Some (DENY_REPLAY, ''approval has already been used'')"
proof -
  from redeemed_stays_used [OF assms(1,2)] obtain row where
    "find_approval aid (w_approvals w2) = Some row" "ap_consumed row" by blast
  with assms(3) show ?thesis by (rule redeem_approval_used [rotated 2])
qed

theorem approval_one_time_witness:
  "fst (redeem_approval ''id0'' ''bot'' ''srv'' ''write'' ''h''
     (snd (redeem_approval ''id0'' ''bot'' ''srv'' ''write'' ''h'' demo_approved)))
   = Inr (Some (DENY_REPLAY, ''approval has already been used''))"
proof -
  let ?m = "redeem_approval ''id0'' ''bot'' ''srv'' ''write'' ''h''"
  let ?w = "snd (?m demo_approved)"
  have "fst (?m demo_approved) = Inr None" by code_simp
  then have first: "?m demo_approved = (Inr None, ?w)" by (simp add: prod_eq_iff)
  have "isl (fst (?m ?w)) = False" by code_simp
  then obtain r where r: "fst (?m ?w) = Inr r" by (cases "fst (?m ?w)") auto
  then have "?m ?w = (Inr r, snd (?m ?w))" by (simp add: prod_eq_iff)
  from approval_one_time [OF first ap_evolves_same [OF refl] this]
  show ?thesis using r by simp
qed

text \<open>
  An approval that returns was pending and unexpired, is now granted in the name of the
  approver, and the log's newest row is the APPROVED record that says so, under the returned
  number.
\<close>
theorem approve_is_recorded:
  assumes "approve_approval E aid admin w = (Inr (seq, i, s, t), w')"
  shows "\<exists>row rec. find_approval aid (w_approvals w) = Some row \<and> ap_status row = ''pending''
    \<and> \<not> ap_expired row (w_clock w) \<and> (i, s, t) = (ap_identity_id row, ap_server_id row, ap_tool_name row)
    \<and> find_approval aid (w_approvals w')
        = Some (row\<lparr>ap_status := ''approved'', ap_approved_by := Some admin, ap_approved_at := Some (w_clock w)\<rparr>)
    \<and> w_audit w' \<noteq> [] \<and> rec = last (w_audit w') \<and> ar_seq rec = seq
    \<and> records E APPROVED admin (Some s) (Some t)
        [(''approval_id'', JStr aid), (''identity_id'', JStr i)] None (en_version (w_engine w)) rec"
proof -
  let ?f = "\<lambda>tm r. r\<lparr>ap_status := ''approved'', ap_approved_by := Some admin, ap_approved_at := Some tm\<rparr>"
  from assms obtain row w1 w2 w3 where
    lk: "locked aid w = (Inr (Some row), w1)"
    and row: "ap_status row = ''pending''" "\<not> ap_expired row (w_clock w1)"
      "i = ap_identity_id row" "s = ap_server_id row" "t = ap_tool_name row"
    and aw: "audit_write E APPROVED admin (Some s) (Some t)
      [(''approval_id'', JStr aid), (''identity_id'', JStr i)] None w1 = (Inr seq, w2)"
    and cm: "db_commit (text_ok admin) (set_approval aid (?f (w_clock w1))) w2 = (Inr (), w')"
    unfolding approve_approval_def now_def
    by (auto simp: bnd_Inr_iff split: option.splits if_splits)
  from lk have q: "quiet w w1" and f: "find_approval aid (w_approvals w) = Some row"
    by (auto dest!: locked_Inr)
  from cm obtain w3 where q2: "quiet w2 w3" and w': "w' = set_approval aid (?f (w_clock w1)) w3"
    by (auto dest!: db_commit_Inr)
  from audit_write_approvals [OF aw] f q q2 have "find_approval aid (w_approvals w3) = Some row"
    by (simp add: quiet_fields)
  then have "find_approval aid (w_approvals w') = Some (?f (w_clock w) row)"
    using q by (simp add: w' find_approval_set quiet_fields)
  moreover from audit_write_Inr [OF aw] obtain rows rec where
    "w_audit w2 = w_audit w1 @ rows @ [rec]" "ar_seq rec = seq"
    "records E APPROVED admin (Some s) (Some t)
        [(''approval_id'', JStr aid), (''identity_id'', JStr i)] None (en_version (w_engine w1)) rec"
    by blast
  moreover have "w_audit w' = w_audit w2" using q2 by (simp add: w' set_approval_def quiet_fields)
  ultimately show ?thesis
    using f row q by (intro exI [of _ row] exI [of _ rec]) (simp add: quiet_fields)
qed

theorem approve_is_recorded_witness:
  "\<exists>row. find_approval ''id0'' (w_approvals demo_approved) = Some row \<and> ap_approved_by row = Some ''ops''"
proof -
  let ?w = "snd (create_approval demo ''bot'' ''srv'' ''write'' ''h'' 1 demo_world)"
  have "fst (approve_approval demo ''id0'' ''ops'' ?w) = Inr (1, ''bot'', ''srv'', ''write'')" by code_simp
  then have "approve_approval demo ''id0'' ''ops'' ?w = (Inr (1, ''bot'', ''srv'', ''write''), demo_approved)"
    by (simp add: demo_approved_def prod_eq_iff)
  from approve_is_recorded [OF this] show ?thesis by auto
qed

end
