(* ===== verification/Schema.thy ===== *)
theory Schema
  imports Approvals
begin

text \<open>
  The tool schemas: the shared cache (\<open>schema_cache.py\<close>), the pruner of tools/list responses
  (\<open>schema_pruner.py\<close>) and the argument validator (\<open>param_validator.py\<close>). Tool lists and
  arguments come from the network, so they are arbitrary JSON here and every misuse raises what
  Python raises.
\<close>

section \<open>Iteration\<close>

text \<open>\<open>for x in v\<close>, and \<open>v.items()\<close>.\<close>

fun py_iter :: "json \<Rightarrow> json list res" where
  "py_iter (JList xs) = Inr xs"
| "py_iter (JObj d) = Inr (map (\<lambda>(k, v). JStr k) d)"
| "py_iter (JStr s) = Inr (map JStr (code_points s))"
| "py_iter _ = Inl TypeError"

fun py_items :: "json \<Rightarrow> (string \<times> json) list res" where
  "py_items (JObj d) = Inr d"
| "py_items _ = Inl AttributeError"

text \<open>\<open>set(v)\<close>: lists and dicts are not hashable.\<close>

fun hashable :: "json \<Rightarrow> bool" where
  "hashable (JList xs) = False"
| "hashable (JObj d) = False"
| "hashable _ = True"

definition py_set :: "json \<Rightarrow> json list res" where
  "py_set v = res_bnd (py_iter v) (\<lambda>xs. if list_all hashable xs then Inr xs else Inl TypeError)"

definition member :: "string \<Rightarrow> json list \<Rightarrow> bool" where
  "member k xs = (JStr k \<in> set xs)"

section \<open>The cache\<close>

definition schema_key :: "string \<Rightarrow> string" where
  "schema_key server_id = ''schema:'' @ server_id"

definition schema_hash :: "ext \<Rightarrow> json \<Rightarrow> string res" where
  "schema_hash E tools = canon_hash E tools"

definition cache_get :: "string \<Rightarrow> json option step" where
  "cache_get server_id =
     bnd (r_get (schema_key server_id)) (\<lambda>raw.
       case raw of
         None \<Rightarrow> ret None
       | Some v \<Rightarrow> bnd (lift_res (rval_loads v)) (\<lambda>tools. ret (Some tools)))"

definition cache_put :: "ext \<Rightarrow> string \<Rightarrow> json \<Rightarrow> string step" where
  "cache_put E server_id tools =
     bnd (lift_res (canon E tools)) (\<lambda>encoded.
     bnd (r_set_ex (schema_key server_id) (RDoc tools) (cf_schema_cache_ttl (x_cfg E))) (\<lambda>_.
     ret (x_sha256 E encoded)))"

definition cache_invalidate :: "string \<Rightarrow> unit step" where
  "cache_invalidate server_id = r_delete (schema_key server_id)"

section \<open>The pruner\<close>

text \<open>\<open>str(tool.get("name"))\<close>.\<close>

definition tool_name_of :: "ext \<Rightarrow> json \<Rightarrow> string res" where
  "tool_name_of E tool = res_bnd (py_get tool ''name'') (\<lambda>n. Inr (py_str (x_str_other E) n))"

fun prune_list :: "ext \<Rightarrow> json list \<Rightarrow> string option \<Rightarrow> string \<Rightarrow> engine \<Rightarrow> json list res" where
  "prune_list E [] identity_id server_id en = Inr []"
| "prune_list E (tool # tools) identity_id server_id en =
     res_bnd (tool_name_of E tool) (\<lambda>name.
     res_bnd (prune_list E tools identity_id server_id en) (\<lambda>rest.
       Inr (if is_allowed en identity_id server_id name then tool # rest else rest)))"

definition prune :: "ext \<Rightarrow> json \<Rightarrow> string option \<Rightarrow> string \<Rightarrow> engine \<Rightarrow> json list res" where
  "prune E tools identity_id server_id en =
     res_bnd (py_iter tools) (\<lambda>ts. prune_list E ts identity_id server_id en)"

section \<open>The validator\<close>

text \<open>
  The pattern: a parent-directory sequence with either slash, or an ASCII control character
  other than tab, line feed and carriage return.
\<close>

definition is_control :: "char \<Rightarrow> bool" where
  "is_control c = (byte c \<le> 8 \<or> byte c = 11 \<or> byte c = 12 \<or> 14 \<le> byte c \<and> byte c \<le> 31 \<or> byte c = 127)"

definition injects :: "string \<Rightarrow> bool" where
  "injects s = (is_infix_of ''../'' s \<or> is_infix_of [CHR ''.'', CHR ''.'', CHR 0x5C] s \<or> list_ex is_control s)"

definition field_path :: "string \<Rightarrow> string \<Rightarrow> string" where
  "field_path path k = (if path \<noteq> [] then path @ ''.'' @ k else k)"

definition item_path :: "string \<Rightarrow> nat \<Rightarrow> string" where
  "item_path path i = path @ ''['' @ dec_nat i @ '']''"

text \<open>\<open>if hit := ...\<close>: a hit is a path that is not empty.\<close>

definition or_else :: "string option \<Rightarrow> string option \<Rightarrow> string option" where
  "or_else hit rest = (case hit of Some (c # cs) \<Rightarrow> Some (c # cs) | _ \<Rightarrow> rest)"

fun find_injection :: "json \<Rightarrow> string \<Rightarrow> string option"
  and find_in_fields :: "(string \<times> json) list \<Rightarrow> string \<Rightarrow> string option"
  and find_in_items :: "json list \<Rightarrow> nat \<Rightarrow> string \<Rightarrow> string option" where
  "find_injection (JStr s) path = (if injects s then Some path else None)"
| "find_injection (JObj d) path = find_in_fields d path"
| "find_injection (JList xs) path = find_in_items xs 0 path"
| "find_injection JNull path = None"
| "find_injection (JBool b) path = None"
| "find_injection (JInt i) path = None"
| "find_injection (JFloat f) path = None"
| "find_in_fields [] path = None"
| "find_in_fields ((k, v) # d) path =
     or_else (find_injection v (field_path path k)) (find_in_fields d path)"
| "find_in_items [] i path = None"
| "find_in_items (v # xs) i path =
     or_else (find_injection v (item_path path i)) (find_in_items xs (Suc i) path)"

fun find_in_arguments :: "(string \<times> json) list \<Rightarrow> string option" where
  "find_in_arguments [] = None"
| "find_in_arguments ((key, v) # d) = or_else (find_injection v key) (find_in_arguments d)"

text \<open>
  \<open>sorted(set(arguments) - set(properties))\<close>, printed. Elements that are not strings can only
  come from arguments that are not an object.
\<close>

definition show_unknown :: "ext \<Rightarrow> json list \<Rightarrow> string res" where
  "show_unknown E xs =
     (if list_all is_str xs
      then Inr (''['' @ join '', '' (map py_repr (sort (map (\<lambda>x. case x of JStr s \<Rightarrow> s | _ \<Rightarrow> []) xs))) @ '']'')
      else if length xs = 1 \<or> list_all (\<lambda>x. num_of x \<noteq> None) xs then Inr (x_str_other E (JList xs))
      else Inl TypeError)"

definition unknown_fields :: "json \<Rightarrow> (string \<times> json) list \<Rightarrow> json list res" where
  "unknown_fields arguments properties =
     res_bnd (py_set arguments) (\<lambda>xs.
       Inr (remdups (filter (\<lambda>x. case x of JStr k \<Rightarrow> map_of properties k = None | _ \<Rightarrow> True) xs)))"

definition validate_arguments :: "ext \<Rightarrow> json \<Rightarrow> json \<Rightarrow> string option res" where
  "validate_arguments E arguments input_schema =
     (case x_jsonschema E arguments input_schema of
        ValidatorRaises e \<Rightarrow> Inl e
      | ValidationError msg \<Rightarrow> Inr (Some (''schema validation failed: '' @ msg))
      | SchemaError msg \<Rightarrow> Inr (Some (''tool schema itself is invalid: '' @ msg))
      | Valid \<Rightarrow>
          res_bnd (py_items arguments) (\<lambda>d.
            Inr (case find_in_arguments d of
                None \<Rightarrow> None
              | Some hit \<Rightarrow>
                  Some (''path traversal or control character in argument '' @ py_repr hit))))"

definition validate :: "ext \<Rightarrow> json \<Rightarrow> json \<Rightarrow> string option res" where
  "validate E arguments input_schema =
     res_bnd (py_get input_schema ''properties'') (\<lambda>properties.
       case properties of
         JObj ps \<Rightarrow>
           res_bnd (unknown_fields arguments ps) (\<lambda>unknown.
             if unknown \<noteq> []
             then res_bnd (show_unknown E unknown) (\<lambda>s. Inr (Some (''unknown argument field(s): '' @ s)))
             else validate_arguments E arguments input_schema)
       | _ \<Rightarrow> validate_arguments E arguments input_schema)"

section \<open>Facts\<close>

text \<open>The strings of a document, at any depth.\<close>

fun strings_in :: "json \<Rightarrow> string set"
  and strings_in_fields :: "(string \<times> json) list \<Rightarrow> string set"
  and strings_in_items :: "json list \<Rightarrow> string set" where
  "strings_in (JStr s) = {s}"
| "strings_in (JObj d) = strings_in_fields d"
| "strings_in (JList xs) = strings_in_items xs"
| "strings_in JNull = {}"
| "strings_in (JBool b) = {}"
| "strings_in (JInt i) = {}"
| "strings_in (JFloat f) = {}"
| "strings_in_fields [] = {}"
| "strings_in_fields ((k, v) # d) = strings_in v \<union> strings_in_fields d"
| "strings_in_items [] = {}"
| "strings_in_items (v # xs) = strings_in v \<union> strings_in_items xs"

lemma or_else_None [simp]: "or_else hit rest = None \<longleftrightarrow> (hit = None \<or> hit = Some []) \<and> rest = None"
  by (auto simp: or_else_def split: option.splits list.splits)

lemma field_path_nonempty [simp]: "path \<noteq> [] \<Longrightarrow> field_path path k \<noteq> []"
  by (simp add: field_path_def)

lemma item_path_nonempty [simp]: "item_path path i \<noteq> []"
  by (simp add: item_path_def)

lemma or_else_nonempty [simp]: "or_else hit rest \<noteq> Some [] \<longleftrightarrow> rest \<noteq> Some [] \<or> (hit \<noteq> None \<and> hit \<noteq> Some [])"
  by (auto simp: or_else_def split: option.splits list.splits)

lemma find_injection_nonempty:
  "path \<noteq> [] \<Longrightarrow> find_injection v path \<noteq> Some []"
  "path \<noteq> [] \<Longrightarrow> find_in_fields d path \<noteq> Some []"
  "find_in_items xs i path \<noteq> Some []"
  by (induction v path and d path and xs i path
      rule: find_injection_find_in_fields_find_in_items.induct) (auto split: if_splits)

lemma find_injection_None:
  "path \<noteq> [] \<Longrightarrow> find_injection v path = None \<longleftrightarrow> (\<forall>s \<in> strings_in v. \<not> injects s)"
  "path \<noteq> [] \<Longrightarrow> find_in_fields d path = None \<longleftrightarrow> (\<forall>s \<in> strings_in_fields d. \<not> injects s)"
  "find_in_items xs i path = None \<longleftrightarrow> (\<forall>s \<in> strings_in_items xs. \<not> injects s)"
proof (induction v path and d path and xs i path
      rule: find_injection_find_in_fields_find_in_items.induct)
  case (9 k v d path)
  then show ?case using find_injection_nonempty(1) [of "field_path path k" v] by auto
next
  case (11 v xs i path)
  then show ?case using find_injection_nonempty(1) [of "item_path path i" v] by auto
qed (auto split: if_splits)

lemma find_in_arguments_None:
  "find_in_arguments d = None \<Longrightarrow> (k, v) \<in> set d \<Longrightarrow> k \<noteq> [] \<Longrightarrow> \<forall>s \<in> strings_in v. \<not> injects s"
proof (induction d)
  case (Cons kv d)
  show ?case
  proof (cases "kv = (k, v)")
    case True
    with Cons.prems find_injection_nonempty(1) [of k v] have "find_injection v k = None" by auto
    with Cons.prems(3) show ?thesis by (simp add: find_injection_None(1))
  next
    case False
    with Cons show ?thesis by (cases kv) auto
  qed
qed simp

lemma prune_list_Inr:
  "prune_list E tools i s en = Inr served \<Longrightarrow>
     served = filter (\<lambda>t. \<exists>n. tool_name_of E t = Inr n \<and> is_allowed en i s n) tools
     \<and> (\<forall>t \<in> set tools. \<exists>n. tool_name_of E t = Inr n)"
  by (induction tools arbitrary: served) (auto simp: res_bnd_Inr_iff)

section \<open>Properties\<close>

text \<open>
  A pruned tools/list holds exactly the tools of the upstream's list the identity may call,
  in the same order; a list with an element that has no name field to read is refused.
\<close>
theorem prune_exact:
  assumes "prune E (JList tools) i s en = Inr served"
  shows "served = filter (\<lambda>t. \<exists>n. tool_name_of E t = Inr n \<and> matching_grant en i s n \<noteq> None) tools
    \<and> (\<forall>t \<in> set tools. is_dict t)"
proof -
  from assms have "prune_list E tools i s en = Inr served" by (simp add: prune_def)
  from prune_list_Inr [OF this] show ?thesis
    by (auto simp: is_allowed_def tool_name_of_def res_bnd_Inr_iff py_get_Inr_iff is_dict_def)
qed

definition demo_tool :: "string \<Rightarrow> json" where
  "demo_tool n = JObj [(''name'', JStr n), (''description'', JStr ''does things''),
     (''inputSchema'', JObj [(''properties'', JObj [(''path'', JObj [(''type'', JStr ''string'')])])])]"

theorem prune_exact_witness:
  "prune demo (JList [demo_tool ''rm'', demo_tool ''read'']) (Some ''ops'') ''srv'' demo_engine
     = Inr [demo_tool ''read'']
   \<and> [demo_tool ''read''] = filter (\<lambda>t. \<exists>n. tool_name_of demo t = Inr n
       \<and> matching_grant demo_engine (Some ''ops'') ''srv'' n \<noteq> None) [demo_tool ''rm'', demo_tool ''read'']"
proof -
  have run: "prune demo (JList [demo_tool ''rm'', demo_tool ''read'']) (Some ''ops'') ''srv'' demo_engine
     = Inr [demo_tool ''read'']" by code_simp
  with prune_exact [OF run] show ?thesis by blast
qed

text \<open>
  Arguments that pass validation have no field outside the schema's properties (whatever the
  schema says of additional properties), satisfy the schema, and carry no path traversal and no
  control character in any string at any depth under a non-empty argument name.
\<close>
theorem validated_arguments:
  assumes "validate E (JObj args) schema = Inr None"
  shows "x_jsonschema E (JObj args) schema = Valid
    \<and> (\<forall>ps. py_get schema ''properties'' = Inr (JObj ps) \<longrightarrow> set (map fst args) \<subseteq> set (map fst ps))
    \<and> (\<forall>(k, v) \<in> set args. k \<noteq> [] \<longrightarrow> (\<forall>s \<in> strings_in v. \<not> injects s))"
proof -
  from assms obtain properties where ps: "py_get schema ''properties'' = Inr properties"
    by (auto simp: validate_def res_bnd_Inr_iff)
  with assms have ok: "validate_arguments E (JObj args) schema = Inr None"
    by (auto simp: validate_def res_bnd_Inr_iff split: json.splits if_splits)
  then have "x_jsonschema E (JObj args) schema = Valid" and free: "find_in_arguments args = None"
    by (auto simp: validate_arguments_def split: schema_result.splits option.splits)
  moreover have "set (map fst args) \<subseteq> set (map fst ds)" if "properties = JObj ds" for ds
  proof -
    from assms ps that have "unknown_fields (JObj args) ds = Inr []"
      by (auto simp: validate_def res_bnd_Inr_iff split: if_splits)
    then show ?thesis
      by (auto simp: unknown_fields_def py_set_def filter_empty_conv res_bnd_Inr_iff map_of_eq_None_iff
          split: if_splits)
  qed
  ultimately show ?thesis using ps find_in_arguments_None [OF free] by auto
qed

theorem validated_arguments_witness:
  "validate demo (JObj [(''path'', JStr ''docs/readme'')])
      (JObj [(''properties'', JObj [(''path'', JObj [])])]) = Inr None
   \<and> \<not> injects ''docs/readme''"
proof -
  have ok: "validate demo (JObj [(''path'', JStr ''docs/readme'')])
      (JObj [(''properties'', JObj [(''path'', JObj [])])]) = Inr None" by code_simp
  from validated_arguments [OF this] ok show ?thesis by simp
qed

text \<open>
  The scan misses an argument whose name is the empty string: the path of the hit is then
  empty, and an empty path counts as no hit.
\<close>
theorem empty_name_evades_injection_scan:
  "injects ''../../etc/passwd''
   \<and> validate demo (JObj [('''', JStr ''../../etc/passwd'')]) (JObj []) = Inr None"
  by code_simp

end
