(* ===== verification/Drift.thy ===== *)
theory Drift
  imports Schema
begin

text \<open>
  The drift detector (\<open>drift_detector.py\<close>): hashes, the severity classification, the heuristics
  over descriptions (the four regular expressions, as matchers over code points), the check of a
  freshly observed tools list against the stored baselines, the status queries and re-approval.
\<close>

section \<open>Hashes\<close>

definition REMOVED_SENTINEL :: string where
  "REMOVED_SENTINEL = replicate 64 CHR ''-''"

definition tool_hash :: "ext \<Rightarrow> json \<Rightarrow> string res" where
  "tool_hash E tool = canon_hash E tool"

fun strip_titles :: "json \<Rightarrow> json"
  and strip_fields :: "(string \<times> json) list \<Rightarrow> (string \<times> json) list"
  and strip_items :: "json list \<Rightarrow> json list" where
  "strip_titles (JObj d) = JObj (strip_fields d)"
| "strip_titles (JList xs) = JList (strip_items xs)"
| "strip_titles JNull = JNull"
| "strip_titles (JBool b) = JBool b"
| "strip_titles (JInt i) = JInt i"
| "strip_titles (JFloat f) = JFloat f"
| "strip_titles (JStr s) = JStr s"
| "strip_fields [] = []"
| "strip_fields ((k, v) # d) =
     (if k \<noteq> ''title'' then (k, strip_titles v) # strip_fields d else strip_fields d)"
| "strip_items [] = []"
| "strip_items (v # xs) = strip_titles v # strip_items xs"

definition shape_hash :: "ext \<Rightarrow> json \<Rightarrow> string res" where
  "shape_hash E tool =
     res_bnd (py_items tool) (\<lambda>d.
       tool_hash E (JObj (map (\<lambda>(k, v). (k, strip_titles v)) (filter (\<lambda>(k, v). k \<noteq> ''name'') d))))"

section \<open>Classification\<close>

text \<open>\<open>v.get(k) or {}\<close>, used as a dict.\<close>

definition get_dict :: "json \<Rightarrow> string \<Rightarrow> (string \<times> json) list res" where
  "get_dict v k = res_bnd (py_get v k) (\<lambda>x. py_items (py_or x (JObj [])))"

definition get_set :: "json \<Rightarrow> string \<Rightarrow> json list res" where
  "get_set v k = res_bnd (py_get v k) (\<lambda>x. py_set (py_or x (JList [])))"

text \<open>The severity of one property both schemas have; None when it is unchanged.\<close>

definition property_change :: "json \<Rightarrow> json \<Rightarrow> severity option res" where
  "property_change old new =
     res_bnd (py_get old ''type'') (\<lambda>ot.
     res_bnd (py_get new ''type'') (\<lambda>nt.
       Inr (if \<not> py_eq ot nt then Some CRITICAL else if \<not> py_eq old new then Some LOW else None)))"

fun property_changes ::
  "(string \<times> json) list \<Rightarrow> (string \<times> json) list \<Rightarrow> severity list res"
where
  "property_changes [] new = Inr []"
| "property_changes ((k, v) # old) new =
     (case map_of new k of
        None \<Rightarrow> property_changes old new
      | Some v' \<Rightarrow>
          res_bnd (property_change v v') (\<lambda>s.
          res_bnd (property_changes old new) (\<lambda>ss.
            Inr (case s of None \<Rightarrow> ss | Some x \<Rightarrow> x # ss))))"

definition added_properties :: "(string \<times> json) list \<Rightarrow> (string \<times> json) list \<Rightarrow> json list \<Rightarrow> severity list" where
  "added_properties old new new_required =
     map (\<lambda>(k, v). if member k new_required then CRITICAL else MEDIUM)
       (filter (\<lambda>(k, v). map_of old k = None) new)"

definition severities ::
  "ext \<Rightarrow> bool \<Rightarrow> (string \<times> json) list \<Rightarrow> (string \<times> json) list \<Rightarrow> json list \<Rightarrow> json list
     \<Rightarrow> severity list res"
where
  "severities E described old_props new_props old_required new_required =
     res_bnd (property_changes old_props new_props) (\<lambda>changes.
       Inr ((if described then [cf_drift_description_severity (x_cfg E)] else [])
         @ added_properties old_props new_props new_required
         @ (if list_ex (\<lambda>(k, v). map_of new_props k = None) old_props then [HIGH] else [])
         @ changes
         @ (if list_ex (\<lambda>(k, v). map_of new_props k \<noteq> None
                         \<and> member k old_required \<noteq> member k new_required) old_props
            then [CRITICAL] else [])))"

definition classify :: "ext \<Rightarrow> json \<Rightarrow> json \<Rightarrow> severity option res" where
  "classify E old new =
     res_bnd (py_get old ''description'') (\<lambda>od.
     res_bnd (py_get new ''description'') (\<lambda>nd.
     res_bnd (py_get old ''inputSchema'') (\<lambda>os.
     res_bnd (py_get new ''inputSchema'') (\<lambda>ns.
     let old_schema = py_or os (JObj []); new_schema = py_or ns (JObj []) in
     res_bnd (get_dict old_schema ''properties'') (\<lambda>old_props.
     res_bnd (get_dict new_schema ''properties'') (\<lambda>new_props.
     res_bnd (get_set old_schema ''required'') (\<lambda>old_required.
     res_bnd (get_set new_schema ''required'') (\<lambda>new_required.
     res_bnd (severities E (\<not> py_eq od nd) old_props new_props old_required new_required) (\<lambda>ss.
       if ss \<noteq> [] then Inr (Some (fold max ss LOW))
       else
         res_bnd (tool_hash E old) (\<lambda>oh.
         res_bnd (tool_hash E new) (\<lambda>nh.
           Inr (if oh \<noteq> nh then Some HIGH else None))))))))))))"

section \<open>Description heuristics\<close>

text \<open>
  A pattern is a sequence of atoms over code points: a word boundary, one of several literal
  texts ignoring case, a gap of at most so many characters, a run of characters of a class.
\<close>

datatype atom =
    Boundary
  | OneOf "string list"
  | Gap nat
  | Run "string \<Rightarrow> bool" nat "nat option"

definition is_word_ascii :: "char \<Rightarrow> bool" where
  "is_word_ascii c = (48 \<le> byte c \<and> byte c \<le> 57 \<or> 65 \<le> byte c \<and> byte c \<le> 90 \<or> byte c = 95
     \<or> 97 \<le> byte c \<and> byte c \<le> 122)"

definition is_word :: "ext \<Rightarrow> string \<Rightarrow> bool" where
  "is_word E p = (case p of [c] \<Rightarrow> is_word_ascii c | _ \<Rightarrow> x_word E p)"

text \<open>
  A lower-case ASCII letter matches both its cases and the four further letters that fold to
  \<open>i\<close>, \<open>s\<close> and \<open>k\<close> (U+0130, U+0131, U+017F, U+212A).
\<close>

definition same_letter :: "char \<Rightarrow> string \<Rightarrow> bool" where
  "same_letter c p =
     (p = [c] \<or> map upper_char p = [upper_char c]
      \<or> c = CHR ''i'' \<and> (p = [CHR 0xC4, CHR 0xB0] \<or> p = [CHR 0xC4, CHR 0xB1])
      \<or> c = CHR ''s'' \<and> p = [CHR 0xC5, CHR 0xBF]
      \<or> c = CHR ''k'' \<and> p = [CHR 0xE2, CHR 0x84, CHR 0xAA])"

fun after_literal :: "string \<Rightarrow> string list \<Rightarrow> string list option" where
  "after_literal [] ps = Some ps"
| "after_literal (c # cs) [] = None"
| "after_literal (c # cs) (p # ps) = (if same_letter c p then after_literal cs ps else None)"

definition last_or :: "string option \<Rightarrow> string list \<Rightarrow> string option" where
  "last_or prev ps = (if ps = [] then prev else Some (last ps))"

fun atoms_match :: "ext \<Rightarrow> atom list \<Rightarrow> string option \<Rightarrow> string list \<Rightarrow> bool" where
  "atoms_match E [] prev ps = True"
| "atoms_match E (Boundary # as) prev ps =
     ((case prev of None \<Rightarrow> False | Some p \<Rightarrow> is_word E p)
        \<noteq> (case ps of [] \<Rightarrow> False | p # _ \<Rightarrow> is_word E p)
      \<and> atoms_match E as prev ps)"
| "atoms_match E (OneOf ws # as) prev ps =
     list_ex (\<lambda>w. case after_literal w ps of None \<Rightarrow> False
       | Some rest \<Rightarrow> atoms_match E as (last_or prev (take (length ps - length rest) ps)) rest) ws"
| "atoms_match E (Gap n # as) prev ps =
     list_ex (\<lambda>k. atoms_match E as (last_or prev (take k ps)) (drop k ps)) [0..<min n (length ps) + 1]"
| "atoms_match E (Run c lo hi # as) prev ps =
     list_ex (\<lambda>k. list_all c (take k ps) \<and> atoms_match E as (last_or prev (take k ps)) (drop k ps))
       [lo..<(case hi of None \<Rightarrow> length ps | Some h \<Rightarrow> min h (length ps)) + 1]"

fun search_from :: "ext \<Rightarrow> atom list \<Rightarrow> string option \<Rightarrow> string list \<Rightarrow> bool" where
  "search_from E as prev [] = atoms_match E as prev []"
| "search_from E as prev (p # ps) =
     (atoms_match E as prev (p # ps) \<or> search_from E as (Some p) ps)"

definition hidden_char :: "string \<Rightarrow> bool" where
  "hidden_char p =
     ([CHR 0xE2, CHR 0x80, CHR 0x8B] \<le> p \<and> p \<le> [CHR 0xE2, CHR 0x80, CHR 0x8F]
      \<or> [CHR 0xE2, CHR 0x81, CHR 0xA0] \<le> p \<and> p \<le> [CHR 0xE2, CHR 0x81, CHR 0xA4]
      \<or> [CHR 0xE2, CHR 0x80, CHR 0xAA] \<le> p \<and> p \<le> [CHR 0xE2, CHR 0x80, CHR 0xAE]
      \<or> p = [CHR 0xEF, CHR 0xBB, CHR 0xBF])"

definition base64_char :: "string \<Rightarrow> bool" where
  "base64_char p = (case p of
     [c] \<Rightarrow> is_word_ascii c \<and> c \<noteq> CHR ''_'' \<or> c = CHR ''+'' \<or> c = CHR ''/'' | _ \<Rightarrow> False)"

text \<open>Each pattern: its alternatives and its label.\<close>

definition SUSPICIOUS_PATTERNS :: "(atom list list \<times> string) list" where
  "SUSPICIOUS_PATTERNS =
     [([[Boundary, OneOf [''ignore'', ''disregard'', ''forget''], Boundary, Gap 40, Boundary,
         OneOf [''previous'', ''prior'', ''above'', ''all''], Boundary, Gap 40, Boundary,
         OneOf [''instructions''], Boundary]],
       ''instruction-override phrasing''),
      ([[Boundary, OneOf [''you are now''], Boundary],
        [Boundary, OneOf [''system prompt''], Boundary],
        [Boundary, OneOf [''do not tell'', ''do not reveal'', ''do not mention''], Boundary]],
       ''imperative text aimed at a model''),
      ([[Run hidden_char 1 (Some 1)]], ''hidden/zero-width or bidi-control unicode''),
      ([[Boundary, Run base64_char 80 None, Run (\<lambda>p. p = ''='') 0 (Some 2), Boundary]],
       ''long base64-looking blob (possible encoded payload)'')]"

definition pattern_found :: "ext \<Rightarrow> atom list list \<Rightarrow> string \<Rightarrow> bool" where
  "pattern_found E alts s = list_ex (\<lambda>as. search_from E as None (code_points s)) alts"

text \<open>The description strings nested in a document, with their paths.\<close>

fun texts :: "json \<Rightarrow> string \<Rightarrow> (string \<times> string) list"
  and texts_fields :: "(string \<times> json) list \<Rightarrow> string \<Rightarrow> (string \<times> string) list"
  and texts_items :: "json list \<Rightarrow> nat \<Rightarrow> string \<Rightarrow> (string \<times> string) list" where
  "texts (JObj d) path =
     (case map_of d ''description'' of Some (JStr s) \<Rightarrow> [(path @ ''.description'', s)] | _ \<Rightarrow> [])
     @ texts_fields d path"
| "texts (JList xs) path = texts_items xs 0 path"
| "texts JNull path = []"
| "texts (JBool b) path = []"
| "texts (JInt i) path = []"
| "texts (JFloat f) path = []"
| "texts (JStr s) path = []"
| "texts_fields [] path = []"
| "texts_fields ((k, v) # d) path =
     (if k \<noteq> ''description'' then texts v (path @ ''.'' @ k) else []) @ texts_fields d path"
| "texts_items [] i path = []"
| "texts_items (v # xs) i path = texts v (item_path path i) @ texts_items xs (Suc i) path"

definition scan_descriptions :: "ext \<Rightarrow> json \<Rightarrow> string list res" where
  "scan_descriptions E tool =
     res_bnd (py_get tool ''description'') (\<lambda>description.
     res_bnd (py_get tool ''inputSchema'') (\<lambda>schema.
     let candidates = (case description of JStr s \<Rightarrow> [(''description'', s)] | _ \<Rightarrow> [])
                        @ texts schema ''inputSchema''
     in Inr (concat (map (\<lambda>(path, s).
          map (\<lambda>(alts, label). label @ '' in '' @ path)
            (filter (\<lambda>(alts, label). pattern_found E alts s) SUSPICIOUS_PATTERNS)) candidates))))"

section \<open>The detector\<close>

text \<open>
  The session of one check: the baselines loaded at its start (changed in place), the rows it
  adds, the sources of renames, and every document it is about to store.
\<close>

record drift_session =
  ds_rows :: "(string \<times> tool_baseline) list"
  ds_added :: "tool_baseline list"
  ds_renamed :: "string list"
  ds_docs :: "json list"

definition live_tools :: "ext \<Rightarrow> json \<Rightarrow> (string \<times> json) list res" where
  "live_tools E tools =
     res_bnd (py_iter tools) (\<lambda>ts.
     res_bnd (res_map (\<lambda>t. res_bnd (tool_name_of E t) (\<lambda>n. Inr (n, t))) ts) (\<lambda>pairs.
       Inr (dict_of pairs)))"

fun rename_source ::
  "ext \<Rightarrow> (string \<times> json) list \<Rightarrow> json \<Rightarrow> (string \<times> tool_baseline) list \<Rightarrow> string option res"
where
  "rename_source E live tool [] = Inr None"
| "rename_source E live tool ((n, row) # rows) =
     (if map_of live (bl_tool_name row) \<noteq> None then rename_source E live tool rows
      else
        res_bnd (shape_hash E (bl_approved_schema row)) (\<lambda>old.
        res_bnd (shape_hash E tool) (\<lambda>new.
          if old = new then Inr (Some (bl_tool_name row)) else rename_source E live tool rows)))"

definition drift_write ::
  "ext \<Rightarrow> event_type \<Rightarrow> string \<Rightarrow> string \<Rightarrow> string \<Rightarrow> (string \<times> json) list \<Rightarrow> int step"
where
  "drift_write E ev identity_id server_id name extra =
     audit_write E ev identity_id (Some server_id) (Some name) extra None"

definition first_sighting ::
  "ext \<Rightarrow> string \<Rightarrow> string \<Rightarrow> (string \<times> json) list \<Rightarrow> drift_session \<Rightarrow> string \<Rightarrow> json
     \<Rightarrow> drift_session step"
where
  "first_sighting E identity_id server_id live st name tool =
     bnd (lift_res (tool_hash E tool)) (\<lambda>live_hash.
     bnd (lift_res (scan_descriptions E tool)) (\<lambda>findings.
     bnd (if findings \<noteq> [] then
            bnd (drift_write E BASELINE_FLAGGED identity_id server_id name
                   [(''findings'', JList (map JStr findings))]) (\<lambda>_. ret ())
          else ret ()) (\<lambda>_.
     bnd (lift_res (rename_source E live tool (ds_rows st))) (\<lambda>source.
     let row = \<lparr>bl_server_id = server_id, bl_tool_name = name, bl_approved_schema = x_jsonb E tool,
           bl_approved_hash = live_hash, bl_blocked = False, bl_observed_schema = None,
           bl_observed_hash = None, bl_suspicious = findings \<noteq> []\<rparr> in
     case source of
       None \<Rightarrow> ret (st\<lparr>ds_added := ds_added st @ [row], ds_docs := ds_docs st @ [tool]\<rparr>)
     | Some old_name \<Rightarrow>
         bnd (drift_write E DRIFT_CRITICAL identity_id server_id name
                [(''severity'', JStr ''critical''), (''renamed_from'', JStr old_name),
                 (''observed_hash'', JStr live_hash), (''blocked'', JBool True)]) (\<lambda>_.
         bnd (emit (SchemaDrift server_id name ''critical'')) (\<lambda>_.
         ret (st\<lparr>ds_renamed := old_name # ds_renamed st,
                ds_added := ds_added st @ [row\<lparr>bl_blocked := True,
                  bl_observed_schema := Some (x_jsonb E tool), bl_observed_hash := Some live_hash\<rparr>],
                ds_docs := ds_docs st @ [tool]\<rparr>)))))))"

definition set_row :: "string \<Rightarrow> tool_baseline \<Rightarrow> drift_session \<Rightarrow> drift_session" where
  "set_row name row st = st\<lparr>ds_rows := AList.update name row (ds_rows st)\<rparr>"

definition check_tool ::
  "ext \<Rightarrow> string \<Rightarrow> string \<Rightarrow> (string \<times> json) list \<Rightarrow> drift_session \<Rightarrow> string \<times> json
     \<Rightarrow> drift_session step"
where
  "check_tool E identity_id server_id live st nt =
     (case nt of (name, tool) \<Rightarrow>
       case map_of (ds_rows st) name of
         None \<Rightarrow> first_sighting E identity_id server_id live st name tool
       | Some row \<Rightarrow>
           bnd (lift_res (tool_hash E tool)) (\<lambda>live_hash.
           if live_hash = bl_approved_hash row then
             (if bl_observed_hash row \<noteq> None
              then ret (set_row name (row\<lparr>bl_observed_hash := None, bl_observed_schema := None,
                          bl_blocked := False\<rparr>) st)
              else ret st)
           else if bl_observed_hash row = Some live_hash then ret st
           else
             bnd (lift_res (classify E (bl_approved_schema row) tool)) (\<lambda>c.
             let severity = (case c of None \<Rightarrow> HIGH | Some s \<Rightarrow> s) in
             bnd (drift_write E (severity_event severity) identity_id server_id name
                    [(''severity'', JStr (severity_lower severity)),
                     (''approved_hash'', JStr (bl_approved_hash row)),
                     (''observed_hash'', JStr live_hash),
                     (''blocked'', JBool (severity_blocks severity))]) (\<lambda>_.
             bnd (emit (SchemaDrift server_id name (severity_lower severity))) (\<lambda>_.
             ret ((set_row name
                    (row\<lparr>bl_observed_schema := Some (x_jsonb E tool), bl_observed_hash := Some live_hash,
                         bl_blocked := bl_blocked row \<or> severity_blocks severity\<rparr>) st)
                  \<lparr>ds_docs := ds_docs st @ [tool]\<rparr>))))))"

definition check_removed ::
  "ext \<Rightarrow> string \<Rightarrow> string \<Rightarrow> (string \<times> json) list \<Rightarrow> drift_session \<Rightarrow> string \<times> tool_baseline
     \<Rightarrow> drift_session step"
where
  "check_removed E identity_id server_id live st nr =
     (case nr of (name, row) \<Rightarrow>
       if map_of live name \<noteq> None \<or> name \<in> set (ds_renamed st) then ret st
       else if bl_observed_hash row \<noteq> Some REMOVED_SENTINEL then
         bnd (drift_write E DRIFT_MEDIUM identity_id server_id name
                [(''severity'', JStr ''medium''), (''removed'', JBool True)]) (\<lambda>_.
         bnd (emit (SchemaDrift server_id name ''medium'')) (\<lambda>_.
         ret (set_row name (row\<lparr>bl_observed_hash := Some REMOVED_SENTINEL,
                bl_observed_schema := None\<rparr>) st)))
       else ret st)"

definition load_baselines :: "string \<Rightarrow> world \<Rightarrow> (string \<times> tool_baseline) list" where
  "load_baselines server_id w =
     dict_of (map (\<lambda>r. (bl_tool_name r, r)) (filter (\<lambda>r. bl_server_id r = server_id) (w_baselines w)))"

text \<open>The flush at commit: changed rows by primary key, added rows appended.\<close>

definition store_session :: "string \<Rightarrow> drift_session \<Rightarrow> world \<Rightarrow> world" where
  "store_session server_id st w = w\<lparr>w_baselines :=
     map (\<lambda>r. if bl_server_id r = server_id
              then (case map_of (ds_rows st) (bl_tool_name r) of None \<Rightarrow> r | Some r' \<Rightarrow> r') else r)
         (w_baselines w) @ ds_added st\<rparr>"

definition drift_check :: "ext \<Rightarrow> string \<Rightarrow> json \<Rightarrow> string \<Rightarrow> unit step" where
  "drift_check E server_id tools identity_id =
     bnd (lift_res (live_tools E tools)) (\<lambda>live.
     bnd (db_read [server_id] (load_baselines server_id)) (\<lambda>rows.
     bnd (for_fold (check_tool E identity_id server_id live)
            \<lparr>ds_rows = rows, ds_added = [], ds_renamed = [], ds_docs = []\<rparr> live) (\<lambda>st.
     bnd (for_fold (check_removed E identity_id server_id live) st (ds_rows st)) (\<lambda>st.
     db_commit (list_all jsonb_ok (ds_docs st) \<and> list_all (\<lambda>r. text_ok (bl_tool_name r)) (ds_added st))
       (store_session server_id st)))))"

section \<open>Status queries and re-approval\<close>

definition find_baseline :: "string \<Rightarrow> string \<Rightarrow> tool_baseline list \<Rightarrow> tool_baseline option" where
  "find_baseline server_id tool_name rows =
     List.find (\<lambda>r. bl_server_id r = server_id \<and> bl_tool_name r = tool_name) rows"

definition baseline_of :: "string \<Rightarrow> string \<Rightarrow> tool_baseline option step" where
  "baseline_of server_id tool_name =
     db_read [server_id, tool_name] (\<lambda>w. find_baseline server_id tool_name (w_baselines w))"

definition has_pending_drift :: "string \<Rightarrow> string \<Rightarrow> bool step" where
  "has_pending_drift server_id tool_name =
     bnd (baseline_of server_id tool_name) (\<lambda>row.
       ret (case row of None \<Rightarrow> False | Some r \<Rightarrow> bl_observed_hash r \<noteq> None))"

definition is_blocked :: "string \<Rightarrow> string \<Rightarrow> bool step" where
  "is_blocked server_id tool_name =
     bnd (baseline_of server_id tool_name) (\<lambda>row.
       ret (case row of None \<Rightarrow> False | Some r \<Rightarrow> bl_blocked r))"

definition is_suspicious :: "string \<Rightarrow> string \<Rightarrow> bool step" where
  "is_suspicious server_id tool_name =
     bnd (baseline_of server_id tool_name) (\<lambda>row.
       ret (case row of None \<Rightarrow> False | Some r \<Rightarrow> bl_suspicious r))"

definition recent_drift_count :: "string \<Rightarrow> string \<Rightarrow> int \<Rightarrow> int step" where
  "recent_drift_count server_id tool_name window_seconds =
     bnd now (\<lambda>t.
     db_read [server_id, tool_name] (\<lambda>w. int (length (filter (\<lambda>r.
       ar_event_type r \<in> set (map (\<lambda>s. event_value (severity_event s)) [LOW, MEDIUM, HIGH, CRITICAL])
       \<and> ar_server_id r = Some server_id \<and> ar_tool_name r = Some tool_name
       \<and> t - of_int window_seconds < ar_timestamp r) (w_audit w)))))"

definition approve_drift :: "ext \<Rightarrow> string \<Rightarrow> string \<Rightarrow> string \<Rightarrow> int step" where
  "approve_drift E server_id tool_name approved_by =
     bnd (baseline_of server_id tool_name) (\<lambda>found.
     case found of
       None \<Rightarrow> raise (LookupError ''no pending drift for this tool'')
     | Some row \<Rightarrow>
         (case bl_observed_schema row of
            None \<Rightarrow> raise (LookupError ''no pending drift for this tool'')
          | Some observed \<Rightarrow>
              bnd (lift_res (case bl_observed_hash row of
                     Some (c # cs) \<Rightarrow> Inr (c # cs) | _ \<Rightarrow> tool_hash E observed)) (\<lambda>new_hash.
              bnd (lift_res (scan_descriptions E observed)) (\<lambda>findings.
              bnd (if findings \<noteq> [] \<and> \<not> bl_suspicious row then
                     bnd (drift_write E BASELINE_FLAGGED approved_by server_id tool_name
                            [(''findings'', JList (map JStr findings))]) (\<lambda>_. ret ())
                   else ret ()) (\<lambda>_.
              bnd (drift_write E APPROVED approved_by server_id tool_name
                     [(''old_hash'', JStr (bl_approved_hash row)), (''new_hash'', JStr new_hash)]) (\<lambda>seq.
              bnd (db_commit True (\<lambda>w. w\<lparr>w_baselines := update_first
                     (\<lambda>r. bl_server_id r = server_id \<and> bl_tool_name r = tool_name)
                     (\<lambda>r. row\<lparr>bl_approved_schema := observed, bl_approved_hash := new_hash,
                             bl_observed_schema := None, bl_observed_hash := None, bl_blocked := False,
                             bl_suspicious := findings \<noteq> []\<rparr>)
                     (w_baselines w)\<rparr>)) (\<lambda>_.
              ret seq)))))))"

section \<open>Facts on the classification\<close>

lemma fold_max_ge: "x \<in> set xs \<Longrightarrow> x \<le> fold max xs a" "a \<le> fold max xs a"
  for a :: severity
proof (induction xs arbitrary: a)
  case (Cons y ys)
  { case 1
    with Cons.IH [of "max y a"] show ?case by (auto intro: order_trans [of x "max y a"])
  next
    case 2
    from Cons.IH(2) [of "max y a"] show ?case by (auto intro: order_trans [of a "max y a"]) }
qed simp_all

lemma classify_severity:
  assumes "classify E old new = Inr r"
  shows "(\<exists>oh nh. tool_hash E old = Inr oh \<and> tool_hash E new = Inr nh \<and> (r = None \<longrightarrow> oh = nh))
    \<or> r \<noteq> None"
  using assms by (auto simp: classify_def Let_def res_bnd_Inr_iff split: if_splits)

lemma severe_ge:
  assumes "severities E d op np orq nrq = Inr ss" and "x \<in> set ss"
  shows "x \<le> fold max ss LOW"
  using assms(2) by (rule fold_max_ge(1))

lemma property_changes_type:
  "property_changes old new = Inr ss \<Longrightarrow> map_of old k = Some v \<Longrightarrow> map_of new k = Some v' \<Longrightarrow>
     py_get v ''type'' = Inr ot \<Longrightarrow> py_get v' ''type'' = Inr nt \<Longrightarrow> \<not> py_eq ot nt \<Longrightarrow> CRITICAL \<in> set ss"
  by (induction old new arbitrary: ss rule: property_changes.induct)
    (fastforce simp: res_bnd_Inr_iff property_change_def split: if_splits option.splits)+

section \<open>The check, row by row\<close>

text \<open>What one sighting does to the baseline row of its name.\<close>

definition severity_of :: "ext \<Rightarrow> json \<Rightarrow> tool_baseline \<Rightarrow> severity" where
  "severity_of E tool row = (case classify E (bl_approved_schema row) tool of
     Inr (Some s) \<Rightarrow> s | _ \<Rightarrow> HIGH)"

definition sighted :: "ext \<Rightarrow> json \<Rightarrow> tool_baseline \<Rightarrow> tool_baseline" where
  "sighted E tool row = (case tool_hash E tool of
     Inl e \<Rightarrow> row
   | Inr h \<Rightarrow>
       if h = bl_approved_hash row then
         (if bl_observed_hash row \<noteq> None
          then row\<lparr>bl_observed_hash := None, bl_observed_schema := None, bl_blocked := False\<rparr> else row)
       else if bl_observed_hash row = Some h then row
       else row\<lparr>bl_observed_schema := Some (x_jsonb E tool), bl_observed_hash := Some h,
              bl_blocked := bl_blocked row \<or> severity_blocks (severity_of E tool row)\<rparr>)"

definition unsighted :: "tool_baseline \<Rightarrow> tool_baseline" where
  "unsighted row = (if bl_observed_hash row = Some REMOVED_SENTINEL then row
     else row\<lparr>bl_observed_hash := Some REMOVED_SENTINEL, bl_observed_schema := None\<rparr>)"

lemma first_sighting_rows:
  assumes "first_sighting E i s live st name tool w = (Inr st', w')"
  shows "ds_rows st' = ds_rows st \<and> (\<exists>row. ds_added st' = ds_added st @ [row]
    \<and> bl_server_id row = s \<and> bl_tool_name row = name)"
  using assms unfolding first_sighting_def Let_def drift_write_def
  by (auto simp: bnd_Inr_iff split: option.splits if_splits)

lemma check_known_tool:
  assumes run: "check_tool E i s live st (name, tool) w = (Inr st', w')"
    and row: "map_of (ds_rows st) name = Some row"
  shows "st' = st \<and> sighted E tool row = row
    \<or> (\<exists>docs. st' = (set_row name (sighted E tool row) st)\<lparr>ds_docs := docs\<rparr>)"
proof -
  from run row obtain h where h: "tool_hash E tool = Inr h"
    by (auto simp: check_tool_def bnd_Inr_iff)
  consider (same) "h = bl_approved_hash row" "bl_observed_hash row = None"
    | (reverted) "h = bl_approved_hash row" "bl_observed_hash row \<noteq> None"
    | (logged) "h \<noteq> bl_approved_hash row" "bl_observed_hash row = Some h"
    | (drifted) "h \<noteq> bl_approved_hash row" "bl_observed_hash row \<noteq> Some h" by blast
  then show ?thesis
  proof cases
    case same
    with run row h show ?thesis by (simp add: check_tool_def bnd_def sighted_def)
  next
    case reverted
    with run row h have "st' = set_row name (sighted E tool row) st"
      by (auto simp: check_tool_def bnd_def sighted_def)
    then have "st' = (set_row name (sighted E tool row) st)\<lparr>ds_docs := ds_docs st'\<rparr>" by simp
    then show ?thesis by blast
  next
    case logged
    with run row h show ?thesis by (simp add: check_tool_def bnd_def sighted_def)
  next
    case drifted
    with run row h obtain c where c: "classify E (bl_approved_schema row) tool = Inr c"
      and st': "st' = (set_row name (row\<lparr>bl_observed_schema := Some (x_jsonb E tool),
          bl_observed_hash := Some h,
          bl_blocked := bl_blocked row \<or> severity_blocks (case c of None \<Rightarrow> HIGH | Some s \<Rightarrow> s)\<rparr>) st)
        \<lparr>ds_docs := ds_docs st @ [tool]\<rparr>"
      by (auto simp: check_tool_def bnd_Inr_iff Let_def)
    from c have "severity_of E tool row = (case c of None \<Rightarrow> HIGH | Some s \<Rightarrow> s)"
      by (cases c) (simp_all add: severity_of_def)
    with drifted h st' show ?thesis by (simp only: sighted_def sum.case if_False) blast
  qed
qed

lemma check_tool_rows:
  assumes "check_tool E i s live st (name, tool) w = (Inr st', w')"
  shows "map_of (ds_rows st') n = (if n = name then map_option (sighted E tool) (map_of (ds_rows st) n)
      else map_of (ds_rows st) n)
    \<and> (\<exists>rows. ds_added st' = ds_added st @ rows
        \<and> (\<forall>r \<in> set rows. bl_server_id r = s \<and> bl_tool_name r = name \<and> map_of (ds_rows st) name = None))"
proof (cases "map_of (ds_rows st) name")
  case None
  with assms have "first_sighting E i s live st name tool w = (Inr st', w')"
    by (simp add: check_tool_def)
  from first_sighting_rows [OF this] None show ?thesis by auto
next
  case (Some row)
  from check_known_tool [OF assms Some] Some show ?thesis
    by (auto simp: set_row_def update_conv')
qed

lemma check_tools_rows:
  "for_fold (check_tool E i s live) st tools w = (Inr st', w') \<Longrightarrow> distinct (map fst tools) \<Longrightarrow>
     map_of (ds_rows st') n = (case map_of tools n of
        None \<Rightarrow> map_of (ds_rows st) n
      | Some tool \<Rightarrow> map_option (sighted E tool) (map_of (ds_rows st) n))
     \<and> (\<exists>rows. ds_added st' = ds_added st @ rows
          \<and> (\<forall>r \<in> set rows. bl_server_id r = s \<and> map_of (ds_rows st) (bl_tool_name r) = None))"
proof (induction tools arbitrary: st w)
  case (Cons nt tools)
  obtain name tool where nt: "nt = (name, tool)" by (cases nt)
  from Cons.prems(1) obtain st1 w1 where 1: "check_tool E i s live st (name, tool) w = (Inr st1, w1)"
    and 2: "for_fold (check_tool E i s live) st1 tools w1 = (Inr st', w')"
    by (auto simp: bnd_Inr_iff nt)
  from Cons.prems(2) have fresh: "map_of tools name = None" by (simp add: nt map_of_eq_None_iff)
  have dom: "map_of (ds_rows st1) m = None \<longleftrightarrow> map_of (ds_rows st) m = None" for m
    using check_tool_rows [OF 1, of m] by auto
  show ?case
    using Cons.IH [OF 2] Cons.prems(2) check_tool_rows [OF 1, of n] fresh
    by (auto simp: nt dom split: option.splits)
qed simp

lemma check_removed_rows:
  assumes "check_removed E i s live st (name, row) w = (Inr st', w')" and "map_of (ds_rows st) name = Some row"
  shows "map_of (ds_rows st') n = (if n = name \<and> map_of live n = None \<and> n \<notin> set (ds_renamed st)
      then Some (unsighted row) else map_of (ds_rows st) n)
    \<and> ds_added st' = ds_added st \<and> ds_renamed st' = ds_renamed st"
  using assms unfolding check_removed_def drift_write_def
  by (auto simp: bnd_Inr_iff unsighted_def set_row_def update_conv' split: if_splits)

lemma check_all_removed_rows:
  "for_fold (check_removed E i s live) st rows w = (Inr st', w') \<Longrightarrow> distinct (map fst rows) \<Longrightarrow>
     (\<And>n r. map_of rows n = Some r \<Longrightarrow> map_of (ds_rows st) n = Some r) \<Longrightarrow>
     map_of (ds_rows st') n = (if map_of rows n \<noteq> None \<and> map_of live n = None \<and> n \<notin> set (ds_renamed st)
        then map_option unsighted (map_of (ds_rows st) n) else map_of (ds_rows st) n)
     \<and> ds_added st' = ds_added st"
proof (induction rows arbitrary: st w)
  case (Cons nr rows)
  obtain name row where nr: "nr = (name, row)" by (cases nr)
  from Cons.prems(1) obtain st1 w1 where 1: "check_removed E i s live st (name, row) w = (Inr st1, w1)"
    and 2: "for_fold (check_removed E i s live) st1 rows w1 = (Inr st', w')"
    by (auto simp: bnd_Inr_iff nr)
  from Cons.prems(3) [of name row] have row: "map_of (ds_rows st) name = Some row" by (simp add: nr)
  note step = check_removed_rows [OF 1 row]
  from Cons.prems(2) have fresh: "map_of rows name = None" by (simp add: nr map_of_eq_None_iff)
  have keep: "map_of (ds_rows st1) m = Some r" if "map_of rows m = Some r" for m r
  proof -
    from that fresh have "m \<noteq> name" by auto
    with that step [of m] Cons.prems(3) [of m r] show ?thesis by (simp add: nr)
  qed
  from Cons.IH [OF 2 _ keep] Cons.prems(2)
  have "map_of (ds_rows st') n = (if map_of rows n \<noteq> None \<and> map_of live n = None \<and> n \<notin> set (ds_renamed st1)
        then map_option unsighted (map_of (ds_rows st1) n) else map_of (ds_rows st1) n)
     \<and> ds_added st' = ds_added st1" by (simp add: nr)
  with step [of n] fresh row show ?case by (auto simp: nr)
qed simp

lemma check_tools_distinct:
  "for_fold (check_tool E i s live) st tools w = (Inr st', w') \<Longrightarrow> distinct (map fst (ds_rows st)) \<Longrightarrow>
     distinct (map fst (ds_rows st'))"
proof (induction tools arbitrary: st w)
  case (Cons nt tools)
  obtain name tool where nt: "nt = (name, tool)" by (cases nt)
  from Cons.prems(1) obtain st1 w1 where 1: "check_tool E i s live st (name, tool) w = (Inr st1, w1)"
    and 2: "for_fold (check_tool E i s live) st1 tools w1 = (Inr st', w')"
    by (auto simp: bnd_Inr_iff nt)
  have "distinct (map fst (ds_rows st1))"
  proof (cases "map_of (ds_rows st) name")
    case None
    with 1 have "first_sighting E i s live st name tool w = (Inr st1, w1)" by (simp add: check_tool_def)
    from first_sighting_rows [OF this] Cons.prems(2) show ?thesis by simp
  next
    case (Some row)
    from check_known_tool [OF 1 Some] Cons.prems(2) show ?thesis
      by (auto simp: set_row_def distinct_update)
  qed
  with Cons.IH [OF 2] show ?case .
qed simp

lemma check_tools_frame: "stays (same w_baselines) (for_fold (check_tool E i s live) st tools)"
  unfolding check_tool_def first_sighting_def drift_write_def Let_def
  by (intro same_baselines.append_intros)

lemma check_removed_frame: "stays (same w_baselines) (for_fold (check_removed E i s live) st rows)"
  unfolding check_removed_def drift_write_def
  by (intro same_baselines.append_intros)

text \<open>Baselines have one row per server and tool (the primary key).\<close>

definition keyed :: "tool_baseline list \<Rightarrow> bool" where
  "keyed rows = distinct (map (\<lambda>r. (bl_server_id r, bl_tool_name r)) rows)"

lemma find_baseline_Some:
  "find_baseline s n rows = Some r \<Longrightarrow> r \<in> set rows \<and> bl_server_id r = s \<and> bl_tool_name r = n"
  by (auto simp: find_baseline_def find_Some_iff)

lemma keyed_find:
  "keyed rows \<Longrightarrow> r \<in> set rows \<Longrightarrow> find_baseline (bl_server_id r) (bl_tool_name r) rows = Some r"
  by (induction rows) (auto simp: keyed_def find_baseline_def image_iff)

lemma map_of_find_baseline:
  "map_of (map (\<lambda>r. (bl_tool_name r, r)) (filter (\<lambda>r. bl_server_id r = s) rows)) n = find_baseline s n rows"
  by (induction rows) (auto simp: find_baseline_def)

lemma keyed_names:
  "keyed rows \<Longrightarrow> distinct (map bl_tool_name (filter (\<lambda>r. bl_server_id r = s) rows))"
  by (induction rows) (auto simp: keyed_def image_iff)

lemma load_baselines_find:
  assumes "keyed (w_baselines w)"
  shows "map_of (load_baselines s w) n = find_baseline s n (w_baselines w)"
proof -
  let ?kvs = "map (\<lambda>r. (bl_tool_name r, r)) (filter (\<lambda>r. bl_server_id r = s) (w_baselines w))"
  have "map fst ?kvs = map bl_tool_name (filter (\<lambda>r. bl_server_id r = s) (w_baselines w))" by simp
  then have "distinct (map fst ?kvs)" using keyed_names [OF assms, of s] by (simp only:)
  then show ?thesis
    by (simp only: load_baselines_def map_of_dict_of_distinct map_of_find_baseline)
qed

lemma find_stored:
  assumes "find_baseline s n rows = Some r" and "f n = Some r'"
    and "bl_server_id r' = s" "bl_tool_name r' = n"
    and "\<And>m q. m \<noteq> n \<Longrightarrow> f m = Some q \<Longrightarrow> bl_tool_name q = m"
  shows "find_baseline s n (map (\<lambda>r. if bl_server_id r = s
      then (case f (bl_tool_name r) of None \<Rightarrow> r | Some q \<Rightarrow> q) else r) rows @ added) = Some r'"
  using assms(1)
proof (induction rows)
  case (Cons x rows)
  let ?x = "if bl_server_id x = s
      then (case f (bl_tool_name x) of None \<Rightarrow> x | Some q \<Rightarrow> q) else x"
  show ?case
  proof (cases "bl_server_id x = s \<and> bl_tool_name x = n")
    case True
    with assms(2-4) show ?thesis by (simp add: find_baseline_def)
  next
    case False
    with Cons have "find_baseline s n (map (\<lambda>r. if bl_server_id r = s
      then (case f (bl_tool_name r) of None \<Rightarrow> r | Some q \<Rightarrow> q) else r) rows @ added) = Some r'"
      by (simp add: find_baseline_def split: if_splits)
    moreover have "\<not> (bl_server_id ?x = s \<and> bl_tool_name ?x = n)"
    proof (cases "bl_server_id x = s")
      case True
      with False have ne: "bl_tool_name x \<noteq> n" by simp
      show ?thesis
      proof (cases "f (bl_tool_name x)")
        case (Some q)
        have "bl_tool_name q = bl_tool_name x" by (rule assms(5) [OF ne Some])
        with True Some ne show ?thesis by simp
      qed (simp add: True ne)
    qed simp
    ultimately show ?thesis
      by (simp only: find_baseline_def list.map append_Cons List.find.simps if_False)
  qed
qed (simp add: find_baseline_def)

lemma sighted_key: "bl_server_id (sighted E t r) = bl_server_id r" "bl_tool_name (sighted E t r) = bl_tool_name r"
  by (simp_all add: sighted_def split: sum.split)

lemma unsighted_key: "bl_server_id (unsighted r) = bl_server_id r" "bl_tool_name (unsighted r) = bl_tool_name r"
  by (simp_all add: unsighted_def)

text \<open>A check that returns has stored, for a tool it saw, the row the sighting calls for.\<close>

lemma drift_check_sighted:
  assumes run: "drift_check E s tools i w = (Inr u, w')" and keyed: "keyed (w_baselines w)"
    and live: "live_tools E tools = Inr live" "map_of live n = Some tool"
    and row: "find_baseline s n (w_baselines w) = Some r"
  shows "find_baseline s n (w_baselines w') = Some (sighted E tool r)"
proof -
  let ?st0 = "\<lambda>rows. \<lparr>ds_rows = rows, ds_added = [], ds_renamed = [], ds_docs = []\<rparr>"
  from run live(1) obtain rows st1 st2 w1 w2 w3 where
    rd: "db_read [s] (load_baselines s) w = (Inr rows, w1)"
    and f1: "for_fold (check_tool E i s live) (?st0 rows) live w1 = (Inr st1, w2)"
    and f2: "for_fold (check_removed E i s live) st1 (ds_rows st1) w2 = (Inr st2, w3)"
    and cm: "db_commit (list_all jsonb_ok (ds_docs st2) \<and> list_all (\<lambda>r. text_ok (bl_tool_name r)) (ds_added st2))
       (store_session s st2) w3 = (Inr u, w')"
    by (auto simp: drift_check_def bnd_Inr_iff)
  from rd have q: "quiet w w1" and rows: "rows = load_baselines s w"
    by (auto simp: load_baselines_def quiet_fields dest!: db_read_Inr)
  have dl: "distinct (map fst live)"
    using live(1) by (auto simp: live_tools_def res_bnd_Inr_iff distinct_dict_of)
  have rowsn: "map_of rows m = find_baseline s m (w_baselines w)" for m
    using keyed by (simp add: rows load_baselines_find)
  have st1: "map_of (ds_rows st1) m = (case map_of live m of
        None \<Rightarrow> map_of rows m | Some t \<Rightarrow> map_option (sighted E t) (map_of rows m))" for m
    using check_tools_rows [OF f1 dl, of m] by (cases "map_of live m") simp_all
  have d1: "distinct (map fst (ds_rows st1))"
    using check_tools_distinct [OF f1] by (simp add: rows load_baselines_def distinct_dict_of)
  have st2: "map_of (ds_rows st2) m = (if map_of (ds_rows st1) m \<noteq> None \<and> map_of live m = None
        \<and> m \<notin> set (ds_renamed st1) then map_option unsighted (map_of (ds_rows st1) m)
      else map_of (ds_rows st1) m)" for m
    using check_all_removed_rows [OF f2 d1, of m] by simp
  have names: "bl_tool_name x = m" if "map_of (ds_rows st2) m = Some x" for m x
  proof -
    have 0: "bl_tool_name y = m" if "map_of rows m = Some y" for y
      using that rowsn [of m] by (auto dest: find_baseline_Some)
    have 1: "bl_tool_name y = m" if "map_of (ds_rows st1) m = Some y" for y
      using that st1 [of m] 0 by (cases "map_of live m") (auto simp: sighted_key)
    show ?thesis using that st2 [of m] 1 by (auto simp: unsighted_key split: if_splits)
  qed
  from cm obtain w4 where q4: "quiet w3 w4" and w': "w' = store_session s st2 w4"
    by (auto dest!: db_commit_Inr)
  have tabs: "w_baselines w4 = w_baselines w"
    using staysD [OF check_tools_frame f1] staysD [OF check_removed_frame f2] q q4
    by (simp add: same_def quiet_fields)
  have new: "map_of (ds_rows st2) n = Some (sighted E tool r)"
    using st2 [of n] st1 [of n] live(2) rowsn [of n] row by simp
  from find_baseline_Some [OF row] have "bl_server_id r = s" "bl_tool_name r = n" by simp_all
  with find_stored [of s n "w_baselines w" r "map_of (ds_rows st2)" "sighted E tool r" "ds_added st2",
      OF row new] names
  show ?thesis by (simp add: w' store_session_def tabs sighted_key)
qed

lemma baseline_of_Inr:
  "baseline_of s n w = (Inr x, w') \<Longrightarrow> x = find_baseline s n (w_baselines w) \<and> quiet w w'"
  unfolding baseline_of_def by (drule db_read_Inr) (auto simp: quiet_fields)

lemma is_blocked_Inr:
  "is_blocked s n w = (Inr b, w') \<Longrightarrow> quiet w w' \<and>
     b = (case find_baseline s n (w_baselines w) of None \<Rightarrow> False | Some r \<Rightarrow> bl_blocked r)"
  by (auto simp: is_blocked_def bnd_Inr_iff dest!: baseline_of_Inr)

section \<open>Properties\<close>

text \<open>The parts of a tool definition the classification reads.\<close>

definition parts :: "json \<Rightarrow> (json \<times> (string \<times> json) list \<times> json list) res" where
  "parts tool =
     res_bnd (py_get tool ''description'') (\<lambda>d.
     res_bnd (py_get tool ''inputSchema'') (\<lambda>s.
     res_bnd (get_dict (py_or s (JObj [])) ''properties'') (\<lambda>ps.
     res_bnd (get_set (py_or s (JObj [])) ''required'') (\<lambda>rq. Inr (d, ps, rq)))))"

definition at_least :: "severity \<Rightarrow> severity option \<Rightarrow> bool" where
  "at_least s r = (case r of None \<Rightarrow> False | Some x \<Rightarrow> s \<le> x)"

lemma classify_at_least:
  assumes "classify E old new = Inr r" and "parts old = Inr (od, op, orq)" and "parts new = Inr (nd, np, nrq)"
    and "severities E (\<not> py_eq od nd) op np orq nrq = Inr ss" and "x \<in> set ss"
  shows "at_least x r"
proof -
  from assms(5) have "ss \<noteq> []" by auto
  with assms(1-4) have "r = Some (fold max ss LOW)"
    by (auto simp: classify_def parts_def Let_def res_bnd_Inr_iff)
  with fold_max_ge(1) [OF assms(5)] show ?thesis by (simp add: at_least_def)
qed

lemma classify_severities:
  assumes "classify E old new = Inr r" and "parts old = Inr (od, op, orq)" and "parts new = Inr (nd, np, nrq)"
  shows "\<exists>ss. severities E (\<not> py_eq od nd) op np orq nrq = Inr ss"
  using assms by (auto simp: classify_def parts_def Let_def res_bnd_Inr_iff)

lemma list_ex_key: "map_of d k \<noteq> None \<Longrightarrow> P k \<Longrightarrow> list_ex (\<lambda>(k, v). P k) d"
  by (force simp: list_ex_iff dest: map_of_SomeD)

text \<open>
  The severity table: a changed description is rated at least the configured severity; a
  removed property at least HIGH; a new required property, a changed property type and a flipped
  required status CRITICAL; and no rating at all means the two definitions have the same hash.
\<close>
theorem classify_table:
  assumes "classify E old new = Inr r" and "parts old = Inr (od, op, orq)" and "parts new = Inr (nd, np, nrq)"
  shows "(\<not> py_eq od nd \<longrightarrow> at_least (cf_drift_description_severity (x_cfg E)) r)
    \<and> ((\<exists>k. map_of op k \<noteq> None \<and> map_of np k = None) \<longrightarrow> at_least HIGH r)
    \<and> ((\<exists>k. map_of op k = None \<and> map_of np k \<noteq> None \<and> member k nrq) \<longrightarrow> at_least CRITICAL r)
    \<and> ((\<exists>k v v' t t'. map_of op k = Some v \<and> map_of np k = Some v' \<and> py_get v ''type'' = Inr t
          \<and> py_get v' ''type'' = Inr t' \<and> \<not> py_eq t t') \<longrightarrow> at_least CRITICAL r)
    \<and> ((\<exists>k. map_of op k \<noteq> None \<and> map_of np k \<noteq> None \<and> member k orq \<noteq> member k nrq) \<longrightarrow> at_least CRITICAL r)
    \<and> (r = None \<longrightarrow> tool_hash E old = tool_hash E new)"
proof -
  from classify_severities [OF assms] obtain ss where ss: "severities E (\<not> py_eq od nd) op np orq nrq = Inr ss" ..
  note ge = classify_at_least [OF assms ss]
  from ss obtain cs where cs: "property_changes op np = Inr cs" and ss_eq:
    "ss = (if \<not> py_eq od nd then [cf_drift_description_severity (x_cfg E)] else [])
         @ added_properties op np nrq
         @ (if list_ex (\<lambda>(k, v). map_of np k = None) op then [HIGH] else []) @ cs
         @ (if list_ex (\<lambda>(k, v). map_of np k \<noteq> None \<and> member k orq \<noteq> member k nrq) op then [CRITICAL] else [])"
    by (auto simp: severities_def res_bnd_Inr_iff)
  have key: "\<exists>v. (k, v) \<in> set d" if "map_of d k \<noteq> None" for k and d :: "(string \<times> json) list"
    using that by (meson map_of_SomeD not_None_eq)
  show ?thesis
  proof (intro conjI impI)
    assume "\<not> py_eq od nd" then show "at_least (cf_drift_description_severity (x_cfg E)) r"
      by (intro ge) (simp add: ss_eq)
  next
    assume "\<exists>k. map_of op k \<noteq> None \<and> map_of np k = None"
    then have "list_ex (\<lambda>(k, v). map_of np k = None) op"
      using list_ex_key [of op _ "\<lambda>k. map_of np k = None"] by blast
    then show "at_least HIGH r" by (intro ge) (simp add: ss_eq)
  next
    assume "\<exists>k. map_of op k = None \<and> map_of np k \<noteq> None \<and> member k nrq"
    then obtain k v where "map_of op k = None" "(k, v) \<in> set np" "member k nrq" using key by blast
    then have "CRITICAL \<in> set (added_properties op np nrq)" by (force simp: added_properties_def)
    then show "at_least CRITICAL r" by (intro ge) (simp add: ss_eq)
  next
    assume "\<exists>k v v' t t'. map_of op k = Some v \<and> map_of np k = Some v' \<and> py_get v ''type'' = Inr t
          \<and> py_get v' ''type'' = Inr t' \<and> \<not> py_eq t t'"
    then have "CRITICAL \<in> set cs" using property_changes_type [OF cs] by blast
    then show "at_least CRITICAL r" by (intro ge) (simp add: ss_eq)
  next
    assume "\<exists>k. map_of op k \<noteq> None \<and> map_of np k \<noteq> None \<and> member k orq \<noteq> member k nrq"
    then have "list_ex (\<lambda>(k, v). map_of np k \<noteq> None \<and> member k orq \<noteq> member k nrq) op"
      using list_ex_key [of op _ "\<lambda>k. map_of np k \<noteq> None \<and> member k orq \<noteq> member k nrq"] by blast
    then show "at_least CRITICAL r" by (intro ge) (simp add: ss_eq)
  next
    assume "r = None" then show "tool_hash E old = tool_hash E new"
      using classify_severity [OF assms(1)] by auto
  qed
qed

theorem classify_table_witness:
  "classify demo (demo_tool ''read'') (JObj [(''name'', JStr ''read''), (''description'', JStr ''new text'')])
     = Inr (Some HIGH)
   \<and> at_least HIGH (Some HIGH)"
proof -
  let ?new = "JObj [(''name'', JStr ''read''), (''description'', JStr ''new text'')]"
  have c: "classify demo (demo_tool ''read'') ?new = Inr (Some HIGH)" by code_simp
  have p: "parts (demo_tool ''read'') = Inr (JStr ''does things'', [(''path'', JObj [(''type'', JStr ''string'')])], [])"
    by code_simp
  have q: "parts ?new = Inr (JStr ''new text'', [], [])" by code_simp
  have "at_least (cf_drift_description_severity (x_cfg demo)) (Some HIGH)"
    using classify_table [OF c p q] by simp
  then have "at_least HIGH (Some HIGH)" by (simp add: demo_def default_settings_def)
  with c show ?thesis by blast
qed


definition demo_list :: "string \<Rightarrow> json" where
  "demo_list text = JList [JObj [(''name'', JStr ''read''), (''description'', JStr text)]]"

definition demo_baselined :: world where
  "demo_baselined = snd (drift_check demo ''srv'' (demo_list ''reads a file'') ''ops'' demo_world)"


text \<open>
  A renamed tool is blocked only until the next list: its row is stored with the new
  definition as the approved one, so an unchanged second sighting counts as a return to the
  approved shape and lifts the block, with no administrator involved.
\<close>
theorem renamed_tool_unblocks_itself:
  "let evil = JList [JObj [(''name'', JStr ''read2''), (''description'', JStr ''reads a file'')]];
       w1 = snd (drift_check demo ''srv'' evil ''ops'' demo_baselined);
       w2 = snd (drift_check demo ''srv'' evil ''ops'' w1)
   in fst (is_blocked ''srv'' ''read2'' w1) = Inr True \<and> fst (is_blocked ''srv'' ''read2'' w2) = Inr False
      \<and> list_all (\<lambda>r. ar_event_type r \<noteq> ''APPROVED'') (w_audit w2)"
  by code_simp

text \<open>
  The shape hash keeps the title of the tool itself: a rename that changes the title too is
  not recognised and the tool is baselined, unblocked, as a new one.
\<close>
theorem retitled_rename_not_recognised:
  "let old = JList [JObj [(''name'', JStr ''read''), (''title'', JStr ''Read'')]];
       new = JList [JObj [(''name'', JStr ''read2''), (''title'', JStr ''Read2'')]];
       w1 = snd (drift_check demo ''srv'' old ''ops'' demo_world);
       w2 = snd (drift_check demo ''srv'' new ''ops'' w1)
   in fst (is_blocked ''srv'' ''read2'' w2) = Inr False
      \<and> find_baseline ''srv'' ''read2'' (w_baselines w2) \<noteq> None"
  by code_simp

end
