(* ===== verification/Risk.thy ===== *)
theory Risk
  imports Drift
begin

text \<open>
  The risk engine (\<open>risk_engine.py\<close>): the nine factors over a gathered context, the weighted
  sum with its decay discount, the threshold bands, and the scorer with its Redis counters. The
  failed-lookup counter's key is the one of \<open>auth.py\<close>.
\<close>

section \<open>Weights and bands\<close>

fun tier_name :: "tier \<Rightarrow> string" where
  "tier_name TierLow = ''low''"
| "tier_name TierMedium = ''medium''"
| "tier_name TierHigh = ''high''"
| "tier_name TierCritical = ''critical''"

fun TIER_CONTRIBUTION :: "tier \<Rightarrow> int" where
  "TIER_CONTRIBUTION TierLow = 10"
| "TIER_CONTRIBUTION TierMedium = 20"
| "TIER_CONTRIBUTION TierHigh = 30"
| "TIER_CONTRIBUTION TierCritical = 45"

definition PROTECTED_CONTRIBUTION :: int where "PROTECTED_CONTRIBUTION = 30"
definition OFF_HOURS_CONTRIBUTION :: int where "OFF_HOURS_CONTRIBUTION = 25"
definition FREQUENCY_CONTRIBUTION :: int where "FREQUENCY_CONTRIBUTION = 20"
definition DRIFT_IN_REVIEW_CONTRIBUTION :: int where "DRIFT_IN_REVIEW_CONTRIBUTION = 15"
definition PRIOR_DENIAL_CONTRIBUTION :: int where "PRIOR_DENIAL_CONTRIBUTION = 25"
definition AUTH_FAILURE_CONTRIBUTION :: int where "AUTH_FAILURE_CONTRIBUTION = 20"
definition DRIFT_HISTORY_CONTRIBUTION :: int where "DRIFT_HISTORY_CONTRIBUTION = 15"
definition SUSPICIOUS_BASELINE_CONTRIBUTION :: int where "SUSPICIOUS_BASELINE_CONTRIBUTION = 20"

definition BEHAVIORAL_FACTORS :: "string list" where
  "BEHAVIORAL_FACTORS = [''call_frequency'', ''prior_denial_rate'', ''drift_in_review'']"

definition RISK_CHALLENGE_MIN :: int where "RISK_CHALLENGE_MIN = 40"
definition RISK_APPROVAL_MIN :: int where "RISK_APPROVAL_MIN = 70"
definition RISK_DENY_ABOVE :: int where "RISK_DENY_ABOVE = 90"

definition threshold_outcome :: "int \<Rightarrow> outcome" where
  "threshold_outcome score =
     (if RISK_DENY_ABOVE < score then Deny
      else if RISK_APPROVAL_MIN \<le> score then HumanApprovalRequired
      else if RISK_CHALLENGE_MIN \<le> score then Challenge
      else Allow)"

section \<open>Factors\<close>

record risk_context =
  rc_identity_id :: string
  rc_tool_name :: string
  rc_arguments :: json
  rc_policy :: risk_policy
  rc_now :: rat
  rc_call_count :: int
  rc_drift_in_review :: bool
  rc_denial_count :: int
  rc_auth_failure_count :: int
  rc_drift_event_count :: int
  rc_suspicious_baseline :: bool

fun string_values :: "json \<Rightarrow> string list"
  and string_values_fields :: "(string \<times> json) list \<Rightarrow> string list"
  and string_values_items :: "json list \<Rightarrow> string list" where
  "string_values (JStr s) = [s]"
| "string_values (JObj d) = string_values_fields d"
| "string_values (JList xs) = string_values_items xs"
| "string_values JNull = []"
| "string_values (JBool b) = []"
| "string_values (JInt i) = []"
| "string_values (JFloat f) = []"
| "string_values_fields [] = []"
| "string_values_fields ((k, v) # d) = string_values v @ string_values_fields d"
| "string_values_items [] = []"
| "string_values_items (v # xs) = string_values v @ string_values_items xs"

definition factor :: "string \<Rightarrow> int \<Rightarrow> string \<Rightarrow> risk_factor" where
  "factor name contribution reason =
     \<lparr>rf_factor = name, rf_contribution = contribution, rf_reason = Some reason\<rparr>"

definition tool_sensitivity_factor :: "risk_context \<Rightarrow> risk_factor option" where
  "tool_sensitivity_factor ctx =
     (case map_of (tool_sensitivity (rc_policy ctx)) (rc_tool_name ctx) of
        None \<Rightarrow> None
      | Some t \<Rightarrow> Some (factor ''tool_sensitivity'' (TIER_CONTRIBUTION t)
          (py_repr (rc_tool_name ctx) @ '' is policy-tiered '' @ tier_name t)))"

definition blast_radius :: "risk_context \<Rightarrow> risk_factor option" where
  "blast_radius ctx =
     (case List.find (\<lambda>(v, p). fnmatch v p)
             (concat (map (\<lambda>v. map (Pair v) (protected_repos (rc_policy ctx)))
                       (string_values (rc_arguments ctx)))) of
        None \<Rightarrow> None
      | Some (v, p) \<Rightarrow> Some (factor ''protected_repository'' PROTECTED_CONTRIBUTION
          (''argument '' @ py_repr v @ '' matches protected pattern '' @ py_repr p)))"

definition weekday_name :: "int \<Rightarrow> string" where
  "weekday_name d = (if d = 0 then ''Mon'' else if d = 1 then ''Tue'' else if d = 2 then ''Wed''
     else if d = 3 then ''Thu'' else if d = 4 then ''Fri'' else if d = 5 then ''Sat'' else ''Sun'')"

definition business_hours :: "ext \<Rightarrow> risk_context \<Rightarrow> risk_factor option" where
  "business_hours E ctx =
     (let t = rc_now ctx; cfg = x_cfg E;
          off_hours = (5 \<le> utc_weekday t \<or>
            \<not> (cf_business_hours_start_utc cfg \<le> utc_hour t \<and> utc_hour t < cf_business_hours_end_utc cfg))
      in if \<not> off_hours then None
         else Some (factor ''business_hours'' OFF_HOURS_CONTRIBUTION
           (''call at '' @ weekday_name (utc_weekday t) @ '' '' @ pad_zeros 2 (dec_int (utc_hour t)) @ '':''
            @ pad_zeros 2 (dec_int (utc_minute t)) @ '' UTC is outside business hours'')))"

definition call_frequency :: "ext \<Rightarrow> risk_context \<Rightarrow> risk_factor option" where
  "call_frequency E ctx =
     (if rc_call_count ctx \<le> cf_risk_freq_threshold (x_cfg E) then None
      else Some (factor ''call_frequency'' FREQUENCY_CONTRIBUTION
        (dec_int (rc_call_count ctx) @ '' calls to '' @ py_repr (rc_tool_name ctx) @ '' in the last ''
         @ dec_int (cf_risk_freq_window_seconds (x_cfg E)) @ ''s exceeds ''
         @ dec_int (cf_risk_freq_threshold (x_cfg E)))))"

definition drift_in_review :: "risk_context \<Rightarrow> risk_factor option" where
  "drift_in_review ctx =
     (if \<not> rc_drift_in_review ctx then None
      else Some (factor ''drift_in_review'' DRIFT_IN_REVIEW_CONTRIBUTION
        (py_repr (rc_tool_name ctx) @ '' has unresolved schema drift pending review'')))"

definition prior_denial_rate :: "ext \<Rightarrow> risk_context \<Rightarrow> risk_factor option" where
  "prior_denial_rate E ctx =
     (if rc_denial_count ctx \<le> cf_risk_denial_threshold (x_cfg E) then None
      else Some (factor ''prior_denial_rate'' PRIOR_DENIAL_CONTRIBUTION
        (dec_int (rc_denial_count ctx) @ '' denials for '' @ py_repr (rc_identity_id ctx) @ '' in the last ''
         @ dec_int (cf_risk_denial_window_seconds (x_cfg E)) @ ''s exceeds ''
         @ dec_int (cf_risk_denial_threshold (x_cfg E)))))"

definition auth_failures :: "ext \<Rightarrow> risk_context \<Rightarrow> risk_factor option" where
  "auth_failures E ctx =
     (if rc_auth_failure_count ctx \<le> cf_risk_auth_failure_threshold (x_cfg E) then None
      else Some (factor ''auth_failures'' AUTH_FAILURE_CONTRIBUTION
        (dec_int (rc_auth_failure_count ctx) @ '' failed API-key lookups gateway-wide in the last ''
         @ dec_int (cf_risk_auth_failure_window_seconds (x_cfg E)) @ ''s exceeds ''
         @ dec_int (cf_risk_auth_failure_threshold (x_cfg E)))))"

definition drift_history :: "ext \<Rightarrow> risk_context \<Rightarrow> risk_factor option" where
  "drift_history E ctx =
     (if rc_drift_event_count ctx < cf_risk_drift_history_threshold (x_cfg E) then None
      else Some (factor ''drift_history'' DRIFT_HISTORY_CONTRIBUTION
        (py_repr (rc_tool_name ctx) @ '' drifted '' @ dec_int (rc_drift_event_count ctx) @ '' times in the last ''
         @ dec_int (cf_risk_drift_history_window_seconds (x_cfg E)) @ ''s, even if since re-approved'')))"

definition suspicious_baseline :: "risk_context \<Rightarrow> risk_factor option" where
  "suspicious_baseline ctx =
     (if \<not> rc_suspicious_baseline ctx then None
      else Some (factor ''suspicious_baseline'' SUSPICIOUS_BASELINE_CONTRIBUTION
        (py_repr (rc_tool_name ctx) @ [CHR 0x27] @ ''s approved description matched instruction-injection''
         @ '' heuristics when it was baselined'')))"

definition FACTORS :: "ext \<Rightarrow> (risk_context \<Rightarrow> risk_factor option) list" where
  "FACTORS E = [tool_sensitivity_factor, blast_radius, business_hours E, call_frequency E,
     drift_in_review, prior_denial_rate E, auth_failures E, drift_history E, suspicious_baseline]"

definition factors_of :: "ext \<Rightarrow> risk_context \<Rightarrow> risk_factor list" where
  "factors_of E ctx = map the (filter (\<lambda>f. f \<noteq> None) (map (\<lambda>fn. fn ctx) (FACTORS E)))"

definition is_behavioral :: "risk_factor \<Rightarrow> bool" where
  "is_behavioral f = (rf_factor f \<in> set BEHAVIORAL_FACTORS)"

definition combine :: "risk_factor list \<Rightarrow> int \<Rightarrow> int" where
  "combine factors decay_offset =
     (let behavioral = sum_list (map rf_contribution (filter is_behavioral factors));
          static = sum_list (map rf_contribution (filter (\<lambda>f. \<not> is_behavioral f) factors))
      in min (static + max 0 (behavioral - decay_offset)) 100)"

section \<open>The scorer\<close>

definition AUTH_FAILURE_KEY :: string where
  "AUTH_FAILURE_KEY = ''risk:auth_failures''"

definition freq_key :: "string \<Rightarrow> string \<Rightarrow> string \<Rightarrow> string" where
  "freq_key identity_id server_id tool_name = ''risk:freq:'' @ identity_id @ '':'' @ server_id @ '':'' @ tool_name"

definition decay_key :: "string \<Rightarrow> string \<Rightarrow> string \<Rightarrow> string" where
  "decay_key identity_id server_id tool_name = ''risk:decay:'' @ identity_id @ '':'' @ server_id @ '':'' @ tool_name"

definition denial_key :: "string \<Rightarrow> string" where
  "denial_key identity_id = ''risk:denials:'' @ identity_id"

text \<open>\<open>int(raw or 0)\<close>.\<close>

definition counter_value :: "rval option \<Rightarrow> int res" where
  "counter_value raw = (case raw of None \<Rightarrow> Inr 0 | Some (RNum n) \<Rightarrow> Inr n
     | Some (RText []) \<Rightarrow> Inr 0 | Some _ \<Rightarrow> Inl (ValueError ''invalid literal for int()''))"

definition counter :: "string \<Rightarrow> int step" where
  "counter key = bnd (r_get key) (\<lambda>raw. lift_res (counter_value raw))"

definition bump :: "string \<Rightarrow> int \<Rightarrow> int step" where
  "bump key window =
     bnd (r_incr key) (\<lambda>count.
     bnd (if count = 1 then r_expire key window else ret ()) (\<lambda>_.
     ret count))"

definition bump_frequency :: "ext \<Rightarrow> string \<Rightarrow> string \<Rightarrow> string \<Rightarrow> int step" where
  "bump_frequency E identity_id server_id tool_name =
     bump (freq_key identity_id server_id tool_name) (cf_risk_freq_window_seconds (x_cfg E))"

definition record_denial :: "ext \<Rightarrow> string \<Rightarrow> unit step" where
  "record_denial E identity_id =
     bnd (bump (denial_key identity_id) (cf_risk_denial_window_seconds (x_cfg E))) (\<lambda>_. ret ())"

definition apply_decay :: "ext \<Rightarrow> string \<Rightarrow> string \<Rightarrow> string \<Rightarrow> unit step" where
  "apply_decay E identity_id server_id tool_name =
     (let key = decay_key identity_id server_id tool_name in
      bnd (r_incrby key (cf_risk_decay_step (x_cfg E))) (\<lambda>_.
      r_expire key (cf_risk_decay_ttl_seconds (x_cfg E))))"

text \<open>What a score is computed from, once the call is counted.\<close>

definition gather ::
  "ext \<Rightarrow> string \<Rightarrow> string \<Rightarrow> string \<Rightarrow> json \<Rightarrow> risk_policy \<Rightarrow> int \<Rightarrow> risk_context step"
where
  "gather E identity_id server_id tool_name arguments risk_policy call_count =
     bnd now (\<lambda>t.
     bnd (has_pending_drift server_id tool_name) (\<lambda>pending.
     bnd (counter (denial_key identity_id)) (\<lambda>denials.
     bnd (counter AUTH_FAILURE_KEY) (\<lambda>failures.
     bnd (recent_drift_count server_id tool_name (cf_risk_drift_history_window_seconds (x_cfg E))) (\<lambda>drifts.
     bnd (is_suspicious server_id tool_name) (\<lambda>suspicious.
     ret \<lparr>rc_identity_id = identity_id, rc_tool_name = tool_name, rc_arguments = arguments,
          rc_policy = risk_policy, rc_now = t, rc_call_count = call_count,
          rc_drift_in_review = pending, rc_denial_count = denials,
          rc_auth_failure_count = failures, rc_drift_event_count = drifts,
          rc_suspicious_baseline = suspicious\<rparr>))))))"

definition score ::
  "ext \<Rightarrow> string \<Rightarrow> string \<Rightarrow> string \<Rightarrow> json \<Rightarrow> risk_policy \<Rightarrow> bool
     \<Rightarrow> (int \<times> risk_factor list) step"
where
  "score E identity_id server_id tool_name arguments risk_policy dry_run =
     bnd (if dry_run
          then bnd (counter (freq_key identity_id server_id tool_name)) (\<lambda>n. ret (n + 1))
          else bump_frequency E identity_id server_id tool_name) (\<lambda>call_count.
     bnd (gather E identity_id server_id tool_name arguments risk_policy call_count) (\<lambda>ctx.
     let factors = factors_of E ctx in
     bnd (counter (decay_key identity_id server_id tool_name)) (\<lambda>decay_raw.
     ret (combine factors (min decay_raw (cf_risk_decay_max (x_cfg E))), factors))))"

section \<open>Facts\<close>

lemma contribution_positive: "f \<in> set (factors_of E ctx) \<Longrightarrow> 0 < rf_contribution f"
proof -
  assume "f \<in> set (factors_of E ctx)"
  then obtain fn where "fn \<in> set (FACTORS E)" "fn ctx = Some f" by (auto simp: factors_of_def)
  then show ?thesis
    by (auto simp: FACTORS_def tool_sensitivity_factor_def blast_radius_def business_hours_def
        call_frequency_def drift_in_review_def prior_denial_rate_def auth_failures_def
        drift_history_def suspicious_baseline_def factor_def Let_def PROTECTED_CONTRIBUTION_def
        OFF_HOURS_CONTRIBUTION_def FREQUENCY_CONTRIBUTION_def DRIFT_IN_REVIEW_CONTRIBUTION_def
        PRIOR_DENIAL_CONTRIBUTION_def AUTH_FAILURE_CONTRIBUTION_def DRIFT_HISTORY_CONTRIBUTION_def
        SUSPICIOUS_BASELINE_CONTRIBUTION_def
        split: option.splits prod.splits if_splits)
      (rename_tac t, case_tac t, simp_all)
qed

lemma sum_list_nonneg_filter:
  "(\<And>f. f \<in> set fs \<Longrightarrow> 0 < rf_contribution f) \<Longrightarrow> 0 \<le> sum_list (map rf_contribution (filter p fs))"
  by (rule sum_list_nonneg) (auto intro: less_imp_le)

definition static_part :: "risk_factor list \<Rightarrow> int" where
  "static_part fs = sum_list (map rf_contribution (filter (\<lambda>f. \<not> is_behavioral f) fs))"

lemma combine_bounds:
  "(\<And>f. f \<in> set fs \<Longrightarrow> 0 < rf_contribution f) \<Longrightarrow>
     0 \<le> combine fs d \<and> combine fs d \<le> 100 \<and> min (static_part fs) 100 \<le> combine fs d"
  using sum_list_nonneg_filter [of fs "\<lambda>f. \<not> is_behavioral f"]
  by (auto simp: combine_def static_part_def Let_def)

lemma combine_antitone: "d \<le> d' \<Longrightarrow> combine fs d' \<le> combine fs d"
  by (auto simp: combine_def Let_def)

lemma counter_Inr:
  "counter k w = (Inr n, w') \<Longrightarrow> quiet w w' \<and> counter_value (r_live w k) = Inr n"
  by (auto simp: counter_def bnd_Inr_iff dest!: r_get_Inr)

lemma score_Inr:
  assumes "score E i s t a p dry w = (Inr (k, fs), w')"
  shows "\<exists>ctx d. fs = factors_of E ctx \<and> k = combine fs (min d (cf_risk_decay_max (x_cfg E)))"
  using assms by (auto simp: score_def Let_def bnd_Inr_iff)

text \<open>Scoring after the call was counted depends on Redis only through three other keys.\<close>

lemma r_live_update_other:
  "k \<noteq> j \<Longrightarrow> r_live (w\<lparr>w_redis := (w_redis w)(k := e)\<rparr>) j = r_live w j"
  by (simp add: r_live_def split: option.split)

lemma gather_calm:
  assumes "w_faults w = []" and "k \<noteq> denial_key i" and "k \<noteq> AUTH_FAILURE_KEY"
  shows "fst (gather E i s t a p n (w\<lparr>w_redis := (w_redis w)(k := e)\<rparr>)) = fst (gather E i s t a p n w)
    \<and> snd (gather E i s t a p n w) = w
    \<and> snd (gather E i s t a p n (w\<lparr>w_redis := (w_redis w)(k := e)\<rparr>)) = w\<lparr>w_redis := (w_redis w)(k := e)\<rparr>"
  using assms
  by (simp add: gather_def bnd_def now_def has_pending_drift_def baseline_of_def db_read_def
      counter_def r_get_def recent_drift_count_def is_suspicious_def r_live_update_other ret_def
      split: sum.split)

lemma keys_distinct [simp]:
  "freq_key i s t \<noteq> denial_key j" "freq_key i s t \<noteq> AUTH_FAILURE_KEY"
  "freq_key i s t \<noteq> decay_key j u v"
  by (simp_all add: freq_key_def denial_key_def AUTH_FAILURE_KEY_def decay_key_def)

lemma bump_calm:
  assumes "w_faults w = []" and "r_live w k = None \<or> (\<exists>n. r_live w k = Some (RNum n))"
  shows "\<exists>e. bump k window w =
    (res_bnd (counter_value (r_live w k)) (\<lambda>n. Inr (n + 1)), w\<lparr>w_redis := (w_redis w)(k := e)\<rparr>)"
proof -
  define v where "v = (case r_live w k of Some (RNum n) \<Rightarrow> n | _ \<Rightarrow> 0)"
  from assms(2) have v: "counter_value (r_live w k) = Inr v"
    by (auto simp: counter_value_def v_def)
  from assms obtain e where incr: "r_incr k w = (Inr (v + 1), r_put k e w)"
    by (auto simp: r_incr_def r_incrby_def v_def)
  have "\<exists>e. (if v + 1 = 1 then r_expire k window else ret ()) (r_put k e0 w)
      = (Inr (), w\<lparr>w_redis := (w_redis w)(k := e)\<rparr>)" for e0
    using assms(1) by (auto simp: r_expire_def r_put_def ret_def split: option.split)
  then obtain e2 where "(if v + 1 = 1 then r_expire k window else ret ()) (r_put k e w)
      = (Inr (), w\<lparr>w_redis := (w_redis w)(k := e2)\<rparr>)" by blast
  with incr v show ?thesis
    by (intro exI [of _ e2]) (simp add: bump_def bnd_def ret_def)
qed

text \<open>
  With the stores reachable, a live run returns what a dry run returns; it changes the counter
  of the call, a dry run nothing.
\<close>

lemma score_calm:
  assumes "w_faults w = []" and "r_live w (freq_key i s t) = None \<or> (\<exists>n. r_live w (freq_key i s t) = Some (RNum n))"
  shows "\<exists>r e. score E i s t a p True w = (r, w)
    \<and> score E i s t a p False w = (r, w\<lparr>w_redis := (w_redis w)(freq_key i s t := e)\<rparr>)"
proof -
  obtain e where b: "bump (freq_key i s t) (cf_risk_freq_window_seconds (x_cfg E)) w =
    (res_bnd (counter_value (r_live w (freq_key i s t))) (\<lambda>n. Inr (n + 1)),
      w\<lparr>w_redis := (w_redis w)(freq_key i s t := e)\<rparr>)"
    using bump_calm [OF assms] by blast
  from assms(2) obtain v where v: "counter_value (r_live w (freq_key i s t)) = Inr v"
    by (auto simp: counter_value_def)
  let ?w = "w\<lparr>w_redis := (w_redis w)(freq_key i s t := e)\<rparr>"
  note g = gather_calm [OF assms(1), of "freq_key i s t" i E s t a p "v + 1" e]
  have live: "r_live ?w (decay_key i s t) = r_live w (decay_key i s t)"
    by (rule r_live_update_other) simp
  obtain r where r: "gather E i s t a p (v + 1) w = (r, w)" "gather E i s t a p (v + 1) ?w = (r, ?w)"
    using g by (metis keys_distinct(1,2) prod.collapse)
  show ?thesis
    using assms(1) b v r live
    by (intro exI [of _ "fst (score E i s t a p True w)"] exI [of _ e])
      (simp add: score_def bump_frequency_def bnd_def counter_def r_get_def Let_def ret_def
        split: sum.split)
qed

section \<open>Properties\<close>

text \<open>
  C26: Every score lies between 0 and 100, is at least the static subtotal (capped at 100), and
  decay takes off at most the configured maximum: approvals can never discount a tool's tier.
\<close>
theorem score_bounds:
  assumes "score E i s t a p dry w = (Inr (k, fs), w')" and "0 \<le> cf_risk_decay_max (x_cfg E)"
  shows "0 \<le> k \<and> k \<le> 100 \<and> min (static_part fs) 100 \<le> k
    \<and> combine fs 0 - cf_risk_decay_max (x_cfg E) \<le> k"
proof -
  from score_Inr [OF assms(1)] obtain ctx d where fs: "fs = factors_of E ctx"
    and k: "k = combine fs (min d (cf_risk_decay_max (x_cfg E)))" by blast
  have "0 \<le> k \<and> k \<le> 100 \<and> min (static_part fs) 100 \<le> k"
    unfolding k by (rule combine_bounds) (auto simp: fs dest: contribution_positive)
  moreover have "combine fs 0 - cf_risk_decay_max (x_cfg E) \<le> k"
    using assms(2) by (simp add: k combine_def Let_def min_def max_def)
  ultimately show ?thesis by simp
qed

definition demo_args :: json where
  "demo_args = JObj [(''repo'', JStr ''prod/app'')]"

theorem score_bounds_witness:
  "\<exists>k fs. fst (score demo ''ops'' ''srv'' ''write'' demo_args (p_risk demo_policy) False demo_world)
     = Inr (k, fs) \<and> k = 60 \<and> static_part fs \<le> k"
proof -
  let ?m = "score demo ''ops'' ''srv'' ''write'' demo_args (p_risk demo_policy) False demo_world"
  define fs where "fs = (case fst ?m of Inr (k, fs) \<Rightarrow> fs | Inl e \<Rightarrow> [])"
  have run: "fst ?m = Inr (60, fs)" unfolding fs_def by code_simp
  then have "?m = (Inr (60, fs), snd ?m)" by (simp add: prod_eq_iff)
  from score_bounds [OF this] have "static_part fs \<le> 60"
    by (auto simp: demo_def default_settings_def min_def split: if_splits)
  with run show ?thesis by blast
qed

text \<open>
  The bands: a score maps to allow below 40, to a challenge from 40, to human approval from
  70 and to deny above 90, and to nothing else.
\<close>
theorem threshold_bands:
  "(threshold_outcome k = Allow \<longleftrightarrow> k < 40) \<and> (threshold_outcome k = Challenge \<longleftrightarrow> 40 \<le> k \<and> k < 70)
   \<and> (threshold_outcome k = HumanApprovalRequired \<longleftrightarrow> 70 \<le> k \<and> k \<le> 90)
   \<and> (threshold_outcome k = Deny \<longleftrightarrow> 90 < k)"
  by (simp add: threshold_outcome_def RISK_DENY_ABOVE_def RISK_APPROVAL_MIN_def RISK_CHALLENGE_MIN_def)

text \<open>
  A dry run predicts the live score: with the stores reachable it returns exactly what
  scoring the call for real would return, and it changes nothing.
\<close>
theorem dry_run_predicts_live:
  assumes "w_faults w = []" and "r_live w (freq_key i s t) = None \<or> (\<exists>n. r_live w (freq_key i s t) = Some (RNum n))"
  shows "fst (score E i s t a p True w) = fst (score E i s t a p False w)
    \<and> snd (score E i s t a p True w) = w"
  using score_calm [OF assms, of E a p] by auto

theorem dry_run_predicts_live_witness:
  "fst (score demo ''ops'' ''srv'' ''write'' demo_args (p_risk demo_policy) True demo_world)
     = fst (score demo ''ops'' ''srv'' ''write'' demo_args (p_risk demo_policy) False demo_world)"
proof -
  have "w_faults demo_world = []" "r_live demo_world (freq_key ''ops'' ''srv'' ''write'') = None"
    by (simp_all add: demo_world_def r_live_def)
  then show ?thesis using dry_run_predicts_live by blast
qed

text \<open>
  The counters of different identities can share a key: the parts of a key are joined by
  colons without escaping, so a server or tool name with a colon makes two triples collide.
\<close>
theorem risk_keys_collide:
  "freq_key ''a'' ''b:c'' ''d'' = freq_key ''a:b'' ''c'' ''d''
   \<and> decay_key ''a'' ''b:c'' ''d'' = decay_key ''a:b'' ''c'' ''d''"
  by (simp add: freq_key_def decay_key_def)

end
