(* ===== verification/Auth.thy ===== *)
theory Auth
  imports Risk
begin

text \<open>
  The auth layer (\<open>auth.py\<close>): bearer keys by hash lookup, signed requests by HMAC over the
  canonical tuple, and the best-effort counter of failed lookups.
\<close>

definition KEY_ID_META_KEY :: string where "KEY_ID_META_KEY = ''portunusmcp/key-id''"
definition SIGNATURE_META_KEY :: string where "SIGNATURE_META_KEY = ''portunusmcp/signature''"

definition resolve_identity :: "ext \<Rightarrow> string option \<Rightarrow> engine \<Rightarrow> string option" where
  "resolve_identity E api_key en =
     (if \<not> given api_key then None
      else identity_for_key_hash en (''sha256:'' @ x_sha256 E (the api_key)))"

definition count_failure :: "ext \<Rightarrow> unit step" where
  "count_failure E =
     try_catch
       (bnd (bump AUTH_FAILURE_KEY (cf_risk_auth_failure_window_seconds (x_cfg E))) (\<lambda>_. ret ()))
       (\<lambda>e. ret ())"

definition resolve_identity_tracked :: "ext \<Rightarrow> string option \<Rightarrow> engine \<Rightarrow> string option step" where
  "resolve_identity_tracked E api_key en =
     (let identity_id = resolve_identity E api_key en in
      bnd (if identity_id = None \<and> given api_key then count_failure E else ret ()) (\<lambda>_.
      ret identity_id))"

definition signature_document :: "json \<Rightarrow> json \<Rightarrow> string \<Rightarrow> json \<Rightarrow> json \<Rightarrow> json" where
  "signature_document nonce timestamp method tool arguments = JObj
     [(''nonce'', nonce), (''timestamp'', timestamp), (''method'', JStr method), (''tool'', tool),
      (''arguments'', arguments)]"

definition sign_request ::
  "ext \<Rightarrow> string \<Rightarrow> json \<Rightarrow> json \<Rightarrow> string \<Rightarrow> json \<Rightarrow> json \<Rightarrow> string res"
where
  "sign_request E secret nonce timestamp method tool arguments =
     res_bnd (canon E (signature_document nonce timestamp method tool arguments)) (\<lambda>payload.
       Inr (x_hmac_sha256 E secret payload))"

text \<open>The members of a request the signature covers; tool and arguments only for tools/call.\<close>

definition covered :: "json \<Rightarrow> string \<Rightarrow> (json \<times> json) res" where
  "covered params method =
     (if method = ''tools/call'' then
        res_bnd (py_get params ''name'') (\<lambda>tool.
        res_bnd (py_get params ''arguments'') (\<lambda>arguments. Inr (tool, arguments)))
      else Inr (JNull, JNull))"

definition check_signature ::
  "ext \<Rightarrow> engine \<Rightarrow> json \<Rightarrow> string \<Rightarrow> string \<Rightarrow> string \<Rightarrow> json \<Rightarrow> json \<Rightarrow> string option res"
where
  "check_signature E en params method key_id signature nonce timestamp =
     (case identity_for_key_id en key_id of
        None \<Rightarrow> Inr None
      | Some identity_id \<Rightarrow>
          (case identity_of en identity_id of
             None \<Rightarrow> Inr None
           | Some x \<Rightarrow>
               if id_auth_mode x \<noteq> Signed then Inr None
               else
                 res_bnd (covered params method) (\<lambda>(tool, arguments).
                 res_bnd (sign_request E (id_signing_secret x) nonce timestamp method tool arguments)
                   (\<lambda>expected.
                 res_bnd (compare_digest expected signature) (\<lambda>equal.
                   Inr (if equal then Some identity_id else None))))))"

definition verify_signed_request :: "ext \<Rightarrow> json \<Rightarrow> engine \<Rightarrow> string option res" where
  "verify_signed_request E message en =
     res_bnd (py_get message ''params'') (\<lambda>raw_params.
     let params = py_or raw_params (JObj []) in
     if \<not> is_dict params then Inr None
     else
       res_bnd (py_get params ''_meta'') (\<lambda>raw_meta.
       let meta = py_or raw_meta (JObj []) in
       if \<not> is_dict meta then Inr None
       else
         res_bnd (py_get message ''method'') (\<lambda>method.
         res_bnd (py_get meta KEY_ID_META_KEY) (\<lambda>key_id.
         res_bnd (py_get meta SIGNATURE_META_KEY) (\<lambda>signature.
         res_bnd (py_get meta NONCE_META_KEY) (\<lambda>nonce.
         res_bnd (py_get meta TIMESTAMP_META_KEY) (\<lambda>timestamp.
           case (method, key_id, signature) of
             (JStr m, JStr k, JStr sig) \<Rightarrow>
               if nonce = JNull \<or> timestamp = JNull then Inr None
               else check_signature E en params m k sig nonce timestamp
           | _ \<Rightarrow> Inr None)))))))"

text \<open>Whether a failed request presented key material.\<close>

definition has_key_material :: "json \<Rightarrow> bool" where
  "has_key_material message =
     (case message of
        JObj d \<Rightarrow>
          (case map_of d ''params'' of
             Some (JObj p) \<Rightarrow>
               (case map_of p ''_meta'' of
                  Some (JObj m) \<Rightarrow>
                    (case map_of m KEY_ID_META_KEY of None \<Rightarrow> False | Some v \<Rightarrow> v \<noteq> JNull)
                    \<or> (case map_of m SIGNATURE_META_KEY of None \<Rightarrow> False | Some v \<Rightarrow> v \<noteq> JNull)
                | _ \<Rightarrow> False)
           | _ \<Rightarrow> False)
      | _ \<Rightarrow> False)"

definition verify_signed_request_tracked :: "ext \<Rightarrow> json \<Rightarrow> engine \<Rightarrow> string option step" where
  "verify_signed_request_tracked E message en =
     bnd (lift_res (verify_signed_request E message en)) (\<lambda>identity_id.
     bnd (if identity_id = None \<and> has_key_material message then count_failure E else ret ()) (\<lambda>_.
     ret identity_id))"

section \<open>Facts\<close>

lemma count_failure_returns: "fst (count_failure E w) = Inr ()"
  by (simp add: count_failure_def try_catch_def split: prod.split sum.split)

lemma check_signature_Some:
  assumes "check_signature E en params m k sig nonce timestamp = Inr (Some i)"
  shows "\<exists>x tool arguments. identity_for_key_id en k = Some i \<and> identity_of en i = Some x
    \<and> id_auth_mode x = Signed \<and> covered params m = Inr (tool, arguments)
    \<and> sign_request E (id_signing_secret x) nonce timestamp m tool arguments = Inr sig"
  using assms
  by (auto simp: check_signature_def res_bnd_Inr_iff compare_digest_def split: option.splits if_splits)

lemma verify_signed_request_Some:
  assumes "verify_signed_request E message en = Inr (Some i)"
  shows "\<exists>params m k sig nonce timestamp. py_get message ''method'' = Inr (JStr m)
    \<and> check_signature E en params m k sig nonce timestamp = Inr (Some i)
    \<and> nonce \<noteq> JNull \<and> timestamp \<noteq> JNull
    \<and> (\<exists>raw meta. py_get message ''params'' = Inr raw \<and> params = py_or raw (JObj [])
        \<and> (\<exists>raw_meta. py_get params ''_meta'' = Inr raw_meta \<and> meta = py_or raw_meta (JObj []))
        \<and> py_get meta KEY_ID_META_KEY = Inr (JStr k) \<and> py_get meta SIGNATURE_META_KEY = Inr (JStr sig)
        \<and> py_get meta NONCE_META_KEY = Inr nonce \<and> py_get meta TIMESTAMP_META_KEY = Inr timestamp)"
proof -
  from assms obtain raw where 1: "py_get message ''params'' = Inr raw"
    by (auto simp: verify_signed_request_def res_bnd_Inr_iff)
  obtain params where params: "params = py_or raw (JObj [])" by blast
  from assms 1 params obtain raw_meta where 2: "py_get params ''_meta'' = Inr raw_meta"
    by (simp add: verify_signed_request_def res_bnd_Inr_iff Let_def del: py_get_simps split: if_splits)
  obtain meta where meta: "meta = py_or raw_meta (JObj [])" by blast
  from assms 1 2 params meta obtain a b c nonce timestamp where
    3: "py_get message ''method'' = Inr a" "py_get meta KEY_ID_META_KEY = Inr b"
      "py_get meta SIGNATURE_META_KEY = Inr c" "py_get meta NONCE_META_KEY = Inr nonce"
      "py_get meta TIMESTAMP_META_KEY = Inr timestamp" and
    4: "(case (a, b, c) of
             (JStr m, JStr k, JStr sig) \<Rightarrow>
               if nonce = JNull \<or> timestamp = JNull then Inr None
               else check_signature E en params m k sig nonce timestamp
           | _ \<Rightarrow> Inr None) = Inr (Some i)"
    by (simp add: verify_signed_request_def res_bnd_Inr_iff Let_def del: py_get_simps split: if_splits)
       blast
  from 4 obtain m where m: "a = JStr m" by (cases a) simp_all
  from 4 m obtain k where k: "b = JStr k" by (cases b) simp_all
  from 4 m k obtain sig where sig: "c = JStr sig" by (cases c) simp_all
  from 4 m k sig have "nonce \<noteq> JNull" "timestamp \<noteq> JNull"
    "check_signature E en params m k sig nonce timestamp = Inr (Some i)"
    by (simp_all split: if_splits)
  with 1 2 3 m k sig params meta show ?thesis by blast
qed

text \<open>What validation establishes for each identity of a policy.\<close>

lemma check_auth_fields_signed:
  assumes "check_auth_fields environ i = Inr j" and "id_auth_mode j = Signed"
  shows "\<not> id_admin j \<and> id_signing_secret j \<noteq> []"
proof -
  from assms(1) obtain k where k: "check_signing environ (i\<lparr>id_signing_secret := [], id_totp_secret := []\<rparr>) = Inr k"
    "check_totp environ k = Inr j" by (auto simp: check_auth_fields_def res_bnd_Inr_iff)
  from check_totp_Inr [OF k(2)] have "j = k\<lparr>id_totp_secret := id_totp_secret j\<rparr>" by blast
  then have "id_auth_mode j = id_auth_mode k" "id_admin j = id_admin k"
    "id_signing_secret j = id_signing_secret k"
    by (metis identity.ext_inject identity.surjective identity.update_convs(11))+
  with check_signing_Inr [OF k(1)] assms(2) show ?thesis by auto
qed

lemma validate_policy_identities:
  assumes "validate_policy parse environ p = Inr p'" and "x \<in> set (p_identities p')"
  shows "\<exists>i. check_auth_fields environ i = Inr x"
proof -
  from assms(1) obtain js where "res_map (validate_identity parse environ) (p_identities p) = Inr js"
    "p_identities p' = js"
    by (auto simp: validate_policy_def check_servers_def bad_identity_def res_bnd_Inr_iff
        split: if_splits option.splits)
  with assms(2) res_map_Inr_in [of "validate_identity parse environ" "p_identities p" js x]
  show ?thesis by (auto simp: validate_identity_def res_bnd_Inr_iff)
qed

section \<open>Properties\<close>


definition demo_signed_request :: "string \<Rightarrow> json" where
  "demo_signed_request sig = JObj [(''method'', JStr ''tools/list''), (''params'', JObj [(''_meta'', JObj
     [(KEY_ID_META_KEY, JStr ''bot-key''), (SIGNATURE_META_KEY, JStr sig), (NONCE_META_KEY, JStr ''n''),
      (TIMESTAMP_META_KEY, JInt 1)])])]"

definition demo_signature :: string where
  "demo_signature = (case sign_request demo ''s3cret'' (JStr ''n'') (JInt 1) ''tools/list'' JNull JNull of
     Inr s \<Rightarrow> s | Inl e \<Rightarrow> [])"


text \<open>
  Under a validated policy the signed path never yields an administrator, and the secret it
  verified with is not empty.
\<close>
theorem signed_identity_never_admin:
  assumes "validate_policy parse environ p = Inr p'"
    and "verify_signed_request E message (make_engine p' h raw) = Inr (Some i)"
  shows "\<not> is_admin (make_engine p' h raw) i
    \<and> (\<exists>x. identity_of (make_engine p' h raw) i = Some x \<and> id_signing_secret x \<noteq> [])"
proof -
  from verify_signed_request_Some [OF assms(2)] obtain params m k sig nonce timestamp where
    "check_signature E (make_engine p' h raw) params m k sig nonce timestamp = Inr (Some i)" by blast
  from check_signature_Some [OF this] obtain x where
    x: "identity_of (make_engine p' h raw) i = Some x" "id_auth_mode x = Signed" by blast
  from identity_of_make_engine [OF x(1)] have "x \<in> set (p_identities p')" by simp
  from validate_policy_identities [OF assms(1) this] obtain j where "check_auth_fields environ j = Inr x" ..
  from check_auth_fields_signed [OF this x(2)] x(1) show ?thesis by (simp add: is_admin_def)
qed

theorem signed_identity_never_admin_witness: "\<not> is_admin demo_engine ''bot''"
proof -
  have v: "validate_policy demo_parse (x_environ demo) demo_policy = Inr demo_policy" by code_simp
  have "verify_signed_request demo (demo_signed_request demo_signature) (make_engine demo_policy ''hash1'' ''raw1'')
      = Inr (Some ''bot'')" by code_simp
  from signed_identity_never_admin [OF v this] show ?thesis by (simp add: demo_engine_def)
qed

text \<open>
  A bearer key resolves only to an identity of the policy whose stored hash is the hash of
  the presented key; a missing or empty key resolves to nobody.
\<close>
theorem bearer_key_resolves_by_hash:
  assumes "resolve_identity E api_key (make_engine p h raw) = Some i"
  shows "\<exists>key x. api_key = Some key \<and> key \<noteq> [] \<and> x \<in> set (p_identities p) \<and> id_id x = i
    \<and> id_api_key_hash x = Some (''sha256:'' @ x_sha256 E key)"
proof -
  from assms have g: "given api_key" by (simp add: resolve_identity_def split: if_splits)
  then obtain key where key: "api_key = Some key" "key \<noteq> []"
    by (cases api_key) (auto simp: given_def)
  with assms g have "identity_for_key_hash (make_engine p h raw) (''sha256:'' @ x_sha256 E key) = Some i"
    by (simp add: resolve_identity_def)
  note key = key this
  from key_hash_make_engine [OF key(3)] key(1,2) show ?thesis by blast
qed

theorem bearer_key_resolves_by_hash_witness:
  "\<exists>x \<in> set (p_identities demo_policy). id_id x = ''ops''"
proof -
  have "resolve_identity demo (Some ''key'') (make_engine demo_policy ''hash1'' ''raw1'') = Some ''ops''"
    by code_simp
  from bearer_key_resolves_by_hash [OF this] show ?thesis by blast
qed

text \<open>
  Counting failed lookups is best effort: whatever happens to Redis, tracked resolution
  answers exactly as untracked resolution does and never raises.
\<close>
theorem tracked_resolution_unaffected_by_redis:
  "fst (resolve_identity_tracked E api_key en w) = Inr (resolve_identity E api_key en)
   \<and> fst (verify_signed_request_tracked E message en w) = verify_signed_request E message en"
  using count_failure_returns [of E w]
  by (auto simp: resolve_identity_tracked_def verify_signed_request_tracked_def Let_def bnd_def
      split: prod.split sum.split)

text \<open>
  A signature with a non-ASCII character is not refused but raises: the digest comparison
  rejects such strings with a TypeError, so the request ends as a server error, uncounted.
\<close>
theorem non_ascii_signature_raises:
  "verify_signed_request demo (demo_signed_request [CHR 0xC3, CHR 0xA9]) demo_engine = Inl TypeError
   \<and> w_redis (snd (verify_signed_request_tracked demo (demo_signed_request [CHR 0xC3, CHR 0xA9])
       demo_engine demo_world)) AUTH_FAILURE_KEY = None"
  by code_simp

text \<open>
  Two identities of one policy may share an id; the later one wins the id while both keys
  stay valid, so the first one's key acts with the second one's privileges.
\<close>
theorem duplicate_identity_inherits_privileges:
  "let low = demo_ops\<lparr>id_id := ''x'', id_api_key_hash := Some ''sha256:low'', id_admin := False,
               id_allowed_servers := []\<rparr>;
       high = demo_ops\<lparr>id_id := ''x'', id_api_key_hash := Some ''sha256:high''\<rparr>;
       p = demo_policy\<lparr>p_identities := [low, high]\<rparr>;
       en = make_engine p ''h'' ''raw''
   in (case validate_policy demo_parse (x_environ demo) p of Inr _ \<Rightarrow> True | Inl _ \<Rightarrow> False)
      \<and> resolve_identity demo (Some ''low'') en = Some ''x'' \<and> is_admin en ''x''"
  by code_simp

end
