(* ===== verification/Interceptor.thy ===== *)
theory Interceptor
  imports Auth
begin

text \<open>
  The interceptor (\<open>jsonrpc_interceptor.py\<close>), one per session: every message of the client and
  every message of the upstream passes through it. A stage of the call pipeline either stops
  with the message to send or goes on with a value (\<open>verdict\<close>); the stages are run in the
  order of the code.
\<close>

section \<open>Messages\<close>

datatype rpc =
    Request rpc_id string "(string \<times> json) list option"
  | Notification string "(string \<times> json) list option"
  | Response rpc_id "(string \<times> json) list"
  | RpcError rpc_id int string "json option"

datatype outgoing = Forward rpc | Respond rpc

definition POLICY_DENIED_CODE :: int where "POLICY_DENIED_CODE = -32003"
definition AUDIT_UNAVAILABLE_CODE :: int where "AUDIT_UNAVAILABLE_CODE = -32004"

definition GATEWAY_META_KEYS :: "string list" where
  "GATEWAY_META_KEYS = [NONCE_META_KEY, TIMESTAMP_META_KEY, APPROVAL_META_KEY,
     CHALLENGE_ID_META_KEY, CHALLENGE_PROOF_META_KEY, KEY_ID_META_KEY, SIGNATURE_META_KEY]"

definition strip_gateway_meta ::
  "(string \<times> json) list option \<Rightarrow> (string \<times> json) list option"
where
  "strip_gateway_meta params =
     (case params of
        None \<Rightarrow> None
      | Some d \<Rightarrow>
          (case map_of d ''_meta'' of
             Some (JObj meta) \<Rightarrow>
               let rest = filter (\<lambda>(k, v). k \<notin> set GATEWAY_META_KEYS) meta
               in Some (if rest = [] then AList.delete ''_meta'' d
                        else AList.update ''_meta'' (JObj rest) d)
           | _ \<Rightarrow> Some d))"

definition rpc_error :: "rpc_id \<Rightarrow> int \<Rightarrow> string \<Rightarrow> json option \<Rightarrow> outgoing" where
  "rpc_error request_id code message dat = Respond (RpcError request_id code message dat)"

text \<open>The interceptor's own fields; its stores are those of the world.\<close>

record interceptor =
  ic_identity_id :: string
  ic_server_id :: string
  ic_session_id :: string

text \<open>One call being decided.\<close>

record call =
  cl_id :: rpc_id
  cl_tool :: string
  cl_arguments :: json
  cl_meta :: json

definition pop_pending :: "interceptor \<Rightarrow> rpc_id \<Rightarrow> string option step" where
  "pop_pending S rid = (\<lambda>w. (Inr (w_pending w (ic_session_id S, rid)),
     w\<lparr>w_pending := (w_pending w)((ic_session_id S, rid) := None)\<rparr>))"

definition set_pending :: "interceptor \<Rightarrow> rpc_id \<Rightarrow> string \<Rightarrow> unit step" where
  "set_pending S rid method =
     modify (\<lambda>w. w\<lparr>w_pending := (w_pending w)((ic_session_id S, rid) := Some method)\<rparr>)"

section \<open>Stages\<close>

datatype 'a verdict = Stop outgoing | Go 'a

definition proceed :: "'a verdict step \<Rightarrow> ('a \<Rightarrow> 'b verdict step) \<Rightarrow> 'b verdict step" where
  "proceed m f = bnd m (\<lambda>v. case v of Stop out \<Rightarrow> ret (Stop out) | Go x \<Rightarrow> f x)"

definition stop :: "outgoing step \<Rightarrow> 'a verdict step" where
  "stop m = bnd m (\<lambda>out. ret (Stop out))"

definition dump_factors :: "risk_factor list \<Rightarrow> json" where
  "dump_factors fs = JList (map dump_factor fs)"

definition factors_extra :: "risk_factor list option \<Rightarrow> (string \<times> json) list" where
  "factors_extra fs = (case fs of Some (f # rest) \<Rightarrow> [(''risk_factors'', dump_factors (f # rest))] | _ \<Rightarrow> [])"

definition call_event ::
  "ext \<Rightarrow> interceptor \<Rightarrow> call \<Rightarrow> event_type \<Rightarrow> (string \<times> json) list \<Rightarrow> int option \<Rightarrow> int step"
where
  "call_event E S c ev extra k =
     audit_write E ev (ic_identity_id S) (Some (ic_server_id S)) (Some (cl_tool c)) extra k"

definition count_call :: "interceptor \<Rightarrow> call \<Rightarrow> event_type \<Rightarrow> unit step" where
  "count_call S c ev = emit (ToolCall (ic_identity_id S) (ic_server_id S) (cl_tool c) (event_value ev))"

definition make_decision ::
  "engine \<Rightarrow> outcome \<Rightarrow> event_type \<Rightarrow> string \<Rightarrow> string list \<Rightarrow> int option \<Rightarrow> risk_factor list option
     \<Rightarrow> decision"
where
  "make_decision en dec ev reason rules k fs =
     \<lparr>d_decision = dec, d_event_type = ev, d_reason = reason, d_matched_rules = rules,
      d_risk_score = k, d_risk_factors = fs, d_policy_version = en_version en,
      d_audit_id = None, d_approval_id = None, d_challenge_id = None, d_alternative = None\<rparr>"

text \<open>A terminal deny stands whether or not it could be counted and audited.\<close>

definition deny ::
  "ext \<Rightarrow> interceptor \<Rightarrow> call \<Rightarrow> event_type \<Rightarrow> string \<Rightarrow> string list \<Rightarrow> int option
     \<Rightarrow> risk_factor list option \<Rightarrow> outgoing step"
where
  "deny E S c ev reason rules k fs =
     bnd (pop_pending S (cl_id c)) (\<lambda>_.
     bnd (try_catch (record_denial E (ic_identity_id S)) (\<lambda>e. ret ())) (\<lambda>_.
     bnd the_engine (\<lambda>en.
     let d = make_decision en Deny ev reason rules k fs;
         extra = [(''reason'', JStr reason), (''matched_rules'', JList (map JStr rules)),
                  (''arguments'', cl_arguments c)] @ factors_extra fs in
     bnd (try_catch (bnd (call_event E S c ev extra k) (\<lambda>seq. ret (Some (dec_int seq))))
            (\<lambda>e. ret None)) (\<lambda>audit_id.
     bnd (count_call S c ev) (\<lambda>_.
     bnd (if ev = DENY_REPLAY then emit ReplayDenied else ret ()) (\<lambda>_.
     ret (rpc_error (cl_id c) POLICY_DENIED_CODE reason
            (Some (dump_decision (d\<lparr>d_audit_id := audit_id\<rparr>))))))))))"

definition policy_rule :: "engine \<Rightarrow> string \<Rightarrow> string" where
  "policy_rule en what = ''policy-v'' @ dec_int (en_version en) @ '':'' @ what"

definition deny_validation :: "ext \<Rightarrow> interceptor \<Rightarrow> call \<Rightarrow> string \<Rightarrow> outgoing step" where
  "deny_validation E S c reason =
     deny E S c DENY_VALIDATION (''invalid arguments for '' @ py_repr (cl_tool c) @ '': '' @ reason)
       [''param_validator''] None None"

definition deny_rbac :: "ext \<Rightarrow> interceptor \<Rightarrow> call \<Rightarrow> outgoing step" where
  "deny_rbac E S c =
     bnd the_engine (\<lambda>en.
     deny E S c DENY_RBAC
       (''identity '' @ py_repr (ic_identity_id S) @ '' is not authorized to call '' @ py_repr (cl_tool c))
       [policy_rule en ''rbac''] None None)"

subsection \<open>Replay\<close>

definition replay_required :: "bool \<Rightarrow> json \<Rightarrow> bool res" where
  "replay_required signed_mode meta =
     (if signed_mode then Inr True
      else res_bnd (py_in NONCE_META_KEY meta) (\<lambda>a.
        if a then Inr True else py_in TIMESTAMP_META_KEY meta))"

definition guarded_replay :: "ext \<Rightarrow> json \<Rightarrow> string option step" where
  "guarded_replay E meta =
     try_catch
       (bnd (lift_res (py_get meta NONCE_META_KEY)) (\<lambda>nonce.
        bnd (lift_res (py_get meta TIMESTAMP_META_KEY)) (\<lambda>timestamp.
        replay_check E nonce timestamp)))
       (\<lambda>e. ret (Some ''replay guard unavailable''))"

definition is_signed :: "identity option \<Rightarrow> bool" where
  "is_signed identity = (case identity of None \<Rightarrow> False | Some x \<Rightarrow> id_auth_mode x = Signed)"

definition replay_stage :: "ext \<Rightarrow> interceptor \<Rightarrow> call \<Rightarrow> identity option \<Rightarrow> unit verdict step" where
  "replay_stage E S c identity =
     bnd (lift_res (replay_required (is_signed identity) (cl_meta c))) (\<lambda>required.
     if \<not> required then ret (Go ())
     else bnd (guarded_replay E (cl_meta c)) (\<lambda>reason.
       case reason of
         None \<Rightarrow> ret (Go ())
       | Some r \<Rightarrow>
           stop (deny E S c DENY_REPLAY (''Replay detected: '' @ r) [''replay_guard''] None None)))"

subsection \<open>Conditions\<close>

text \<open>
  \<open>datetime.fromtimestamp(t, UTC).hour\<close>: the instant is rounded to microseconds, half to even;
  NaN, infinities and years outside 1 to 9999 raise.
\<close>

definition round_half_even :: "rat \<Rightarrow> int" where
  "round_half_even x =
     (let f = \<lfloor>x\<rfloor>; d = x - of_int f
      in if d < 1/2 then f else if 1/2 < d then f + 1 else if even f then f else f + 1)"

definition hour_of_timestamp :: "pyfloat \<Rightarrow> int res" where
  "hour_of_timestamp ts =
     (case ts of
        NaN \<Rightarrow> Inl (ValueError ''cannot convert float NaN to integer'')
      | PosInf \<Rightarrow> Inl OverflowError
      | NegInf \<Rightarrow> Inl OverflowError
      | Fin r \<Rightarrow>
          let secs = round_half_even (r * 1000000) div 1000000
          in if secs < -62135596800 \<or> 253402300799 < secs then Inl (ValueError ''year is out of range'')
             else Inr (secs div 3600 mod 24))"

definition context_hour :: "json \<Rightarrow> int step" where
  "context_hour meta =
     bnd (lift_res (py_get meta TIMESTAMP_META_KEY)) (\<lambda>timestamp.
     case as_number timestamp of
       Some ts \<Rightarrow> lift_res (hour_of_timestamp ts)
     | None \<Rightarrow> bnd now (\<lambda>t. ret (utc_hour t)))"

definition abac_attributes :: "interceptor \<Rightarrow> call \<Rightarrow> attrs step" where
  "abac_attributes S c =
     bnd the_engine (\<lambda>en.
     bnd (context_hour (cl_meta c)) (\<lambda>hour.
     ret (dict_of
       ([(''identity.id'', AStr (ic_identity_id S)), (''tool.name'', AStr (cl_tool c)),
         (''tool.server_id'', AStr (ic_server_id S))]
        @ (case identity_of en (ic_identity_id S) of
             None \<Rightarrow> []
           | Some x \<Rightarrow> map (\<lambda>(k, v). (''identity.'' @ k, v)) (id_attributes x))
        @ [(''context.hour'', AInt hour)]))))"

text \<open>The result of one condition: satisfied or not, and what made it impossible to evaluate.\<close>

definition judge :: "condition \<Rightarrow> attrs \<Rightarrow> bool \<times> string option" where
  "judge condition attrs =
     (case evaluate condition attrs of
        Inl e \<Rightarrow> (False, Some ''condition evaluation raised'')
      | Inr (satisfied, missing) \<Rightarrow>
          (satisfied, if missing \<noteq> [] then Some (''unresolvable attributes: '' @ join '', '' missing) else None))"

fun enforce_conditions ::
  "ext \<Rightarrow> interceptor \<Rightarrow> call \<Rightarrow> condition list \<Rightarrow> attrs \<Rightarrow> int option \<Rightarrow> risk_factor list option
     \<Rightarrow> unit verdict step"
where
  "enforce_conditions E S c [] attrs k fs = ret (Go ())"
| "enforce_conditions E S c (condition # conditions) attrs k fs =
     (case judge condition attrs of (satisfied, problem) \<Rightarrow>
       bnd (case problem of
              None \<Rightarrow> ret ()
            | Some p \<Rightarrow>
                try_catch
                  (bnd (call_event E S c POLICY_ERROR
                          [(''condition'', JStr (c_source condition)), (''reason'', JStr p)] None)
                     (\<lambda>_. ret ()))
                  (\<lambda>e. ret ())) (\<lambda>_.
       if \<not> satisfied then
         bnd the_engine (\<lambda>en.
         stop (deny E S c DENY_ABAC
           (''condition '' @ py_repr (c_source condition) @ '' not satisfied''
              @ (case problem of None \<Rightarrow> '''' | Some p \<Rightarrow> '' ('' @ p @ '')''))
           [policy_rule en (''abac:'' @ c_source condition)] k fs))
       else enforce_conditions E S c conditions attrs k fs))"

subsection \<open>Drift status and step-up\<close>

definition drift_stage :: "ext \<Rightarrow> interceptor \<Rightarrow> call \<Rightarrow> unit verdict step" where
  "drift_stage E S c =
     bnd (try_catch (is_blocked (ic_server_id S) (cl_tool c)) (\<lambda>e. ret True)) (\<lambda>drift_blocked.
     if drift_blocked then
       stop (deny E S c DENY_DRIFT
         (py_repr (cl_tool c) @ '' is blocked: schema drifted from its approved baseline''
            @ '' and is pending re-approval'') [''drift_detector''] None None)
     else ret (Go ()))"

definition redeem_step_up ::
  "ext \<Rightarrow> interceptor \<Rightarrow> call \<Rightarrow> identity option \<Rightarrow> string \<Rightarrow> string option step"
where
  "redeem_step_up E S c identity challenge_id =
     try_catch
       (bnd (lift_res (arguments_hash E (cl_arguments c))) (\<lambda>h.
        bnd (lift_res (py_get (cl_meta c) CHALLENGE_PROOF_META_KEY)) (\<lambda>proof.
        redeem_challenge E challenge_id (ic_identity_id S) (ic_server_id S) (cl_tool c) h proof
          (case identity of None \<Rightarrow> '''' | Some x \<Rightarrow> id_totp_secret x))))
       (\<lambda>e. ret (Some ''challenge store unavailable''))"

text \<open>The id of the challenge whose proof was verified, if the call carries one.\<close>

definition step_up_stage ::
  "ext \<Rightarrow> interceptor \<Rightarrow> call \<Rightarrow> identity option \<Rightarrow> string option verdict step"
where
  "step_up_stage E S c identity =
     bnd (lift_res (py_get (cl_meta c) CHALLENGE_ID_META_KEY)) (\<lambda>v.
     if v = JNull then ret (Go None)
     else
       let challenge_id = py_str (x_str_other E) v in
       bnd (redeem_step_up E S c identity challenge_id) (\<lambda>failure.
       case failure of
         Some f \<Rightarrow> stop (deny E S c DENY_STEP_UP (''step-up verification failed: '' @ f) [''step_up''] None None)
       | None \<Rightarrow> ret (Go (Some challenge_id))))"

subsection \<open>Approval or risk\<close>

definition redeem_granted :: "ext \<Rightarrow> interceptor \<Rightarrow> call \<Rightarrow> string \<Rightarrow> (event_type \<times> string) option step" where
  "redeem_granted E S c approval_id =
     try_catch
       (bnd (lift_res (arguments_hash E (cl_arguments c))) (\<lambda>h.
        redeem_approval approval_id (ic_identity_id S) (ic_server_id S) (cl_tool c) h))
       (\<lambda>e. ret (Some (DENY_APPROVAL_MISMATCH, ''approval store unavailable'')))"

definition approval_stage :: "ext \<Rightarrow> interceptor \<Rightarrow> call \<Rightarrow> string \<Rightarrow> unit verdict step" where
  "approval_stage E S c approval_id =
     bnd (redeem_granted E S c approval_id) (\<lambda>denial.
     case denial of
       Some (ev, reason) \<Rightarrow> stop (deny E S c ev reason [''approval_lifecycle''] None None)
     | None \<Rightarrow> ret (Go ()))"

definition step_up_capable :: "engine \<Rightarrow> string \<Rightarrow> bool" where
  "step_up_capable en i = (case identity_of en i of None \<Rightarrow> False | Some x \<Rightarrow> id_totp_secret x \<noteq> [])"

text \<open>
  The hold behind CHALLENGE and HUMAN_APPROVAL_REQUIRED: audit first, then the approval row or
  the challenge. The result is the decision with the ids obtained.
\<close>

definition hold ::
  "ext \<Rightarrow> interceptor \<Rightarrow> call \<Rightarrow> outcome \<Rightarrow> bool \<Rightarrow> decision \<Rightarrow> decision step"
where
  "hold E S c oc capable d =
     bnd (call_event E S c (d_event_type d)
            [(''reason'', JStr (d_reason d)), (''matched_rules'', JList (map JStr (d_matched_rules d))),
             (''arguments'', cl_arguments c),
             (''risk_factors'', dump_factors (case d_risk_factors d of None \<Rightarrow> [] | Some fs \<Rightarrow> fs))]
            (d_risk_score d)) (\<lambda>seq.
     let d1 = d\<lparr>d_audit_id := Some (dec_int seq)\<rparr> in
     if oc = HumanApprovalRequired then
       bnd (lift_res (arguments_hash E (cl_arguments c))) (\<lambda>h.
       bnd (create_approval E (ic_identity_id S) (ic_server_id S) (cl_tool c) h seq) (\<lambda>approval_id.
       ret (d1\<lparr>d_approval_id := Some approval_id\<rparr>)))
     else if capable then
       bnd (lift_res (arguments_hash E (cl_arguments c))) (\<lambda>h.
       bnd (create_challenge E (ic_identity_id S) (ic_server_id S) (cl_tool c) h seq) (\<lambda>challenge_id.
       ret (d1\<lparr>d_challenge_id := Some challenge_id\<rparr>)))
     else ret d1)"

definition risk_terminal ::
  "ext \<Rightarrow> interceptor \<Rightarrow> call \<Rightarrow> outcome \<Rightarrow> int \<Rightarrow> risk_factor list \<Rightarrow> outgoing step"
where
  "risk_terminal E S c oc k fs =
     (if oc = Deny then
        deny E S c DENY_RISK
          (''risk score '' @ dec_int k @ '' for '' @ py_repr (cl_tool c) @ '' exceeds the deny''
             @ '' threshold ('' @ dec_int RISK_DENY_ABOVE @ '')'')
          [''risk_engine''] (Some k) (Some fs)
      else
        bnd (pop_pending S (cl_id c)) (\<lambda>_.
        bnd the_engine (\<lambda>en.
        let capable = step_up_capable en (ic_identity_id S);
            ev = (if oc = HumanApprovalRequired then HUMAN_APPROVAL_REQUIRED else CHALLENGE);
            reason =
              (if oc = HumanApprovalRequired
               then ''risk score '' @ dec_int k @ '' for '' @ py_repr (cl_tool c)
                 @ '' requires human approval;'' @ '' retry with the approval id once granted''
               else ''risk score '' @ dec_int k @ '' for '' @ py_repr (cl_tool c) @ '' requires confirmation''
                 @ (if capable then ''; retry with the challenge id and a fresh TOTP code'' else ''''));
            d = make_decision en oc ev reason [''risk_engine''] (Some k) (Some fs) in
        bnd (try_catch (bnd (hold E S c oc capable d) (\<lambda>d1. ret (Some d1))) (\<lambda>e. ret None)) (\<lambda>held.
        case held of
          None \<Rightarrow> ret (rpc_error (cl_id c) AUDIT_UNAVAILABLE_CODE ''audit log unavailable; call denied'' None)
        | Some d1 \<Rightarrow>
            bnd (count_call S c ev) (\<lambda>_.
            ret (rpc_error (cl_id c) POLICY_DENIED_CODE reason (Some (dump_decision d1))))))))"

definition RISK_UNAVAILABLE :: "int \<times> risk_factor list" where
  "RISK_UNAVAILABLE = (100, [factor ''risk_engine_unavailable'' 100
     ''risk scoring failed; treated as maximum risk''])"

definition risk_stage ::
  "ext \<Rightarrow> interceptor \<Rightarrow> call \<Rightarrow> condition list \<Rightarrow> attrs \<Rightarrow> bool
     \<Rightarrow> (int \<times> risk_factor list) verdict step"
where
  "risk_stage E S c conditions abac_attrs step_up_verified =
     bnd the_engine (\<lambda>en.
     bnd (try_catch (score E (ic_identity_id S) (ic_server_id S) (cl_tool c) (cl_arguments c)
              (p_risk (en_policy en)) False)
            (\<lambda>e. ret RISK_UNAVAILABLE)) (\<lambda>(k, fs).
     bnd (emit (RiskScore k)) (\<lambda>_.
     proceed (enforce_conditions E S c (filter references_risk conditions)
         (AList.update ''risk.score'' (AInt k) abac_attrs) (Some k) (Some fs)) (\<lambda>_.
     let oc = threshold_outcome k in
     if oc = Challenge \<and> step_up_verified then ret (Go (k, fs))
     else if oc \<noteq> Allow then stop (risk_terminal E S c oc k fs)
     else ret (Go (k, fs))))))"

text \<open>The score and factors of a scored call; neither for a call a human approved.\<close>

definition decide_stage ::
  "ext \<Rightarrow> interceptor \<Rightarrow> call \<Rightarrow> string option \<Rightarrow> condition list \<Rightarrow> attrs \<Rightarrow> bool
     \<Rightarrow> (int \<times> risk_factor list) option verdict step"
where
  "decide_stage E S c approval_id conditions abac_attrs step_up_verified =
     (case approval_id of
        Some a \<Rightarrow> proceed (approval_stage E S c a) (\<lambda>_. ret (Go None))
      | None \<Rightarrow> proceed (risk_stage E S c conditions abac_attrs step_up_verified) (\<lambda>r. ret (Go (Some r))))"

subsection \<open>Argument validation\<close>

text \<open>
  The gateway's own tools/list: register the request, wait for the answer the upstream's pump
  hands over (\<open>w_replies\<close>, in order; none means the wait times out), check it for drift and cache
  it. Python's None is JNull here.
\<close>

definition next_reply :: "json step" where
  "next_reply = (\<lambda>w. case w_replies w of
     [] \<Rightarrow> (Inl UpstreamError, w) | r # rs \<Rightarrow> (r, w\<lparr>w_replies := rs\<rparr>))"

definition set_internal :: "interceptor \<Rightarrow> string \<Rightarrow> json res option option \<Rightarrow> unit step" where
  "set_internal S request_id v =
     modify (\<lambda>w. w\<lparr>w_internal := (w_internal w)((ic_session_id S, request_id) := v)\<rparr>)"

definition refetch_tools :: "ext \<Rightarrow> interceptor \<Rightarrow> json step" where
  "refetch_tools E S =
     bnd (fresh_uuid E) (\<lambda>u.
     let request_id = ''portunusmcp:'' @ u in
     bnd (set_internal S request_id (Some None)) (\<lambda>_.
     bnd (try_catch
            (bnd next_reply (\<lambda>result.
             bnd (lift_res (py_get_default result ''tools'' (JList []))) (\<lambda>tools.
             bnd (drift_check E (ic_server_id S) tools (ic_identity_id S)) (\<lambda>_.
             bnd (cache_put E (ic_server_id S) tools) (\<lambda>_.
             ret tools)))))
            (\<lambda>e. ret JNull)) (\<lambda>tools.
     bnd (set_internal S request_id None) (\<lambda>_.
     ret tools))))"

fun find_schema :: "json list \<Rightarrow> string \<Rightarrow> json res" where
  "find_schema [] tool_name = Inr JNull"
| "find_schema (tool # tools) tool_name =
     res_bnd (py_get tool ''name'') (\<lambda>n.
       if py_eq n (JStr tool_name) then py_get_default tool ''inputSchema'' (JObj [])
       else find_schema tools tool_name)"

definition input_schema_for :: "ext \<Rightarrow> interceptor \<Rightarrow> string \<Rightarrow> json step" where
  "input_schema_for E S tool_name =
     bnd (cache_get (ic_server_id S)) (\<lambda>cached.
     bnd (if cached = None \<or> cached = Some JNull then refetch_tools E S else ret (the cached)) (\<lambda>tools.
     if tools = JNull then ret JNull
     else lift_res (res_bnd (py_iter tools) (\<lambda>ts. find_schema ts tool_name))))"

definition validation_stage :: "ext \<Rightarrow> interceptor \<Rightarrow> call \<Rightarrow> unit verdict step" where
  "validation_stage E S c =
     bnd (input_schema_for E S (cl_tool c)) (\<lambda>input_schema.
     if input_schema = JNull then stop (deny_validation E S c ''tool schema unavailable from upstream'')
     else
       bnd (lift_res (validate E (cl_arguments c) input_schema)) (\<lambda>problem.
       case problem of
         Some p \<Rightarrow> stop (deny_validation E S c p)
       | None \<Rightarrow> ret (Go ())))"

subsection \<open>The record of the call\<close>

definition allow_payload ::
  "engine \<Rightarrow> call \<Rightarrow> string option \<Rightarrow> string option \<Rightarrow> (int \<times> risk_factor list) option
     \<Rightarrow> (string \<times> json) list"
where
  "allow_payload en c approval_id challenge_id scored =
     [(''arguments'', cl_arguments c), (''matched_rules'', JList [JStr (policy_rule en ''rbac'')])]
     @ factors_extra (map_option snd scored)
     @ (case approval_id of None \<Rightarrow> [] | Some a \<Rightarrow> [(''approval_id'', JStr a)])
     @ (case challenge_id of None \<Rightarrow> [] | Some ch \<Rightarrow> [(''challenge_id'', JStr ch)])"

definition allow_stage ::
  "ext \<Rightarrow> interceptor \<Rightarrow> call \<Rightarrow> string option \<Rightarrow> string option
     \<Rightarrow> (int \<times> risk_factor list) option \<Rightarrow> unit verdict step"
where
  "allow_stage E S c approval_id challenge_id scored =
     bnd the_engine (\<lambda>en.
     bnd (try_catch
            (bnd (call_event E S c ALLOW (allow_payload en c approval_id challenge_id scored)
                    (map_option fst scored)) (\<lambda>seq. ret True))
            (\<lambda>e. ret False)) (\<lambda>recorded.
     if \<not> recorded then
       stop (bnd (pop_pending S (cl_id c)) (\<lambda>_.
         ret (rpc_error (cl_id c) AUDIT_UNAVAILABLE_CODE ''audit log unavailable; call denied'' None)))
     else bnd (count_call S c ALLOW) (\<lambda>_. ret (Go ()))))"

section \<open>tools/call\<close>

text \<open>\<open>x.get(k)\<close> as an optional text: None when absent or null.\<close>

definition meta_text :: "ext \<Rightarrow> json \<Rightarrow> string \<Rightarrow> string option res" where
  "meta_text E meta k =
     res_bnd (py_get meta k) (\<lambda>v. Inr (if v = JNull then None else Some (py_str (x_str_other E) v)))"

definition param :: "(string \<times> json) list option \<Rightarrow> string \<Rightarrow> json \<Rightarrow> json" where
  "param params k dv =
     (case params of
        None \<Rightarrow> dv
      | Some d \<Rightarrow> (case map_of d k of None \<Rightarrow> dv | Some v \<Rightarrow> v))"

definition call_of :: "ext \<Rightarrow> rpc_id \<Rightarrow> (string \<times> json) list option \<Rightarrow> call" where
  "call_of E rid params =
     \<lparr>cl_id = rid,
      cl_tool = py_str (x_str_other E) (param params ''name'' (JStr '''')),
      cl_arguments = py_or (param params ''arguments'' (JObj [])) (JObj []),
      cl_meta = py_or (param params ''_meta'' JNull) (JObj [])\<rparr>"

definition granted_call :: "ext \<Rightarrow> interceptor \<Rightarrow> call \<Rightarrow> identity option \<Rightarrow> server_grant \<Rightarrow> unit verdict step" where
  "granted_call E S c identity grant =
     (let conditions = g_compiled grant in
      bnd (if conditions \<noteq> [] then abac_attributes S c else ret []) (\<lambda>abac_attrs.
      proceed (enforce_conditions E S c (filter (\<lambda>x. \<not> references_risk x) conditions) abac_attrs None None) (\<lambda>_.
      proceed (drift_stage E S c) (\<lambda>_.
      proceed (step_up_stage E S c identity) (\<lambda>challenge_id.
      bnd (lift_res (meta_text E (cl_meta c) APPROVAL_META_KEY)) (\<lambda>approval_id.
      proceed (decide_stage E S c approval_id conditions abac_attrs (challenge_id \<noteq> None)) (\<lambda>scored.
      proceed (validation_stage E S c) (\<lambda>_.
      allow_stage E S c approval_id challenge_id scored))))))))"

definition authorize_call ::
  "ext \<Rightarrow> interceptor \<Rightarrow> rpc_id \<Rightarrow> (string \<times> json) list option \<Rightarrow> outgoing step"
where
  "authorize_call E S rid params =
     (let c = call_of E rid params in
      bnd the_engine (\<lambda>en.
      let identity = identity_of en (ic_identity_id S) in
      bnd (proceed (replay_stage E S c identity) (\<lambda>_.
           bnd the_engine (\<lambda>en.
           case matching_grant en (Some (ic_identity_id S)) (ic_server_id S) (cl_tool c) of
             None \<Rightarrow> stop (deny_rbac E S c)
           | Some grant \<Rightarrow> granted_call E S c identity grant))) (\<lambda>v.
      case v of
        Stop out \<Rightarrow> ret out
      | Go _ \<Rightarrow> ret (Forward (Request rid ''tools/call'' (strip_gateway_meta params))))))"

section \<open>Messages of the client\<close>

text \<open>\<open>try: ... finally: ...\<close>\<close>

definition ensure :: "'a step \<Rightarrow> unit step \<Rightarrow> 'a step" where
  "ensure m fin = (\<lambda>w. case m w of (r, w1) \<Rightarrow>
     (case fin w1 of (Inl e, w2) \<Rightarrow> (Inl e, w2) | (Inr _, w2) \<Rightarrow> (r, w2)))"

definition on_client_message :: "ext \<Rightarrow> interceptor \<Rightarrow> rpc \<Rightarrow> outgoing step" where
  "on_client_message E S message =
     (case message of
        Request rid method params \<Rightarrow>
          bnd (set_pending S rid method) (\<lambda>_.
          if method = ''tools/call'' then ensure (authorize_call E S rid params) (emit RequestLatency)
          else
            bnd (if method = ''initialize'' then cache_invalidate (ic_server_id S) else ret ()) (\<lambda>_.
            ret (Forward (Request rid method (strip_gateway_meta params)))))
      | _ \<Rightarrow> ret (Forward message))"

section \<open>Messages of the upstream\<close>

text \<open>The future of one of the gateway's own requests takes its first answer.\<close>

definition resolve_internal :: "interceptor \<Rightarrow> string \<Rightarrow> json res \<Rightarrow> unit step" where
  "resolve_internal S request_id answer =
     bnd (gets (\<lambda>w. w_internal w (ic_session_id S, request_id))) (\<lambda>future.
     if future = Some None then set_internal S request_id (Some (Some answer)) else ret ())"

definition is_internal :: "interceptor \<Rightarrow> rpc_id \<Rightarrow> world \<Rightarrow> bool" where
  "is_internal S rid w =
     (case rid of IdInt n \<Rightarrow> False | IdStr s \<Rightarrow> w_internal w (ic_session_id S, s) \<noteq> None)"

definition id_text :: "rpc_id \<Rightarrow> string" where
  "id_text rid = (case rid of IdInt n \<Rightarrow> dec_int n | IdStr s \<Rightarrow> s)"

definition names_of :: "ext \<Rightarrow> json list \<Rightarrow> string list res" where
  "names_of E tools = res_map (tool_name_of E) tools"

definition prune_tools_list ::
  "ext \<Rightarrow> interceptor \<Rightarrow> rpc_id \<Rightarrow> (string \<times> json) list \<Rightarrow> rpc step"
where
  "prune_tools_list E S rid result =
     (let full = (case map_of result ''tools'' of None \<Rightarrow> JList [] | Some v \<Rightarrow> v);
          failed = (\<lambda>text. RpcError rid AUDIT_UNAVAILABLE_CODE text None) in
      bnd (try_catch (bnd (drift_check E (ic_server_id S) full (ic_identity_id S)) (\<lambda>_. ret True))
             (\<lambda>e. ret False)) (\<lambda>checked.
      if \<not> checked then ret (failed ''drift check unavailable; tools/list denied'')
      else
        bnd (cache_put E (ic_server_id S) full) (\<lambda>schema_hash.
        bnd the_engine (\<lambda>en.
        bnd (lift_res (prune E full (Some (ic_identity_id S)) (ic_server_id S) en)) (\<lambda>served.
        let etag = dec_int (en_version en) @ ''-'' @ schema_hash;
            pruned_result = AList.update ''_meta'' (JObj [(''etag'', JStr etag)])
              (AList.update ''tools'' (JList served) result) in
        bnd (lift_res (names_of E served)) (\<lambda>served_names.
        bnd (lift_res (res_bnd (py_iter full) (\<lambda>ts.
               names_of E (filter (\<lambda>t. \<not> (t \<in> set served \<or> list_ex (py_eq t) served)) ts)))) (\<lambda>pruned_names.
        bnd (try_catch
               (bnd (audit_write E TOOLS_LIST (ic_identity_id S) (Some (ic_server_id S)) None
                       [(''served_tools'', JList (map JStr served_names)),
                        (''pruned_tools'', JList (map JStr pruned_names))] None) (\<lambda>_. ret True))
               (\<lambda>e. ret False)) (\<lambda>recorded.
        if recorded then ret (Response rid pruned_result)
        else ret (failed ''audit log unavailable; tools/list denied'')))))))))"

definition on_upstream_message :: "ext \<Rightarrow> interceptor \<Rightarrow> rpc \<Rightarrow> rpc option step" where
  "on_upstream_message E S message =
     (case message of
        Response rid result \<Rightarrow>
          bnd (gets (is_internal S rid)) (\<lambda>internal.
          if internal then
            bnd (resolve_internal S (id_text rid) (Inr (JObj result))) (\<lambda>_. ret None)
          else
            bnd (pop_pending S rid) (\<lambda>method.
            if method = Some ''tools/list''
            then bnd (prune_tools_list E S rid result) (\<lambda>m. ret (Some m))
            else ret (Some message)))
      | RpcError rid code text dat \<Rightarrow>
          bnd (gets (is_internal S rid)) (\<lambda>internal.
          if internal then
            bnd (resolve_internal S (id_text rid) (Inl (OtherError text))) (\<lambda>_. ret None)
          else bnd (pop_pending S rid) (\<lambda>_. ret (Some message)))
      | _ \<Rightarrow> ret (Some message))"

end
