(* ===== verification/Pipeline.thy ===== *)
theory Pipeline
  imports Interceptor
begin

text \<open>
  What the interceptor guarantees: inversion lemmas for each stage that went on, the shape of
  every refusal, and the properties of forwarded calls, of refusals and of tools/list.
\<close>

section \<open>Running stages\<close>

lemma proceed_Go:
  "proceed m f w = (Inr (Go y), w'') \<longleftrightarrow>
     (\<exists>x w'. m w = (Inr (Go x), w') \<and> f x w' = (Inr (Go y), w''))"
proof -
  have go: "(case v of Stop out \<Rightarrow> ret (Stop out) | Go x \<Rightarrow> f x) w1 = (Inr (Go y), w'')
      \<longleftrightarrow> (\<exists>x. v = Go x \<and> f x w1 = (Inr (Go y), w''))" for v w1
    by (cases v) auto
  show ?thesis by (simp only: proceed_def bnd_Inr_iff go) auto
qed

lemma stop_Go [simp]: "stop m w = (Inr (Go x), w') \<longleftrightarrow> False"
  by (auto simp: stop_def bnd_Inr_iff)

lemma try_ret_Inr:
  "try_catch m (\<lambda>e. ret v) w = (Inr x, w') \<longleftrightarrow>
     m w = (Inr x, w') \<or> (\<exists>e. m w = (Inl e, w')) \<and> x = v"
  by (auto simp: try_catch_Inr_iff)

lemma replay_stage_Go:
  assumes "replay_stage E S c identity w = (Inr (Go u), w')"
  shows "(replay_required (is_signed identity) (cl_meta c) = Inr False \<and> w' = w)
    \<or> (\<exists>nonce timestamp. py_get (cl_meta c) NONCE_META_KEY = Inr nonce
        \<and> py_get (cl_meta c) TIMESTAMP_META_KEY = Inr timestamp
        \<and> replay_check E nonce timestamp w = (Inr None, w'))"
  using assms
  by (auto simp: replay_stage_def guarded_replay_def bnd_Inr_iff try_ret_Inr bnd_Inl_iff
      split: if_splits option.splits)

lemma judge_True: "judge condition attrs = (True, problem) \<Longrightarrow> evaluate condition attrs = Inr (True, []) \<and> problem = None"
  by (auto simp: judge_def evaluate_def res_bnd_Inr_iff Let_def split: sum.splits if_splits)

lemma enforce_conditions_Go:
  "enforce_conditions E S c conditions attrs k fs w = (Inr (Go u), w') \<Longrightarrow>
     w' = w \<and> (\<forall>x \<in> set conditions. evaluate x attrs = Inr (True, []))"
proof (induction conditions arbitrary: w)
  case (Cons x conditions)
  obtain satisfied problem where j: "judge x attrs = (satisfied, problem)" by fastforce
  with Cons.prems have satisfied by (auto simp: bnd_Inr_iff split: if_splits)
  with j judge_True [of x attrs problem] have "evaluate x attrs = Inr (True, [])" "problem = None"
    by auto
  with Cons.prems j \<open>satisfied\<close> Cons.IH show ?case by (auto simp: bnd_Inr_iff)
qed simp

lemma drift_stage_Go:
  "drift_stage E S c w = (Inr (Go u), w') \<Longrightarrow>
     is_blocked (ic_server_id S) (cl_tool c) w = (Inr False, w')"
  by (auto simp: drift_stage_def bnd_Inr_iff try_ret_Inr split: if_splits)

lemma step_up_stage_Go:
  assumes "step_up_stage E S c identity w = (Inr (Go ch), w')"
  shows "(ch = None \<and> w' = w)
    \<or> (\<exists>cid h proof. ch = Some cid \<and> arguments_hash E (cl_arguments c) = Inr h
        \<and> py_get (cl_meta c) CHALLENGE_PROOF_META_KEY = Inr proof
        \<and> redeem_challenge E cid (ic_identity_id S) (ic_server_id S) (cl_tool c) h proof
            (case identity of None \<Rightarrow> '''' | Some x \<Rightarrow> id_totp_secret x) w = (Inr None, w'))"
  using assms
  by (auto simp: step_up_stage_def redeem_step_up_def bnd_Inr_iff try_ret_Inr Let_def
      split: if_splits option.splits)

lemma approval_stage_Go:
  assumes "approval_stage E S c a w = (Inr (Go u), w')"
  shows "\<exists>h. arguments_hash E (cl_arguments c) = Inr h
    \<and> redeem_approval a (ic_identity_id S) (ic_server_id S) (cl_tool c) h w = (Inr None, w')"
proof -
  from assms have "redeem_granted E S c a w = (Inr None, w')"
    by (auto simp: approval_stage_def bnd_Inr_iff elim!: option.exhaust split: option.splits prod.splits)
      (metis not_None_eq surj_pair)
  then show ?thesis by (auto simp: redeem_granted_def bnd_Inr_iff try_ret_Inr)
qed

lemma risk_stage_Go:
  assumes "risk_stage E S c conditions attrs verified w = (Inr (Go (k, fs)), w')"
  shows "((\<exists>w0. score E (ic_identity_id S) (ic_server_id S) (cl_tool c) (cl_arguments c)
          (p_risk (en_policy (w_engine w))) False w = (Inr (k, fs), w0)) \<or> (k, fs) = RISK_UNAVAILABLE)
    \<and> (\<forall>x \<in> set conditions. references_risk x \<longrightarrow>
        evaluate x (AList.update ''risk.score'' (AInt k) attrs) = Inr (True, []))
    \<and> (threshold_outcome k = Allow \<or> threshold_outcome k = Challenge \<and> verified)"
proof -
  from assms obtain w0 w1 where
    run: "try_catch (score E (ic_identity_id S) (ic_server_id S) (cl_tool c) (cl_arguments c)
          (p_risk (en_policy (w_engine w))) False) (\<lambda>e. ret RISK_UNAVAILABLE) w = (Inr (k, fs), w0)" and
    enf: "enforce_conditions E S c (filter references_risk conditions)
         (AList.update ''risk.score'' (AInt k) attrs) (Some k) (Some fs)
         (w0\<lparr>w_metrics := w_metrics w0 @ [RiskScore k]\<rparr>) = (Inr (Go ()), w1)" and
    out: "threshold_outcome k = Allow \<or> threshold_outcome k = Challenge \<and> verified"
    by (fastforce simp: risk_stage_def the_engine_def emit_def bnd_Inr_iff proceed_Go Let_def
        split: if_splits prod.splits)
  from enforce_conditions_Go [OF enf] run out show ?thesis by (auto simp: try_ret_Inr)
qed

lemma validation_stage_Go:
  assumes "validation_stage E S c w = (Inr (Go u), w')"
  shows "\<exists>schema. input_schema_for E S (cl_tool c) w = (Inr schema, w') \<and> schema \<noteq> JNull
    \<and> validate E (cl_arguments c) schema = Inr None"
  using assms
  by (auto simp: validation_stage_def bnd_Inr_iff split: if_splits option.splits) 

lemma allow_stage_Go:
  assumes "allow_stage E S c a ch scored w = (Inr (Go u), w')"
  shows "\<exists>seq w1. call_event E S c ALLOW (allow_payload (w_engine w) c a ch scored)
      (map_option fst scored) w = (Inr seq, w1)
    \<and> w_audit w' = w_audit w1 \<and> w_approvals w' = w_approvals w1 \<and> w_redis w' = w_redis w1"
  using assms
  by (auto simp: allow_stage_def the_engine_def count_call_def emit_def bnd_Inr_iff try_ret_Inr
      split: if_splits)

section \<open>What the handlers may change\<close>

lemma same_json_cases:
  assumes "\<And>s. stays R (f s)" and "stays R g"
  shows "stays R (case v of JStr s \<Rightarrow> f s | _ \<Rightarrow> g)"
  using assms by (cases v) auto

context append_ok
begin

lemma stays_modify: "(\<And>w. R w (f w)) \<Longrightarrow> stays R (modify f)"
  by (simp add: stays_def)

lemma stays_Pair: "stays R (Pair r)"
  by (simp add: stays_def R_refl)

lemma stays_replay_check: "stays R (replay_check E nonce timestamp)"
  unfolding replay_check_def Let_def
  by (intro append_intros same_json_cases)

lemma stays_is_blocked: "stays R (is_blocked s t)"
  unfolding is_blocked_def baseline_of_def by (intro append_intros)

lemma stays_redeem_challenge: "stays R (redeem_challenge E cid i s t h proof secret)"
  unfolding redeem_challenge_def
  by (intro append_intros same_json_cases)

lemma stays_create_challenge: "stays R (create_challenge E i s t h n)"
  unfolding create_challenge_def by (intro append_intros)

lemma stays_bump: "stays R (bump k n)"
  unfolding bump_def by (intro append_intros)

lemma stays_counter: "stays R (counter k)"
  unfolding counter_def by (intro append_intros)

lemma stays_score: "stays R (score E i s t a p dry)"
  unfolding score_def gather_def Let_def bump_frequency_def has_pending_drift_def is_suspicious_def
    recent_drift_count_def baseline_of_def
  by (intro append_intros stays_bump stays_counter)

lemma stays_record_denial: "stays R (record_denial E i)"
  unfolding record_denial_def by (intro append_intros stays_bump)

lemma stays_cache_get: "stays R (cache_get s)"
  unfolding cache_get_def by (intro append_intros)

lemma stays_cache_put: "stays R (cache_put E s tools)"
  unfolding cache_put_def by (intro append_intros)

lemma stays_cache_invalidate: "stays R (cache_invalidate s)"
  unfolding cache_invalidate_def by (intro append_intros)

lemma stays_pop_pending: "stays R (pop_pending S rid)"
  by (simp add: pop_pending_def stays_def R_pending)

lemma stays_set_pending: "stays R (set_pending S rid m)"
  unfolding set_pending_def by (rule stays_modify) (rule R_pending)

lemma stays_set_internal: "stays R (set_internal S rid v)"
  unfolding set_internal_def by (rule stays_modify) (rule R_internal)

lemma stays_next_reply: "stays R next_reply"
  by (auto simp: next_reply_def stays_def R_refl R_replies split: list.split)

lemma stays_call_event: "stays R (call_event E S c ev x k)"
  unfolding call_event_def by (rule stays_audit_write)

lemma stays_count_call: "stays R (count_call S c ev)"
  unfolding count_call_def by (rule stays_emit)

lemma stays_deny: "stays R (deny E S c ev reason rules k fs)"
  unfolding deny_def Let_def
  by (intro append_intros stays_pop_pending stays_record_denial stays_call_event stays_count_call)

lemma stays_stop: "stays R m \<Longrightarrow> stays R (stop m)"
  unfolding stop_def by (intro append_intros)

lemma stays_proceed: "stays R m \<Longrightarrow> (\<And>x. stays R (f x)) \<Longrightarrow> stays R (proceed m f)"
  unfolding proceed_def by (intro stays_bnd) (auto simp: stays_ret split: verdict.split)

lemma stays_context_hour: "stays R (context_hour meta)"
  unfolding context_hour_def by (intro append_intros)

lemma stays_abac_attributes: "stays R (abac_attributes S c)"
  unfolding abac_attributes_def by (intro append_intros stays_context_hour)

lemma stays_enforce_conditions: "stays R (enforce_conditions E S c conditions attrs k fs)"
proof (induction conditions)
  case Nil
  show ?case unfolding enforce_conditions.simps by (rule stays_ret)
next
  case (Cons x conditions)
  then show ?case
    unfolding enforce_conditions.simps by (intro append_intros stays_stop stays_deny stays_call_event)
qed

lemma stays_replay_stage: "stays R (replay_stage E S c identity)"
  unfolding replay_stage_def guarded_replay_def
  by (intro append_intros stays_stop stays_deny stays_replay_check)

lemma stays_drift_stage: "stays R (drift_stage E S c)"
  unfolding drift_stage_def by (intro append_intros stays_stop stays_deny stays_is_blocked)

lemma stays_step_up_stage: "stays R (step_up_stage E S c identity)"
  unfolding step_up_stage_def redeem_step_up_def Let_def
  by (intro append_intros stays_stop stays_deny stays_redeem_challenge)

lemma stays_allow_stage: "stays R (allow_stage E S c a ch scored)"
  unfolding allow_stage_def
  by (intro append_intros stays_stop stays_pop_pending stays_call_event stays_count_call)

lemmas stage_intros = append_intros stays_modify stays_stop stays_proceed stays_deny stays_replay_stage
  stays_drift_stage stays_step_up_stage stays_allow_stage stays_enforce_conditions
  stays_abac_attributes stays_call_event stays_count_call stays_pop_pending stays_set_pending
  stays_set_internal stays_next_reply stays_cache_get stays_cache_put stays_cache_invalidate
  stays_score stays_create_challenge

end

text \<open>Before a call is decided: the engine, the clock, the approvals and the baselines stay.\<close>

definition undecided :: "world \<Rightarrow> world \<Rightarrow> bool" where
  "undecided w w' \<longleftrightarrow> w_engine w' = w_engine w \<and> w_clock w' = w_clock w
     \<and> w_approvals w' = w_approvals w \<and> w_baselines w' = w_baselines w"

interpretation undecided: append_ok undecided
  by unfold_locales (auto simp: undecided_def)

text \<open>
  Drift checks also change the table of baselines; the decision on a call creates and redeems
  approvals, freely (\<open>tables_ok\<close>) or along their lifecycle.
\<close>

locale baselines_ok = append_ok R for R :: "world \<Rightarrow> world \<Rightarrow> bool" +
  assumes R_baselines: "R w (w\<lparr>w_baselines := b\<rparr>)"
begin

lemma stays_check_tool: "stays R (check_tool E i s live st nt)"
  unfolding check_tool_def first_sighting_def drift_write_def Let_def by (intro append_intros)

lemma stays_check_removed: "stays R (check_removed E i s live st nr)"
  unfolding check_removed_def drift_write_def by (intro append_intros)

lemma stays_drift_check: "stays R (drift_check E s tools i)"
  unfolding drift_check_def store_session_def
  by (intro append_intros stays_check_tool stays_check_removed stays_db_commit R_baselines)

lemma stays_validation_stage: "stays R (validation_stage E S c)"
  unfolding validation_stage_def input_schema_for_def refetch_tools_def deny_validation_def Let_def
  by (intro stage_intros stays_drift_check)

lemma stays_on_upstream_message: "stays R (on_upstream_message E S message)"
  unfolding on_upstream_message_def prune_tools_list_def resolve_internal_def Let_def
  by (cases message) (auto intro!: stage_intros stays_Pair stays_drift_check)

end

interpretation same_approvals: baselines_ok "same w_approvals"
  by unfold_locales (auto simp: same_def)

locale messages_ok = baselines_ok R for R :: "world \<Rightarrow> world \<Rightarrow> bool" +
  assumes stays_redeem_approval: "stays R (redeem_approval a i s t h)"
    and stays_create_approval: "stays R (create_approval E i s t h n)"
begin

lemma stays_hold: "stays R (hold E S c oc capable d)"
  unfolding hold_def Let_def by (intro stage_intros stays_create_approval)

lemma stays_risk_terminal: "stays R (risk_terminal E S c oc k fs)"
  unfolding risk_terminal_def Let_def by (intro stage_intros stays_hold)

lemma stays_risk_stage: "stays R (risk_stage E S c conditions attrs verified)"
  unfolding risk_stage_def Let_def by (intro stage_intros stays_risk_terminal)

lemma stays_decide_stage: "stays R (decide_stage E S c a conditions attrs verified)"
  unfolding decide_stage_def approval_stage_def redeem_granted_def
  by (intro stage_intros stays_risk_stage stays_redeem_approval)

lemma stays_authorize_call: "stays R (authorize_call E S rid params)"
proof -
  have "stays R (case v of Stop out \<Rightarrow> ret out | Go (_ :: unit) \<Rightarrow> ret fwd)" for v fwd
    by (cases v) (auto intro: stays_ret)
  then show ?thesis
    unfolding authorize_call_def granted_call_def deny_rbac_def Let_def
    by (intro stage_intros stays_decide_stage stays_validation_stage)
qed

lemma stays_ensure: "stays R m \<Longrightarrow> stays R n \<Longrightarrow> stays R (ensure m n)"
  unfolding ensure_def
  by (intro staysI) (auto dest: staysD intro: R_trans split: prod.splits sum.splits)

lemma stays_on_client_message: "stays R (on_client_message E S message)"
  by (cases message)
    (auto simp: on_client_message_def intro!: stage_intros stays_Pair stays_ensure stays_authorize_call)

end

locale tables_ok = baselines_ok R for R :: "world \<Rightarrow> world \<Rightarrow> bool" +
  assumes R_approvals: "R w (w\<lparr>w_approvals := a\<rparr>)"
begin

lemma redeem_approval_ok: "stays R (redeem_approval a i s t h)"
  unfolding redeem_approval_def locked_def set_approval_def
  by (intro append_intros stays_db_commit R_approvals)

lemma create_approval_ok: "stays R (create_approval E i s t h n)"
  unfolding create_approval_def by (intro append_intros stays_db_commit R_approvals)

end

sublocale tables_ok \<subseteq> messages_ok R
  by unfold_locales (rule redeem_approval_ok create_approval_ok)+

text \<open>Messages move approvals along their lifecycle only.\<close>

interpretation ap_evolves: messages_ok ap_evolves
  by unfold_locales (rule ap_evolves_same redeem_approval_evolves create_approval_evolves | simp)+

text \<open>What no message changes: the policy and the clock; and the audit log only grows.\<close>

definition handled :: "world \<Rightarrow> world \<Rightarrow> bool" where
  "handled w w' \<longleftrightarrow> w_engine w' = w_engine w \<and> w_clock w' = w_clock w \<and> log_grows w w'"

interpretation handled: tables_ok handled
  by unfold_locales (auto simp: handled_def log_grows_def)

section \<open>Refusals\<close>

text \<open>
  A refusal is a JSON-RPC error for the request's id: the audit log is unavailable, or the policy
  denies and the canonical decision (never ALLOW) travels with it.
\<close>

definition refusal :: "rpc_id \<Rightarrow> outgoing \<Rightarrow> bool" where
  "refusal rid out \<longleftrightarrow>
     (\<exists>text. out = rpc_error rid AUDIT_UNAVAILABLE_CODE text None)
     \<or> (\<exists>d. out = rpc_error rid POLICY_DENIED_CODE (d_reason d) (Some (dump_decision d))
          \<and> d_decision d \<noteq> Allow)"

definition yields :: "('a \<Rightarrow> bool) \<Rightarrow> 'a step \<Rightarrow> bool" where
  "yields P m \<longleftrightarrow> (\<forall>w x w'. m w = (Inr x, w') \<longrightarrow> P x)"

definition safe :: "rpc_id \<Rightarrow> 'a verdict \<Rightarrow> bool" where
  "safe rid v = (case v of Stop out \<Rightarrow> refusal rid out | Go x \<Rightarrow> True)"

lemma safe_simps [simp]: "safe rid (Stop out) = refusal rid out" "safe rid (Go x)"
  by (simp_all add: safe_def)

lemma yields_ret: "P x \<Longrightarrow> yields P (ret x)"
  by (simp add: yields_def)

lemma yields_bnd: "(\<And>x. yields P (f x)) \<Longrightarrow> yields P (bnd m f)"
  by (auto simp: yields_def bnd_Inr_iff)

lemma yields_bnd_if: "yields Q m \<Longrightarrow> (\<And>x. Q x \<Longrightarrow> yields P (f x)) \<Longrightarrow> yields P (bnd m f)"
  by (fastforce simp: yields_def bnd_Inr_iff)

lemma yields_try_catch: "yields P m \<Longrightarrow> (\<And>e. yields P (h e)) \<Longrightarrow> yields P (try_catch m h)"
  unfolding yields_def try_catch_Inr_iff by blast

lemma yields_if: "(b \<Longrightarrow> yields P m) \<Longrightarrow> (\<not> b \<Longrightarrow> yields P n) \<Longrightarrow> yields P (if b then m else n)"
  by simp

lemma yields_option: "yields P m \<Longrightarrow> (\<And>x. yields P (f x)) \<Longrightarrow> yields P (case_option m f v)"
  by (cases v) auto

lemma yields_prod: "(\<And>x y. yields P (f x y)) \<Longrightarrow> yields P (case_prod f p)"
  by (cases p) auto

lemma yields_stop:
  assumes "yields (refusal rid) m"
  shows "yields (safe rid) (stop m)"
  unfolding stop_def by (rule yields_bnd_if [OF assms]) (simp add: yields_ret)

lemma yields_proceed:
  fixes m :: "'a verdict step" and f :: "'a \<Rightarrow> 'b verdict step"
  assumes "yields (safe rid) m" and "\<And>x. yields (safe rid) (f x)"
  shows "yields (safe rid) (proceed m f)"
  unfolding proceed_def
proof (rule yields_bnd_if [OF assms(1)])
  fix v :: "'a verdict" assume "safe rid v"
  then show "yields (safe rid) (case v of Stop out \<Rightarrow> ret (Stop out) | Go x \<Rightarrow> f x)"
    using assms(2) by (cases v) (simp_all add: yields_ret)
qed

text \<open>
  A deny runs to its end. The audit id it reports is that of the row it appended, which records
  the decision; without such a row it reports none.
\<close>

definition denial_extra ::
  "call \<Rightarrow> string \<Rightarrow> string list \<Rightarrow> risk_factor list option \<Rightarrow> (string \<times> json) list"
where
  "denial_extra c reason rules fs =
     [(''reason'', JStr reason), (''matched_rules'', JList (map JStr rules)),
      (''arguments'', cl_arguments c)] @ factors_extra fs"

definition denial_row ::
  "ext \<Rightarrow> interceptor \<Rightarrow> call \<Rightarrow> event_type \<Rightarrow> string \<Rightarrow> string list \<Rightarrow> int option
     \<Rightarrow> risk_factor list option \<Rightarrow> world \<Rightarrow> world \<Rightarrow> string option \<Rightarrow> bool"
where
  "denial_row E S c ev reason rules k fs w w' a \<longleftrightarrow>
     a = None \<or> (\<exists>rows row. a = Some (dec_int (ar_seq row)) \<and> w_audit w' = w_audit w @ rows @ [row]
       \<and> records E ev (ic_identity_id S) (Some (ic_server_id S)) (Some (cl_tool c))
           (denial_extra c reason rules fs) k (en_version (w_engine w)) row)"

lemma deny_run:
  "\<exists>a w'. deny E S c ev reason rules k fs w = (Inr (rpc_error (cl_id c) POLICY_DENIED_CODE reason
      (Some (dump_decision ((make_decision (w_engine w) Deny ev reason rules k fs)\<lparr>d_audit_id := a\<rparr>)))), w')
    \<and> denial_row E S c ev reason rules k fs w w' a"
proof -
  obtain w1 where 1: "pop_pending S (cl_id c) w = (Inr (w_pending w (ic_session_id S, cl_id c)), w1)"
    and w1: "w_audit w1 = w_audit w" "w_engine w1 = w_engine w"
    by (simp add: pop_pending_def)
  obtain r w2 where rd: "record_denial E (ic_identity_id S) w1 = (r, w2)" by fastforce
  then have 2: "try_catch (record_denial E (ic_identity_id S)) (\<lambda>e. ret ()) w1 = (Inr (), w2)"
    by (cases r) (simp_all add: try_catch_def)
  have "stays (same w_audit) (record_denial E (ic_identity_id S))"
    unfolding record_denial_def bump_def by (intro same_audit.blind_intros)
  from staysD [OF this rd] staysD [OF undecided.stays_record_denial rd]
  have w2: "w_audit w2 = w_audit w" "w_engine w2 = w_engine w" by (simp_all add: same_def undecided_def w1)
  let ?x = "denial_extra c reason rules fs"
  obtain r3 w3 where "call_event E S c ev ?x k w2 = (r3, w3)" by fastforce
  then obtain a where 3: "try_catch (bnd (call_event E S c ev ?x k) (\<lambda>seq. ret (Some (dec_int seq))))
      (\<lambda>e. ret None) w2 = (Inr a, w3)"
    by (cases r3) (simp_all add: try_catch_def bnd_def)
  have a: "denial_row E S c ev reason rules k fs w w3 a"
  proof (cases a)
    case (Some s)
    with 3 obtain seq where "call_event E S c ev ?x k w2 = (Inr seq, w3)" and s: "s = dec_int seq"
      by (auto simp: try_ret_Inr bnd_Inr_iff)
    from audit_write_Inr [OF this(1) [unfolded call_event_def]] s w2 Some show ?thesis
      by (auto simp: denial_row_def)
  qed (simp add: denial_row_def)
  have "\<exists>w4. deny E S c ev reason rules k fs w = (Inr (rpc_error (cl_id c) POLICY_DENIED_CODE reason
      (Some (dump_decision ((make_decision (w_engine w2) Deny ev reason rules k fs)\<lparr>d_audit_id := a\<rparr>)))), w4)
      \<and> w_audit w4 = w_audit w3"
    unfolding deny_def Let_def denial_extra_def [symmetric]
    by (subst bnd_run_Inr [of "pop_pending S (cl_id c)" w, OF 1],
        subst bnd_run_Inr [of "try_catch (record_denial E (ic_identity_id S)) (\<lambda>e. ret ())" w1, OF 2],
        unfold the_engine_def bnd_gets_run,
        subst bnd_run_Inr [of "try_catch (bnd (call_event E S c ev ?x k) (\<lambda>seq. ret (Some (dec_int seq))))
          (\<lambda>e. ret None)" w2, OF 3])
      (simp add: count_call_def emit_def bnd_def)
  with a w2 show ?thesis by (auto simp: denial_row_def)
qed

lemma refusal_deny: "d_decision d \<noteq> Allow \<Longrightarrow> reason = d_reason d \<Longrightarrow>
    refusal rid (rpc_error rid POLICY_DENIED_CODE reason (Some (dump_decision d)))"
  by (auto simp: refusal_def)

lemma refusal_unavailable: "refusal rid (rpc_error rid AUDIT_UNAVAILABLE_CODE text None)"
  by (auto simp: refusal_def)

lemma deny_refuses: "yields (refusal (cl_id c)) (deny E S c ev reason rules k fs)"
  unfolding deny_def Let_def
  by (intro yields_bnd yields_ret refusal_deny) (simp_all add: make_decision_def)

lemma hold_keeps: "yields (\<lambda>d1. d_decision d1 = d_decision d \<and> d_reason d1 = d_reason d) (hold E S c oc capable d)"
  unfolding hold_def Let_def by (intro yields_bnd yields_if yields_ret) simp_all

lemma risk_terminal_refuses:
  assumes "oc \<noteq> Allow"
  shows "yields (refusal (cl_id c)) (risk_terminal E S c oc k fs)"
proof -
  have hold: "yields (\<lambda>held. \<forall>d1. held = Some d1 \<longrightarrow> d_decision d1 = d_decision d \<and> d_reason d1 = d_reason d)
      (try_catch (bnd (hold E S c oc capable d) (\<lambda>d1. ret (Some d1))) (\<lambda>e. ret None))" for d capable
    by (intro yields_try_catch yields_bnd_if [OF hold_keeps] yields_ret) auto
  have answer: "yields (refusal (cl_id c)) (case held of
          None \<Rightarrow> ret (rpc_error (cl_id c) AUDIT_UNAVAILABLE_CODE msg None)
        | Some d1 \<Rightarrow> bnd n (\<lambda>_. ret (rpc_error (cl_id c) POLICY_DENIED_CODE reason (Some (dump_decision d1)))))"
    if "\<forall>d1. held = Some d1 \<longrightarrow> d_decision d1 = oc \<and> d_reason d1 = reason"
    for held msg reason and n :: "unit step"
    using that assms
    by (cases held) (auto intro!: yields_bnd yields_ret refusal_deny refusal_unavailable)
  show ?thesis
    unfolding risk_terminal_def Let_def
    by (intro yields_if deny_refuses yields_bnd yields_bnd_if [OF hold] answer)
      (auto simp: make_decision_def)
qed

lemmas safe_intros = yields_stop yields_proceed yields_try_catch yields_if yields_option yields_prod
  yields_bnd yields_ret safe_simps deny_refuses

lemma enforce_safe: "yields (safe (cl_id c)) (enforce_conditions E S c conditions attrs k fs)"
proof (induction conditions)
  case Nil
  show ?case unfolding enforce_conditions.simps by (intro safe_intros)
next
  case (Cons x conditions)
  then show ?case unfolding enforce_conditions.simps by (intro safe_intros)
qed

lemma granted_call_safe: "yields (safe (cl_id c)) (granted_call E S c identity g)"
  unfolding granted_call_def drift_stage_def step_up_stage_def decide_stage_def approval_stage_def
    risk_stage_def validation_stage_def deny_validation_def allow_stage_def Let_def
  by (intro safe_intros enforce_safe risk_terminal_refuses refusal_unavailable) simp_all

lemma call_stages_safe:
  "yields (safe (cl_id c)) (proceed (replay_stage E S c identity) (\<lambda>_.
     bnd the_engine (\<lambda>en.
     case matching_grant en (Some (ic_identity_id S)) (ic_server_id S) (cl_tool c) of
       None \<Rightarrow> stop (deny_rbac E S c)
     | Some grant \<Rightarrow> granted_call E S c identity grant)))"
  unfolding replay_stage_def deny_rbac_def by (intro safe_intros granted_call_safe)

section \<open>A forwarded call, stage by stage\<close>

text \<open>The call can only end as its own cleaned copy, as a refusal, or by raising.\<close>

lemma authorize_call_cases:
  assumes "authorize_call E S rid params w = (Inr out, w')"
  shows "out = Forward (Request rid ''tools/call'' (strip_gateway_meta params)) \<or> refusal rid out"
proof -
  let ?c = "call_of E rid params"
  have rid: "cl_id ?c = rid" by (simp add: call_of_def)
  from assms obtain v w1 where
    "proceed (replay_stage E S ?c (identity_of (w_engine w) (ic_identity_id S))) (\<lambda>_.
       bnd the_engine (\<lambda>en.
       case matching_grant en (Some (ic_identity_id S)) (ic_server_id S) (cl_tool ?c) of
         None \<Rightarrow> stop (deny_rbac E S ?c)
       | Some grant \<Rightarrow> granted_call E S ?c (identity_of (w_engine w) (ic_identity_id S)) grant)) w
     = (Inr v, w1)"
    and out: "(case v of Stop out \<Rightarrow> ret out
      | Go (_ :: unit) \<Rightarrow> ret (Forward (Request rid ''tools/call'' (strip_gateway_meta params)))) w1 = (Inr out, w')"
    unfolding authorize_call_def Let_def bnd_Inr_iff the_engine_def gets_run by auto
  then have "safe rid v"
    using call_stages_safe [of ?c E S "identity_of (w_engine w) (ic_identity_id S)"]
    unfolding yields_def rid by blast
  with out show ?thesis by (cases v) auto
qed

lemma refusal_not_Forward [simp]: "\<not> refusal rid (Forward m)"
  by (auto simp: refusal_def rpc_error_def)

lemma authorize_call_Forward:
  assumes "authorize_call E S rid params w = (Inr (Forward m), w')"
  shows "\<exists>w1 g. replay_stage E S (call_of E rid params) (identity_of (w_engine w) (ic_identity_id S)) w
        = (Inr (Go ()), w1)
    \<and> matching_grant (w_engine w1) (Some (ic_identity_id S)) (ic_server_id S) (cl_tool (call_of E rid params)) = Some g
    \<and> granted_call E S (call_of E rid params) (identity_of (w_engine w) (ic_identity_id S)) g w1
        = (Inr (Go ()), w')"
proof -
  let ?c = "call_of E rid params" and ?x = "identity_of (w_engine w) (ic_identity_id S)"
  let ?k = "\<lambda>en. case matching_grant en (Some (ic_identity_id S)) (ic_server_id S) (cl_tool ?c) of
         None \<Rightarrow> stop (deny_rbac E S ?c) | Some grant \<Rightarrow> granted_call E S ?c ?x grant"
  from assms obtain v w1 where
    run: "proceed (replay_stage E S ?c ?x) (\<lambda>_. bnd the_engine ?k) w = (Inr v, w1)"
    and out: "(case v of Stop out \<Rightarrow> ret out
      | Go (_ :: unit) \<Rightarrow> ret (Forward (Request rid ''tools/call'' (strip_gateway_meta params)))) w1
        = (Inr (Forward m), w')"
    unfolding authorize_call_def Let_def bnd_Inr_iff the_engine_def gets_run by auto
  have rid: "cl_id ?c = rid" by (simp add: call_of_def)
  from run have "safe rid v" using call_stages_safe [of ?c E S ?x] unfolding yields_def rid by blast
  with out have "v = Go ()" and "w' = w1" by (cases v, auto)+
  with run obtain w2 where "replay_stage E S ?c ?x w = (Inr (Go ()), w2)"
    and "?k (w_engine w2) w2 = (Inr (Go ()), w')"
    by (auto simp: proceed_Go the_engine_def)
  then show ?thesis by (auto split: option.splits)
qed

text \<open>The attributes of a call as a function of the policy, the clock and the call.\<close>

definition hour_at :: "rat \<Rightarrow> json \<Rightarrow> int res" where
  "hour_at t meta = res_bnd (py_get meta TIMESTAMP_META_KEY) (\<lambda>ts.
     case as_number ts of Some x \<Rightarrow> hour_of_timestamp x | None \<Rightarrow> Inr (utc_hour t))"

definition attributes_in :: "engine \<Rightarrow> rat \<Rightarrow> interceptor \<Rightarrow> call \<Rightarrow> attrs res" where
  "attributes_in en t S c = res_bnd (hour_at t (cl_meta c)) (\<lambda>hour.
     Inr (dict_of
       ([(''identity.id'', AStr (ic_identity_id S)), (''tool.name'', AStr (cl_tool c)),
         (''tool.server_id'', AStr (ic_server_id S))]
        @ (case identity_of en (ic_identity_id S) of
             None \<Rightarrow> []
           | Some x \<Rightarrow> map (\<lambda>(k, v). (''identity.'' @ k, v)) (id_attributes x))
        @ [(''context.hour'', AInt hour)])))"

lemma context_hour_run: "context_hour meta w = (hour_at (w_clock w) meta, w)"
  by (cases "py_get meta TIMESTAMP_META_KEY")
    (auto simp: context_hour_def hour_at_def now_def bnd_def split: option.split)

lemma abac_attributes_run: "abac_attributes S c w = (attributes_in (w_engine w) (w_clock w) S c, w)"
  by (cases "hour_at (w_clock w) (cl_meta c)")
    (simp_all add: abac_attributes_def attributes_in_def the_engine_def bnd_def context_hour_run)

definition conditions_hold :: "server_grant \<Rightarrow> attrs \<Rightarrow> bool" where
  "conditions_hold g attrs \<longleftrightarrow>
     (\<forall>x \<in> set (g_compiled g). \<not> references_risk x \<longrightarrow> evaluate x attrs = Inr (True, []))"

lemma granted_call_Go:
  assumes "granted_call E S c identity g w = (Inr (Go ()), w')"
  shows "\<exists>attrs ch ap scored w3 w4 w5 w6.
    (g_compiled g = [] \<or> attributes_in (w_engine w) (w_clock w) S c = Inr attrs) \<and> conditions_hold g attrs
    \<and> is_blocked (ic_server_id S) (cl_tool c) w = (Inr False, w3)
    \<and> step_up_stage E S c identity w3 = (Inr (Go ch), w4)
    \<and> meta_text E (cl_meta c) APPROVAL_META_KEY = Inr ap
    \<and> decide_stage E S c ap (g_compiled g) attrs (ch \<noteq> None) w4 = (Inr (Go scored), w5)
    \<and> validation_stage E S c w5 = (Inr (Go ()), w6)
    \<and> allow_stage E S c ap ch scored w6 = (Inr (Go ()), w')"
proof -
  from assms obtain attrs w1 w2 w3 ch w4 ap scored w5 w6 where
    1: "(if g_compiled g \<noteq> [] then abac_attributes S c else ret []) w = (Inr attrs, w1)" and
    2: "enforce_conditions E S c (filter (\<lambda>x. \<not> references_risk x) (g_compiled g)) attrs None None w1
          = (Inr (Go ()), w2)" and
    3: "drift_stage E S c w2 = (Inr (Go ()), w3)" and
    4: "step_up_stage E S c identity w3 = (Inr (Go ch), w4)"
      "meta_text E (cl_meta c) APPROVAL_META_KEY = Inr ap"
      "decide_stage E S c ap (g_compiled g) attrs (ch \<noteq> None) w4 = (Inr (Go scored), w5)"
      "validation_stage E S c w5 = (Inr (Go ()), w6)"
      "allow_stage E S c ap ch scored w6 = (Inr (Go ()), w')"
    unfolding granted_call_def Let_def bnd_Inr_iff proceed_Go lift_res_run by auto
  from 1 have a: "g_compiled g = [] \<or> attributes_in (w_engine w) (w_clock w) S c = Inr attrs" and "w1 = w"
    by (auto simp: abac_attributes_run split: if_splits)
  with enforce_conditions_Go [OF 2] have "w2 = w" and "conditions_hold g attrs"
    by (auto simp: conditions_hold_def)
  with a 3 4 drift_stage_Go show ?thesis by blast
qed

text \<open>
  The stages of a forwarded call, seen from the world \<open>w\<close> the message arrived in.
\<close>

lemma on_client_call_Forward:
  assumes "on_client_message E S (Request rid ''tools/call'' params) w = (Inr (Forward m), w')"
  shows "\<exists>w0 w1. w0 = w\<lparr>w_pending := (w_pending w)((ic_session_id S, rid) := Some ''tools/call'')\<rparr>
    \<and> authorize_call E S rid params w0 = (Inr (Forward m), w1)
    \<and> w' = w1\<lparr>w_metrics := w_metrics w1 @ [RequestLatency]\<rparr>"
  using assms
  by (auto simp: on_client_message_def set_pending_def ensure_def emit_def split: prod.splits)

lemma forwarded_stages:
  assumes run: "on_client_message E S (Request rid ''tools/call'' params) w = (Inr (Forward m), w')"
    and c: "c = call_of E rid params" and x: "x = identity_of (w_engine w) (ic_identity_id S)"
  shows "\<exists>g attrs ch ap scored w0 w1 w3 w4 w5 w6 w7.
    m = Request rid ''tools/call'' (strip_gateway_meta params)
    \<and> matching_grant (w_engine w) (Some (ic_identity_id S)) (ic_server_id S) (cl_tool c) = Some g
    \<and> w_redis w0 = w_redis w \<and> w_clock w0 = w_clock w
    \<and> replay_stage E S c x w0 = (Inr (Go ()), w1) \<and> undecided w w1
    \<and> (g_compiled g = [] \<or> attributes_in (w_engine w) (w_clock w) S c = Inr attrs) \<and> conditions_hold g attrs
    \<and> is_blocked (ic_server_id S) (cl_tool c) w1 = (Inr False, w3) \<and> undecided w w3
    \<and> step_up_stage E S c x w3 = (Inr (Go ch), w4) \<and> undecided w w4
    \<and> meta_text E (cl_meta c) APPROVAL_META_KEY = Inr ap
    \<and> decide_stage E S c ap (g_compiled g) attrs (ch \<noteq> None) w4 = (Inr (Go scored), w5)
    \<and> validation_stage E S c w5 = (Inr (Go ()), w6) \<and> handled w w6
    \<and> allow_stage E S c ap ch scored w6 = (Inr (Go ()), w7) \<and> w_audit w' = w_audit w7
    \<and> w_approvals w' = w_approvals w7"
proof -
  obtain w0 w7 where w0: "w0 = w\<lparr>w_pending := (w_pending w)((ic_session_id S, rid) := Some ''tools/call'')\<rparr>"
    and auth: "authorize_call E S rid params w0 = (Inr (Forward m), w7)"
    and w': "w' = w7\<lparr>w_metrics := w_metrics w7 @ [RequestLatency]\<rparr>"
    using on_client_call_Forward [OF run] by blast
  have m: "m = Request rid ''tools/call'' (strip_gateway_meta params)"
    using authorize_call_cases [OF auth] by simp
  have u0: "undecided w w0" and h0: "handled w w0"
    by (simp_all add: w0 undecided.R_pending handled.R_pending)
  have x0: "identity_of (w_engine w0) (ic_identity_id S) = x" by (simp add: w0 x)
  from authorize_call_Forward [OF auth, folded c, unfolded x0] obtain w1 g where
    1: "replay_stage E S c x w0 = (Inr (Go ()), w1)"
      "matching_grant (w_engine w1) (Some (ic_identity_id S)) (ic_server_id S) (cl_tool c) = Some g"
      "granted_call E S c x g w1 = (Inr (Go ()), w7)" by blast
  from granted_call_Go [OF 1(3)] obtain attrs ch ap scored w3 w4 w5 w6 where
    2: "g_compiled g = [] \<or> attributes_in (w_engine w1) (w_clock w1) S c = Inr attrs" "conditions_hold g attrs"
      "is_blocked (ic_server_id S) (cl_tool c) w1 = (Inr False, w3)"
      "step_up_stage E S c x w3 = (Inr (Go ch), w4)"
      "meta_text E (cl_meta c) APPROVAL_META_KEY = Inr ap"
      "decide_stage E S c ap (g_compiled g) attrs (ch \<noteq> None) w4 = (Inr (Go scored), w5)"
      "validation_stage E S c w5 = (Inr (Go ()), w6)"
      "allow_stage E S c ap ch scored w6 = (Inr (Go ()), w7)" by blast
  have u: "undecided w w1" "undecided w w3" "undecided w w4"
    using undecided.R_trans [OF u0 staysD [OF undecided.stays_replay_stage 1(1)]]
      undecided.R_trans staysD [OF undecided.stays_is_blocked 2(3)]
      staysD [OF undecided.stays_step_up_stage 2(4)] by blast+
  have "handled w w6"
    using h0 staysD [OF handled.stays_replay_stage 1(1)] staysD [OF handled.stays_is_blocked 2(3)]
      staysD [OF handled.stays_step_up_stage 2(4)] staysD [OF handled.stays_decide_stage 2(6)]
      staysD [OF handled.stays_validation_stage 2(7)] handled.R_trans by meson
  moreover have "w_engine w1 = w_engine w" "w_clock w1 = w_clock w" using u(1) by (simp_all add: undecided_def)
  moreover have "w_redis w0 = w_redis w" "w_clock w0 = w_clock w" by (simp_all add: w0)
  moreover have "w_audit w' = w_audit w7" "w_approvals w' = w_approvals w7" by (simp_all add: w')
  ultimately show ?thesis using m u 1 2 by metis
qed

end
