(* ===== verification/AbacTyping.thy ===== *)
theory AbacTyping
  imports Abac Demo
begin

text \<open>
  Type soundness of the conditions of \<open>abac.py\<close>: what a compiled condition can do when it is
  evaluated (a verdict, a list of missing paths, a type error and nothing else), and a type
  system over the attribute paths under which the type error cannot happen either.
\<close>

section \<open>Well-typed conditions evaluate\<close>

text \<open>
  A typing gives each attribute path text or number. Equality compares anything; an ordering
  needs both sides of one kind.
\<close>

datatype kind = Text | Number

type_synonym typing = "string \<Rightarrow> kind option"

fun kind_of :: "attr_value \<Rightarrow> kind" where
  "kind_of (AStr s) = Text"
| "kind_of v = Number"

fun operand_kind :: "typing \<Rightarrow> expr \<Rightarrow> kind option" where
  "operand_kind \<Gamma> (Attribute (Name rt) attr) = \<Gamma> (path_of rt attr)"
| "operand_kind \<Gamma> (Constant (CVal v)) = Some (kind_of v)"
| "operand_kind \<Gamma> _ = None"

fun chain_typed :: "typing \<Rightarrow> kind \<Rightarrow> cmpop list \<Rightarrow> expr list \<Rightarrow> bool" where
  "chain_typed \<Gamma> k [] [] = True"
| "chain_typed \<Gamma> k (op # ops) (c # cs) =
     (case operand_kind \<Gamma> c of None \<Rightarrow> False
      | Some k' \<Rightarrow> (op = Eq \<or> op = NotEq \<or> k = k') \<and> chain_typed \<Gamma> k' ops cs)"
| "chain_typed \<Gamma> k _ _ = False"

fun well_typed :: "typing \<Rightarrow> expr \<Rightarrow> bool" where
  "well_typed \<Gamma> (BoolOp op vs) = list_all (well_typed \<Gamma>) vs"
| "well_typed \<Gamma> (UnaryOp op e) = well_typed \<Gamma> e"
| "well_typed \<Gamma> (Compare l ops cs) =
     (case operand_kind \<Gamma> l of None \<Rightarrow> False | Some k \<Rightarrow> chain_typed \<Gamma> k ops cs)"
| "well_typed \<Gamma> _ = False"

text \<open>The attributes have the kinds the typing gives them, and every typed path is bound.\<close>

definition typed_attrs :: "typing \<Rightarrow> attrs \<Rightarrow> bool" where
  "typed_attrs \<Gamma> attrs \<longleftrightarrow> (\<forall>p k. \<Gamma> p = Some k \<longrightarrow> map_option kind_of (map_of attrs p) = Some k)"

lemma compare_op_typed:
  "op = Eq \<or> op = NotEq \<or> kind_of a = kind_of b \<Longrightarrow> \<exists>r. compare_op op a b = Inr r"
  by (cases op; cases a; cases b) (auto simp: attr_ord_def)

lemma operand_typed:
  "operand_kind \<Gamma> e = Some k \<Longrightarrow> typed_attrs \<Gamma> a \<Longrightarrow> \<exists>v. operand a e = Inr v \<and> kind_of v = k"
  by (induction \<Gamma> e rule: operand_kind.induct) (auto simp: typed_attrs_def, fastforce)

lemma eval_chain_typed:
  "chain_typed \<Gamma> (kind_of left) ops cs \<Longrightarrow> typed_attrs \<Gamma> a \<Longrightarrow> \<exists>b. eval_chain a left ops cs = Inr b"
proof (induction a left ops cs rule: eval_chain.induct)
  case (2 a left op ops c cs)
  from "2.prems" obtain k where k: "operand_kind \<Gamma> c = Some k"
    "op = Eq \<or> op = NotEq \<or> kind_of left = k" "chain_typed \<Gamma> k ops cs" by (auto split: option.splits)
  with "2.prems"(2) obtain v where v: "operand a c = Inr v" "kind_of v = k" using operand_typed by blast
  with k compare_op_typed [of op left v] obtain r where "compare_op op left v = Inr r" by auto
  with v k "2.IH" "2.prems"(2) show ?case by (cases r) auto
qed auto

lemma eval_expr_typed:
  "well_typed \<Gamma> e \<Longrightarrow> typed_attrs \<Gamma> a \<Longrightarrow> \<exists>b. eval_expr a e = Inr b"
  "list_all (well_typed \<Gamma>) es \<Longrightarrow> typed_attrs \<Gamma> a \<Longrightarrow> \<exists>b. eval_all a es = Inr b"
  "list_all (well_typed \<Gamma>) es \<Longrightarrow> typed_attrs \<Gamma> a \<Longrightarrow> \<exists>b. eval_any a es = Inr b"
proof (induction a e and a es and a es rule: eval_expr_eval_all_eval_any.induct)
  case (4 a l ops cs)
  then obtain k where k: "operand_kind \<Gamma> l = Some k" "chain_typed \<Gamma> k ops cs" by (auto split: option.splits)
  with 4 obtain v where "operand a l = Inr v" "kind_of v = k" using operand_typed by blast
  with k 4 show ?case using eval_chain_typed [of \<Gamma> v ops cs a] by simp
next
  case (7 a v vs)
  then obtain b where "eval_expr a v = Inr b" by auto
  with 7 show ?case by (cases b) auto
next
  case (9 a v vs)
  then obtain b where "eval_expr a v = Inr b" by auto
  with 9 show ?case by (cases b) auto
qed auto

lemma sort_empty_iff: "sort (xs :: string list) = [] \<longleftrightarrow> xs = []"
  using length_sort [of "\<lambda>x. x" xs] by fastforce

lemma evaluate_missing:
  assumes "evaluate c attrs = Inr (satisfied, missing)"
  shows "set missing = set (c_paths c) - dom (map_of attrs) \<and> (missing \<noteq> [] \<longrightarrow> \<not> satisfied)"
proof -
  have "missing = sort (filter (\<lambda>p. map_of attrs p = None) (c_paths c)) \<and> (missing \<noteq> [] \<longrightarrow> \<not> satisfied)"
    using assms by (auto simp: evaluate_def Let_def res_bnd_Inr_iff split: if_splits)
  then show ?thesis by auto
qed

lemma evaluate_raises:
  assumes "evaluate c attrs = Inl e"
  shows "eval_expr attrs (c_tree c) = Inl e \<and> set (c_paths c) \<subseteq> dom (map_of attrs)"
proof -
  have none: "filter (\<lambda>p. map_of attrs p = None) (c_paths c) = []"
    and e: "res_bnd (eval_expr attrs (c_tree c)) (\<lambda>b. Inr (b, [])) = (Inl e :: (bool \<times> string list) res)"
    using assms by (auto simp: evaluate_def Let_def sort_empty_iff split: if_splits)
  from e have "eval_expr attrs (c_tree c) = Inl e" by (cases "eval_expr attrs (c_tree c)") simp_all
  moreover have "set (c_paths c) \<subseteq> dom (map_of attrs)" using none by (auto simp: filter_empty_conv)
  ultimately show ?thesis by blast
qed

text \<open>
  C25: A compiled condition lies in the condition grammar, and evaluating it ends in one of three
  ways: with paths missing, when it is unsatisfied and exactly the unbound paths are reported; with
  a verdict; or with a type error, all paths bound. Nothing else is raised, neither a KeyError nor
  an AssertionError. Where the attributes are typed so that every ordering compares two texts or
  two numbers, the type error is excluded as well.
\<close>

theorem condition_type_safe:
  assumes "compile_condition parse source = Inr c" and "ast_ok (c_tree c)"
  shows "good_expr (c_tree c)
    \<and> (case evaluate c attrs of
         Inr (satisfied, missing) \<Rightarrow>
           set missing = expr_paths (c_tree c) - dom (map_of attrs) \<and> (missing \<noteq> [] \<longrightarrow> \<not> satisfied)
       | Inl e \<Rightarrow> e = TypeError \<and> expr_paths (c_tree c) \<subseteq> dom (map_of attrs))
    \<and> (well_typed \<Gamma> (c_tree c) \<and> typed_attrs \<Gamma> attrs \<longrightarrow> (\<exists>satisfied missing. evaluate c attrs = Inr (satisfied, missing)))"
proof -
  note c = compile_condition_Inr [OF assms(1)]
  have "e = TypeError \<and> expr_paths (c_tree c) \<subseteq> dom (map_of attrs)" if "evaluate c attrs = Inl e" for e
    using evaluate_raises [OF that] eval_expr_only_type_error(1) [OF c(2) assms(2), of attrs] c(3) by auto
  moreover have "\<exists>r. evaluate c attrs = Inr r" if "well_typed \<Gamma> (c_tree c)" "typed_attrs \<Gamma> attrs"
    using evaluate_raises [of c attrs] eval_expr_typed(1) [OF that] by (cases "evaluate c attrs") auto
  ultimately show ?thesis using c(2,3) evaluate_missing [of c attrs] by (auto split: sum.split prod.split)
qed

definition demo_typing :: typing where
  "demo_typing = [''risk.score'' \<mapsto> Number]"

definition demo_risk_condition :: condition where
  "demo_risk_condition = \<lparr>c_source = ''risk.score < 50'',
     c_tree = Compare (Attribute (Name ''risk'') ''score'') [Lt] [Constant (CVal (AInt 50))],
     c_paths = [''risk.score'']\<rparr>"

theorem condition_type_safe_witness:
  "good_expr (c_tree demo_risk_condition)
   \<and> (\<exists>satisfied missing. evaluate demo_risk_condition [(''risk.score'', AInt 20)] = Inr (satisfied, missing))
   \<and> evaluate demo_risk_condition [(''risk.score'', AInt 20)] = Inr (True, [])
   \<and> evaluate demo_risk_condition [] = Inr (False, [''risk.score''])
   \<and> evaluate demo_risk_condition [(''risk.score'', AStr ''high'')] = Inl TypeError"
proof -
  have run: "compile_condition demo_parse ''risk.score < 50'' = Inr demo_risk_condition" by code_simp
  have ok: "ast_ok (c_tree demo_risk_condition)" "well_typed demo_typing (c_tree demo_risk_condition)"
    by (simp_all add: demo_risk_condition_def demo_typing_def path_of_def)
  have typed: "typed_attrs demo_typing [(''risk.score'', AInt 20)]"
    by (simp add: typed_attrs_def demo_typing_def)
  have "evaluate demo_risk_condition [(''risk.score'', AInt 20)] = Inr (True, [])"
    "evaluate demo_risk_condition [] = Inr (False, [''risk.score''])"
    "evaluate demo_risk_condition [(''risk.score'', AStr ''high'')] = Inl TypeError" by code_simp+
  with condition_type_safe [OF run ok(1), of "[(''risk.score'', AInt 20)]" demo_typing] ok(2) typed
  show ?thesis by blast
qed

end
