(* ===== verification/Explainer.thy ===== *)
theory Explainer
  imports Pipeline
begin

text \<open>
  Decision explanation (\<open>decision_explainer.py\<close>): the decision a past audit row recorded
  (\<open>from_audit_row\<close>), and the dry run of the call pipeline for a hypothetical call
  (\<open>explain_call\<close>). The lemmas: a denial is reconstructed from its row as it was sent, a dry
  run changes nothing, and with the stores reachable it announces the decision the live
  pipeline takes.
\<close>

section \<open>Decisions from audit rows\<close>

definition OUTCOMES :: "(event_type \<times> outcome) list" where
  "OUTCOMES = [(ALLOW, Allow), (APPROVED, Allow), (DENY_RBAC, Deny), (DENY_ABAC, Deny),
     (DENY_REPLAY, Deny), (DENY_DRIFT, Deny), (DENY_RISK, Deny), (DENY_VALIDATION, Deny),
     (DENY_APPROVAL_MISMATCH, Deny), (DENY_STEP_UP, Deny), (EXPIRED, Deny), (CHALLENGE, Challenge),
     (HUMAN_APPROVAL_REQUIRED, HumanApprovalRequired)]"

definition FALLBACK_RULES :: "(event_type \<times> string list) list" where
  "FALLBACK_RULES = [(DENY_REPLAY, [''replay_guard'']), (DENY_DRIFT, [''drift_detector'']),
     (DENY_RISK, [''risk_engine'']), (CHALLENGE, [''risk_engine'']),
     (HUMAN_APPROVAL_REQUIRED, [''risk_engine'']), (DENY_VALIDATION, [''param_validator'']),
     (DENY_APPROVAL_MISMATCH, [''approval_lifecycle'']), (EXPIRED, [''approval_lifecycle'']),
     (APPROVED, [''admin_approval''])]"

definition alternative :: "outcome \<Rightarrow> int option \<Rightarrow> outcome option" where
  "alternative oc risk_score =
     (case risk_score of
        None \<Rightarrow> None
      | Some k \<Rightarrow> (let mapped = threshold_outcome k in if mapped \<noteq> oc then Some mapped else None))"

text \<open>
  \<open>RiskFactor.model_validate\<close>: a document with fields of the declared types is read as it is;
  what pydantic makes of any other document is the parameter \<open>lax\<close>.
\<close>

definition factor_of_json :: "(json \<Rightarrow> risk_factor res) \<Rightarrow> json \<Rightarrow> risk_factor res" where
  "factor_of_json lax v =
     (case (py_get v ''factor'', py_get v ''contribution'', py_get v ''reason'') of
        (Inr (JStr f), Inr (JInt n), Inr JNull) \<Rightarrow> Inr \<lparr>rf_factor = f, rf_contribution = n, rf_reason = None\<rparr>
      | (Inr (JStr f), Inr (JInt n), Inr (JStr r)) \<Rightarrow>
          Inr \<lparr>rf_factor = f, rf_contribution = n, rf_reason = Some r\<rparr>
      | _ \<Rightarrow> lax v)"

text \<open>The validation of the text fields of a \<open>Decision\<close>.\<close>

definition as_text :: "json \<Rightarrow> string res" where
  "as_text v = (case v of JStr s \<Rightarrow> Inr s | _ \<Rightarrow> Inl (ValueError ''Input should be a valid string''))"

definition py_repr_opt :: "string option \<Rightarrow> string" where
  "py_repr_opt v = (case v of None \<Rightarrow> ''None'' | Some s \<Rightarrow> py_repr s)"

text \<open>
  The rules of a row written before the payload held them. An event missing from the fallback
  table raises \<open>KeyError\<close>, a \<open>LookupError\<close> whose text shows the event.
\<close>

definition fallback_rules :: "event_type \<Rightarrow> int \<Rightarrow> string list res" where
  "fallback_rules ev version =
     (if ev = DENY_RBAC then Inr [''policy-v'' @ dec_int version @ '':rbac'']
      else if ev = DENY_ABAC then Inr [''policy-v'' @ dec_int version @ '':abac'']
      else if ev = ALLOW then Inr [''policy-v'' @ dec_int version @ '':rbac'']
      else (case map_of FALLBACK_RULES ev of
          Some rules \<Rightarrow> Inr rules
        | None \<Rightarrow> Inl (LookupError (''<EventType.'' @ event_value ev @ '': '' @ py_repr (event_value ev) @ ''>''))))"

definition recorded_rules :: "audit_row \<Rightarrow> event_type \<Rightarrow> json \<Rightarrow> json res" where
  "recorded_rules row ev payload =
     res_bnd (py_get payload ''matched_rules'') (\<lambda>raw.
     if raw = JNull
     then res_bnd (fallback_rules ev (ar_policy_version row)) (\<lambda>rules. Inr (JList (map JStr rules)))
     else Inr raw)"

definition recorded_factors ::
  "(json \<Rightarrow> risk_factor res) \<Rightarrow> json \<Rightarrow> risk_factor list option res"
where
  "recorded_factors lax payload =
     res_bnd (py_get payload ''risk_factors'') (\<lambda>raw.
     if truthy raw
     then res_bnd (py_iter raw) (\<lambda>fs. res_bnd (res_map (factor_of_json lax) fs) (\<lambda>gs. Inr (Some gs)))
     else Inr None)"

definition from_audit_row :: "(json \<Rightarrow> risk_factor res) \<Rightarrow> audit_row \<Rightarrow> decision res" where
  "from_audit_row lax row =
     (let no_decision = Inl (LookupError (''audit row '' @ dec_int (ar_seq row) @ '' is not a decision'')) in
      case event_of_value (ar_event_type row) of
        None \<Rightarrow> no_decision
      | Some ev \<Rightarrow>
          (case map_of OUTCOMES ev of
             None \<Rightarrow> no_decision
           | Some oc \<Rightarrow>
               let payload = py_or (ar_payload row) (JObj []) in
               res_bnd (recorded_rules row ev payload) (\<lambda>raw_rules.
               res_bnd (py_get payload ''reason'') (\<lambda>raw_reason.
               let reason = py_or raw_reason
                     (JStr (event_value ev @ '' recorded for '' @ py_repr_opt (ar_tool_name row))) in
               res_bnd (recorded_factors lax payload) (\<lambda>risk_factors.
               res_bnd (py_iter raw_rules) (\<lambda>listed.
               res_bnd (as_text reason) (\<lambda>r.
               res_bnd (res_map as_text listed) (\<lambda>rules.
                 Inr \<lparr>d_decision = oc, d_event_type = ev, d_reason = r, d_matched_rules = rules,
                   d_risk_score = ar_risk_score row, d_risk_factors = risk_factors,
                   d_policy_version = ar_policy_version row, d_audit_id = Some (dec_int (ar_seq row)),
                   d_approval_id = None, d_challenge_id = None,
                   d_alternative = alternative oc (ar_risk_score row)\<rparr>))))))))"

section \<open>The dry run\<close>

definition explain_hour :: "json \<Rightarrow> int step" where
  "explain_hour context =
     bnd (lift_res (py_get context ''hour'')) (\<lambda>hour.
     bnd (lift_res (py_get context ''timestamp'')) (\<lambda>timestamp.
     case hour of
       JInt n \<Rightarrow> ret n
     | _ \<Rightarrow>
         (case as_number timestamp of
            Some ts \<Rightarrow> lift_res (hour_of_timestamp ts)
          | None \<Rightarrow> bnd now (\<lambda>t. ret (utc_hour t)))))"

fun check_conditions :: "condition list \<Rightarrow> attrs \<Rightarrow> (condition \<times> string option) option" where
  "check_conditions [] attrs = None"
| "check_conditions (condition # conditions) attrs =
     (case judge condition attrs of (satisfied, problem) \<Rightarrow>
        if \<not> satisfied then Some (condition, problem) else check_conditions conditions attrs)"

definition explained ::
  "engine \<Rightarrow> outcome \<Rightarrow> event_type \<Rightarrow> string \<Rightarrow> string list \<Rightarrow> (int \<times> risk_factor list) option \<Rightarrow> decision"
where
  "explained en oc ev reason rules scored =
     (make_decision en oc ev reason rules (map_option fst scored) (map_option snd scored))
       \<lparr>d_alternative := alternative oc (map_option fst scored)\<rparr>"

definition explain_abac ::
  "engine \<Rightarrow> condition \<times> string option \<Rightarrow> (int \<times> risk_factor list) option \<Rightarrow> decision"
where
  "explain_abac en failed scored =
     (case failed of (condition, problem) \<Rightarrow>
        explained en Deny DENY_ABAC
          (''condition '' @ py_repr (c_source condition) @ '' not satisfied''
             @ (case problem of None \<Rightarrow> '''' | Some p \<Rightarrow> '' ('' @ p @ '')''))
          [policy_rule en (''abac:'' @ c_source condition)] scored)"

definition explain_attributes :: "engine \<Rightarrow> string \<Rightarrow> string \<Rightarrow> string \<Rightarrow> int \<Rightarrow> attrs" where
  "explain_attributes en identity_id tool_name server_id hour = dict_of
     ([(''identity.id'', AStr identity_id), (''tool.name'', AStr tool_name),
       (''tool.server_id'', AStr server_id), (''context.hour'', AInt hour)]
      @ (case identity_of en identity_id of
           None \<Rightarrow> []
         | Some x \<Rightarrow> map (\<lambda>(k, v). (''identity.'' @ k, v)) (id_attributes x)))"

definition explain_allowed :: "engine \<Rightarrow> string \<Rightarrow> int \<times> risk_factor list \<Rightarrow> decision" where
  "explain_allowed en tool_name scored =
     explained en Allow ALLOW (''call to '' @ py_repr tool_name @ '' would be allowed'')
       [policy_rule en ''rbac''] (Some scored)"

definition explain_invalid :: "engine \<Rightarrow> string \<Rightarrow> int \<times> risk_factor list \<Rightarrow> string \<Rightarrow> decision" where
  "explain_invalid en tool_name scored detail =
     explained en Deny DENY_VALIDATION
       (''invalid arguments for '' @ py_repr tool_name @ '': '' @ detail) [''param_validator''] (Some scored)"

definition explain_validation ::
  "ext \<Rightarrow> engine \<Rightarrow> string \<Rightarrow> string \<Rightarrow> json \<Rightarrow> int \<times> risk_factor list \<Rightarrow> decision step"
where
  "explain_validation E en tool_name server_id arguments scored =
     bnd (try_catch (cache_get server_id) (\<lambda>e. ret None)) (\<lambda>cached.
     if cached = None \<or> cached = Some JNull then
       ret (explain_invalid en tool_name scored
         (''tool schema not cached; explain fails closed''
            @ '' (a live call would re-fetch it from the upstream)''))
     else
       bnd (lift_res (res_bnd (py_iter (the cached)) (\<lambda>ts. find_schema ts tool_name))) (\<lambda>input_schema.
       if input_schema = JNull
       then ret (explain_invalid en tool_name scored ''tool schema unavailable from upstream'')
       else
         bnd (lift_res (validate E arguments input_schema)) (\<lambda>problem.
         ret (case problem of
                Some p \<Rightarrow> explain_invalid en tool_name scored p
              | None \<Rightarrow> explain_allowed en tool_name scored))))"

definition explain_scored ::
  "ext \<Rightarrow> engine \<Rightarrow> string \<Rightarrow> string \<Rightarrow> json \<Rightarrow> condition list \<Rightarrow> attrs \<Rightarrow> bool
     \<Rightarrow> int \<times> risk_factor list \<Rightarrow> decision step"
where
  "explain_scored E en tool_name server_id arguments conditions attrs validate_params scored =
     (let k = fst scored in
      case check_conditions (filter references_risk conditions)
             (AList.update ''risk.score'' (AInt k) attrs) of
        Some failed \<Rightarrow> ret (explain_abac en failed (Some scored))
      | None \<Rightarrow>
          (case threshold_outcome k of
             Deny \<Rightarrow> ret (explained en Deny DENY_RISK
               (''risk score '' @ dec_int k @ '' for '' @ py_repr tool_name
                  @ '' exceeds the deny threshold (90)'') [''risk_engine''] (Some scored))
           | HumanApprovalRequired \<Rightarrow> ret (explained en HumanApprovalRequired HUMAN_APPROVAL_REQUIRED
               (''risk score '' @ dec_int k @ '' for '' @ py_repr tool_name @ '' requires human approval'')
               [''risk_engine''] (Some scored))
           | Challenge \<Rightarrow> ret (explained en Challenge CHALLENGE
               (''risk score '' @ dec_int k @ '' for '' @ py_repr tool_name @ '' requires confirmation'')
               [''risk_engine''] (Some scored))
           | Allow \<Rightarrow>
               if \<not> validate_params then ret (explain_allowed en tool_name scored)
               else explain_validation E en tool_name server_id arguments scored))"

definition explain_call ::
  "ext \<Rightarrow> engine \<Rightarrow> string \<Rightarrow> string \<Rightarrow> string \<Rightarrow> json \<Rightarrow> json \<Rightarrow> bool \<Rightarrow> decision step"
where
  "explain_call E en identity_id tool_name server_id arguments context validate_params =
     (case matching_grant en (Some identity_id) server_id tool_name of
        None \<Rightarrow> ret (explained en Deny DENY_RBAC
          (''identity '' @ py_repr identity_id @ '' is not authorized to call '' @ py_repr tool_name)
          [policy_rule en ''rbac''] None)
      | Some grant \<Rightarrow>
          let conditions = g_compiled grant in
          bnd (explain_hour context) (\<lambda>hour.
          let attrs = explain_attributes en identity_id tool_name server_id hour in
          case check_conditions (filter (\<lambda>x. \<not> references_risk x) conditions) attrs of
            Some failed \<Rightarrow> ret (explain_abac en failed None)
          | None \<Rightarrow>
              bnd (try_catch (is_blocked server_id tool_name) (\<lambda>e. ret True)) (\<lambda>drift_blocked.
              if drift_blocked then
                ret (explained en Deny DENY_DRIFT
                  (py_repr tool_name @ '' is blocked: schema drifted from its approved baseline''
                     @ '' and is pending re-approval'') [''drift_detector''] None)
              else
                bnd (try_catch (score E identity_id server_id tool_name arguments
                        (p_risk (en_policy en)) True) (\<lambda>e. ret RISK_UNAVAILABLE))
                  (explain_scored E en tool_name server_id arguments conditions attrs validate_params))))"

section \<open>Reading a stored decision back\<close>

text \<open>
  What a JSONB column keeps of a document: every value, lists in their order; the order of the
  keys of an object may change.
\<close>

function json_equiv :: "json \<Rightarrow> json \<Rightarrow> bool" where
  "json_equiv (JObj d) u = (case u of
     JObj e \<Rightarrow> list_all (\<lambda>(k, v). case map_of e k of None \<Rightarrow> False | Some x \<Rightarrow> json_equiv v x) d
       \<and> set (map fst e) = set (map fst d)
   | _ \<Rightarrow> False)"
| "json_equiv (JList xs) u = (case u of
     JList ys \<Rightarrow> length xs = length ys \<and> list_all (\<lambda>(x, y). json_equiv x y) (zip xs ys)
   | _ \<Rightarrow> False)"
| "json_equiv JNull u = (u = JNull)"
| "json_equiv (JBool b) u = (u = JBool b)"
| "json_equiv (JInt i) u = (u = JInt i)"
| "json_equiv (JFloat f) u = (u = JFloat f)"
| "json_equiv (JStr s) u = (u = JStr s)"
  by pat_completeness auto
termination
  by (relation "measure (\<lambda>(v, u). size v)")
    (auto simp: less_Suc_eq_le intro: size_list_mem size_dict_mem dest: set_zip_leftD)

definition keeps_document :: "ext \<Rightarrow> json \<Rightarrow> bool" where
  "keeps_document E p \<longleftrightarrow> json_equiv p (x_jsonb E p)"

lemma json_equiv_texts: "json_equiv (JList (map JStr ss)) u \<longleftrightarrow> u = JList (map JStr ss)"
proof
  assume "json_equiv (JList (map JStr ss)) u"
  then obtain ys where u: "u = JList ys" "length ss = length ys"
    and each: "list_all (\<lambda>(x, y). json_equiv x y) (zip (map JStr ss) ys)"
    by (auto split: json.splits)
  have "ys = map JStr ss"
  proof (rule nth_equalityI)
    show "length ys = length (map JStr ss)" using u by simp
    fix i
    assume i: "i < length ys"
    with each u(2) have "json_equiv (JStr (ss ! i)) (ys ! i)" by (auto simp: list_all_length)
    with i u(2) show "ys ! i = map JStr ss ! i" by simp
  qed
  with u show "u = JList (map JStr ss)" by simp
next
  assume "u = JList (map JStr ss)"
  then show "json_equiv (JList (map JStr ss)) u" by (auto simp: list_all_length)
qed

lemma json_equiv_member:
  assumes "json_equiv (JObj d) u" and "map_of d k = Some v"
  shows "\<exists>e x. u = JObj e \<and> map_of e k = Some x \<and> json_equiv v x"
proof -
  from assms(1) obtain e where u: "u = JObj e"
    and each: "list_all (\<lambda>(k, v). case map_of e k of None \<Rightarrow> False | Some x \<Rightarrow> json_equiv v x) d"
    by (auto split: json.splits)
  from map_of_SomeD [OF assms(2)] each have "case map_of e k of None \<Rightarrow> False | Some x \<Rightarrow> json_equiv v x"
    by (auto simp: list_all_iff)
  with u show ?thesis by (auto split: option.splits)
qed

lemma json_equiv_get:
  assumes "json_equiv (JObj d) u" and "map_of d k = Some v"
  shows "\<exists>x. py_get u k = Inr x \<and> json_equiv v x"
  using json_equiv_member [OF assms] by auto

lemma json_equiv_missing:
  assumes "json_equiv (JObj d) u" and "map_of d k = None"
  shows "py_get u k = Inr JNull"
proof -
  from assms(1) obtain e where u: "u = JObj e" and "set (map fst e) = set (map fst d)"
    by (auto split: json.splits)
  with assms(2) have "map_of e k = None" by (metis map_of_eq_None_iff set_map)
  with u show ?thesis by simp
qed

text \<open>Texts free of the null character, which the writer escapes.\<close>

definition factor_text_ok :: "risk_factor \<Rightarrow> bool" where
  "factor_text_ok f \<longleftrightarrow>
     text_ok (rf_factor f) \<and> (case rf_reason f of None \<Rightarrow> True | Some r \<Rightarrow> text_ok r)"

definition texts_ok :: "string \<Rightarrow> string list \<Rightarrow> risk_factor list option \<Rightarrow> bool" where
  "texts_ok reason rules fs \<longleftrightarrow> text_ok reason \<and> reason \<noteq> [] \<and> list_all text_ok rules
     \<and> fs \<noteq> Some []
     \<and> list_all factor_text_ok (case fs of None \<Rightarrow> [] | Some gs \<Rightarrow> gs)"

lemma escape_null_id: "text_ok s \<Longrightarrow> escape_null s = s"
  by (induction s) (auto simp: escape_null_def text_ok_def)

lemma jsonb_safe_texts: "list_all text_ok ss \<Longrightarrow> jsonb_safe (JList (map JStr ss)) = JList (map JStr ss)"
  by (induction ss) (auto simp: escape_null_id)

lemma jsonb_safe_factor: "factor_text_ok f \<Longrightarrow> jsonb_safe (dump_factor f) = dump_factor f"
  by (cases "rf_reason f")
    (simp_all add: factor_text_ok_def dump_factor_def dict_of_def escape_null_id text_ok_def jopt_def)

lemma jsonb_safe_factors:
  "list_all factor_text_ok fs \<Longrightarrow> jsonb_safe (dump_factors fs) = dump_factors fs"
  by (induction fs) (auto simp: dump_factors_def jsonb_safe_factor)

lemma factor_read_back: "json_equiv (dump_factor f) u \<Longrightarrow> factor_of_json lax u = Inr f"
proof -
  assume eq: "json_equiv (dump_factor f) u"
  note get = json_equiv_get [OF eq [unfolded dump_factor_def]]
  from get [of "''factor''" "JStr (rf_factor f)"] have "py_get u ''factor'' = Inr (JStr (rf_factor f))" by auto
  moreover from get [of "''contribution''" "JInt (rf_contribution f)"]
  have "py_get u ''contribution'' = Inr (JInt (rf_contribution f))" by auto
  moreover from get [of "''reason''" "jopt JStr (rf_reason f)"]
  have "py_get u ''reason'' = Inr (jopt JStr (rf_reason f))"
    by (cases "rf_reason f") (auto simp: jopt_def)
  ultimately show ?thesis
    by (cases "rf_reason f") (simp_all add: factor_of_json_def jopt_def)
qed

lemma factors_read_back:
  assumes "json_equiv (dump_factors fs) u"
  shows "\<exists>us. u = JList us \<and> length us = length fs \<and> res_map (factor_of_json lax) us = Inr fs"
proof -
  have "res_map (factor_of_json lax) us = Inr fs"
    if "length fs = length us" "list_all (\<lambda>(x, y). json_equiv x y) (zip (map dump_factor fs) us)" for us
    using that by (induction fs us rule: list_induct2) (auto simp: factor_read_back)
  with assms show ?thesis by (auto simp: dump_factors_def split: json.splits)
qed

lemma denial_payload:
  assumes "texts_ok reason rules fs"
  shows "\<exists>d. audit_payload ev i s t v (denial_extra c reason rules fs) = JObj d
    \<and> map_of d ''reason'' = Some (JStr reason) \<and> map_of d ''matched_rules'' = Some (JList (map JStr rules))
    \<and> map_of d ''risk_factors'' = map_option dump_factors fs"
proof (cases fs)
  case None
  with assms jsonb_safe_texts [of rules] show ?thesis
    by (simp add: audit_payload_def denial_extra_def factors_extra_def dict_of_def texts_ok_def escape_null_id
        text_ok_def)
next
  case (Some gs)
  with assms obtain g gs' where gs: "gs = g # gs'" by (cases gs) (auto simp: texts_ok_def)
  from assms Some have "list_all factor_text_ok gs" by (simp add: texts_ok_def)
  from jsonb_safe_factors [OF this] assms Some gs jsonb_safe_texts [of rules] show ?thesis
    by (simp add: audit_payload_def denial_extra_def factors_extra_def dict_of_def texts_ok_def escape_null_id
        text_ok_def)
qed

lemma stored_decision_read_back:
  assumes row: "records E ev i s (Some t) (denial_extra c reason rules fs) k v row"
    and oc: "map_of OUTCOMES ev = Some oc" and ok: "texts_ok reason rules fs"
    and keeps: "keeps_document E (audit_payload ev i s (Some t) v (denial_extra c reason rules fs))"
  shows "from_audit_row lax row = Inr
    \<lparr>d_decision = oc, d_event_type = ev, d_reason = reason, d_matched_rules = rules,
     d_risk_score = k, d_risk_factors = fs, d_policy_version = v, d_audit_id = Some (dec_int (ar_seq row)),
     d_approval_id = None, d_challenge_id = None, d_alternative = alternative oc k\<rparr>"
proof -
  from denial_payload [OF ok, of ev i s "Some t" v c] obtain d where
    d: "audit_payload ev i s (Some t) v (denial_extra c reason rules fs) = JObj d"
      "map_of d ''reason'' = Some (JStr reason)" "map_of d ''matched_rules'' = Some (JList (map JStr rules))"
      "map_of d ''risk_factors'' = map_option dump_factors fs" by blast
  let ?p = "ar_payload row"
  from keeps d(1) row have eq: "json_equiv (JObj d) ?p" by (simp add: keeps_document_def records_def)
  from json_equiv_get [OF eq d(2)] have reason: "py_get ?p ''reason'' = Inr (JStr reason)" by auto
  from json_equiv_get [OF eq d(3)] have rules: "py_get ?p ''matched_rules'' = Inr (JList (map JStr rules))"
    by (auto simp: json_equiv_texts simp del: json_equiv.simps)
  have factors: "recorded_factors lax ?p = Inr fs"
  proof (cases fs)
    case None
    with json_equiv_missing [OF eq] d(4) show ?thesis by (simp add: recorded_factors_def)
  next
    case (Some gs)
    with ok have "gs \<noteq> []" by (auto simp: texts_ok_def)
    from json_equiv_get [OF eq] d(4) Some obtain x where
      x: "py_get ?p ''risk_factors'' = Inr x" "json_equiv (dump_factors gs) x" by auto
    from factors_read_back [OF x(2), of lax] \<open>gs \<noteq> []\<close> x(1) Some show ?thesis
      by (auto simp: recorded_factors_def)
  qed
  from reason obtain e where "?p = JObj e" by (auto simp: py_get_Inr_iff)
  then have "py_or ?p (JObj []) = ?p" by simp
  moreover from ok have "py_or (JStr reason) x = JStr reason" for x by (simp add: py_or_def texts_ok_def)
  moreover have "res_map as_text (map JStr rules) = Inr rules" by (induction rules) (auto simp: as_text_def)
  moreover from row have "event_of_value (ar_event_type row) = Some ev" "ar_policy_version row = v"
    "ar_risk_score row = k" by (simp_all add: records_def)
  ultimately show ?thesis
    using oc reason rules factors
    by (simp add: from_audit_row_def recorded_rules_def Let_def as_text_def)
qed

section \<open>Properties\<close>

text \<open>
  C27: The decision a denied client receives is the one the explanation endpoint reads back from
  the audit row its audit id names, completed by the alternative its score would have given.
\<close>
theorem denial_read_back:
  assumes "map_of OUTCOMES ev = Some Deny" and "texts_ok reason rules fs"
    and "keeps_document E (audit_payload ev (ic_identity_id S) (Some (ic_server_id S)) (Some (cl_tool c))
           (en_version (w_engine w)) (denial_extra c reason rules fs))"
  shows "\<exists>d w'. deny E S c ev reason rules k fs w
      = (Inr (rpc_error (cl_id c) POLICY_DENIED_CODE reason (Some (dump_decision d))), w')
    \<and> (case d_audit_id d of
         None \<Rightarrow> True
       | Some s \<Rightarrow> \<exists>rows row. w_audit w' = w_audit w @ rows @ [row] \<and> s = dec_int (ar_seq row)
           \<and> from_audit_row lax row = Inr (d\<lparr>d_alternative := alternative Deny k\<rparr>))"
proof -
  from deny_run [of E S c ev reason rules k fs w] obtain a w' where
    run: "deny E S c ev reason rules k fs w = (Inr (rpc_error (cl_id c) POLICY_DENIED_CODE reason
      (Some (dump_decision ((make_decision (w_engine w) Deny ev reason rules k fs)\<lparr>d_audit_id := a\<rparr>)))), w')"
    and row: "denial_row E S c ev reason rules k fs w w' a" by blast
  let ?d = "(make_decision (w_engine w) Deny ev reason rules k fs)\<lparr>d_audit_id := a\<rparr>"
  have "\<exists>rows row. w_audit w' = w_audit w @ rows @ [row] \<and> s = dec_int (ar_seq row)
      \<and> from_audit_row lax row = Inr (?d\<lparr>d_alternative := alternative Deny k\<rparr>)" if "a = Some s" for s
  proof -
    from row that obtain rows r where r: "s = dec_int (ar_seq r)" "w_audit w' = w_audit w @ rows @ [r]"
      "records E ev (ic_identity_id S) (Some (ic_server_id S)) (Some (cl_tool c))
         (denial_extra c reason rules fs) k (en_version (w_engine w)) r"
      by (auto simp: denial_row_def)
    from stored_decision_read_back [OF r(3) assms, of lax] that r(1,2) show ?thesis
      by (intro exI [of _ rows] exI [of _ r]) (simp add: make_decision_def)
  qed
  then have "case d_audit_id ?d of None \<Rightarrow> True
     | Some s \<Rightarrow> \<exists>rows row. w_audit w' = w_audit w @ rows @ [row] \<and> s = dec_int (ar_seq row)
         \<and> from_audit_row lax row = Inr (?d\<lparr>d_alternative := alternative Deny k\<rparr>)"
    by (simp add: make_decision_def split: option.split)
  with run show ?thesis by blast
qed

definition demo_session :: interceptor where
  "demo_session = \<lparr>ic_identity_id = ''bot'', ic_server_id = ''srv'', ic_session_id = ''s1''\<rparr>"

definition demo_write_call :: call where
  "demo_write_call = \<lparr>cl_id = IdInt 1, cl_tool = ''write'', cl_arguments = JObj [], cl_meta = JObj []\<rparr>"

theorem denial_read_back_witness:
  "\<exists>d row w'. deny demo demo_session demo_write_call DENY_RISK ''too risky'' [''risk_engine''] (Some 95) None demo_world
      = (Inr (rpc_error (IdInt 1) POLICY_DENIED_CODE ''too risky'' (Some (dump_decision d))), w')
    \<and> w_audit w' = [row]
    \<and> from_audit_row (\<lambda>v. Inl TypeError) row = Inr (d\<lparr>d_alternative := None\<rparr>)"
proof -
  let ?m = "deny demo demo_session demo_write_call DENY_RISK ''too risky'' [''risk_engine''] (Some 95) None demo_world"
  have "keeps_document demo (audit_payload DENY_RISK ''bot'' (Some ''srv'') (Some ''write'') 1
      (denial_extra demo_write_call ''too risky'' [''risk_engine''] None))" by code_simp
  moreover have "map_of OUTCOMES DENY_RISK = Some Deny" "texts_ok ''too risky'' [''risk_engine''] None" by code_simp+
  moreover have "en_version (w_engine demo_world) = 1" by code_simp
  ultimately obtain d w' where run: "?m = (Inr (rpc_error (IdInt 1) POLICY_DENIED_CODE ''too risky'' (Some (dump_decision d))), w')"
    and a: "case d_audit_id d of None \<Rightarrow> True
       | Some s \<Rightarrow> \<exists>rows row. w_audit w' = w_audit demo_world @ rows @ [row] \<and> s = dec_int (ar_seq row)
           \<and> from_audit_row (\<lambda>v. Inl TypeError) row = Inr (d\<lparr>d_alternative := alternative Deny (Some 95)\<rparr>)"
    using denial_read_back [of DENY_RISK "''too risky''" "[''risk_engine'']" None demo demo_session demo_write_call
        demo_world "Some 95" "\<lambda>v. Inl TypeError"]
    by (auto simp: demo_session_def demo_write_call_def)
  have "fst ?m = Inr (rpc_error (IdInt 1) POLICY_DENIED_CODE ''too risky'' (Some (dump_decision
      ((make_decision demo_engine Deny DENY_RISK ''too risky'' [''risk_engine''] (Some 95) None)\<lparr>d_audit_id := Some ''1''\<rparr>))))"
    "length (w_audit (snd ?m)) = 1" by code_simp+
  with run have id: "d_audit_id d = Some ''1''" and one: "length (w_audit w') = 1"
    by (auto simp: rpc_error_def dump_decision_def jopt_def split: option.splits)
  with a obtain rows row where "w_audit w' = rows @ [row]"
    "from_audit_row (\<lambda>v. Inl TypeError) row = Inr (d\<lparr>d_alternative := alternative Deny (Some 95)\<rparr>)"
    by (auto simp: demo_world_def)
  moreover have "alternative Deny (Some 95) = None" by code_simp
  ultimately show ?thesis using run one by auto
qed

section \<open>A dry run changes nothing\<close>

text \<open>Reading stays within \<open>quiet\<close>: only the fault schedule moves.\<close>

interpretation quiet: step_relation quiet
  by unfold_locales (auto intro: quiet_trans)

lemma quiet_faulty:
  assumes "stays quiet m"
  shows "stays quiet (faulty e m)"
proof (rule staysI)
  fix w r w'
  assume run: "faulty e m w = (r, w')"
  show "quiet w w'"
  proof (cases r)
    case (Inl x)
    with faulty_Inl [of e m w x w'] run assms show ?thesis by (blast intro: staysD quiet_trans)
  next
    case (Inr x)
    with faulty_Inr [of e m w x w'] run assms show ?thesis by (blast intro: staysD quiet_trans)
  qed
qed

lemma quiet_r_get: "stays quiet (r_get k)"
  unfolding r_get_def by (rule quiet_faulty, rule quiet.stays_gets)

lemma quiet_db_read: "stays quiet (db_read ps f)"
  unfolding db_read_def by (rule quiet_faulty) (simp add: stays_def)

lemma quiet_counter: "stays quiet (counter k)"
  unfolding counter_def by (intro quiet.stays_all quiet_r_get)

lemma quiet_now: "stays quiet now"
  unfolding now_def by (rule quiet.stays_gets)

lemma quiet_baseline_of: "stays quiet (baseline_of s t)"
  unfolding baseline_of_def by (rule quiet_db_read)

lemma quiet_recent_drift_count: "stays quiet (recent_drift_count s t n)"
  unfolding recent_drift_count_def by (intro quiet.stays_all quiet_now quiet_db_read)

lemma quiet_dry_score: "stays quiet (score E i s t a p True)"
  unfolding score_def gather_def has_pending_drift_def is_suspicious_def Let_def if_True
  by (intro quiet.stays_all quiet_counter quiet_now quiet_baseline_of quiet_recent_drift_count)

lemma quiet_cache_get: "stays quiet (cache_get s)"
  unfolding cache_get_def by (intro quiet.stays_all quiet_r_get)

lemma quiet_is_blocked: "stays quiet (is_blocked s t)"
  unfolding is_blocked_def by (intro quiet.stays_all quiet_baseline_of)

lemma quiet_explain_hour: "stays quiet (explain_hour context)"
  unfolding explain_hour_def
  by (intro quiet.stays_bnd quiet.stays_lift_res)
    (auto split: json.split option.split intro!: quiet.stays_all quiet_now)

lemma quiet_explain_validation: "stays quiet (explain_validation E en t s a scored)"
  unfolding explain_validation_def by (intro quiet.stays_all quiet_cache_get)

lemma quiet_explain_scored: "stays quiet (explain_scored E en t s a conditions attrs vp scored)"
  unfolding explain_scored_def Let_def
  by (auto split: option.split outcome.split intro!: quiet.stays_ret quiet_explain_validation)

text \<open>
  A dry run has no effect: whatever it is asked and whichever lookups fail, the only thing
  it changes is how much of the fault schedule is left.
\<close>
theorem explain_changes_nothing:
  "stays quiet (explain_call E en i t s arguments context validate_params)"
  unfolding explain_call_def Let_def
  by (intro quiet.stays_option quiet.stays_bnd quiet.stays_try_catch quiet.stays_if quiet.stays_ret
      quiet_explain_hour quiet_is_blocked quiet_dry_score quiet_explain_scored)

section \<open>A dry run announces the live decision\<close>

definition same_verdict :: "decision \<Rightarrow> decision \<Rightarrow> bool" where
  "same_verdict d d' \<longleftrightarrow>
     d_decision d' = d_decision d \<and> d_event_type d' = d_event_type d
     \<and> d_matched_rules d' = d_matched_rules d \<and> d_policy_version d' = d_policy_version d
     \<and> (if d_event_type d = DENY_VALIDATION then d_risk_score d' = None
        else d_risk_score d' = d_risk_score d \<and> d_risk_factors d' = d_risk_factors d)"

text \<open>
  An answer of the live pipeline is the announced one: forwarded for ALLOW; refused with a
  decision that agrees; or, for a call that is not to be denied, refused since the log cannot
  be written. The live denial of arguments carries no score.
\<close>

definition announces :: "decision \<Rightarrow> rpc_id \<Rightarrow> outgoing \<Rightarrow> bool" where
  "announces d rid out \<longleftrightarrow>
     d_decision d = Allow \<and> (\<exists>m. out = Forward m)
     \<or> d_decision d \<noteq> Deny \<and> (\<exists>t. out = rpc_error rid AUDIT_UNAVAILABLE_CODE t None)
     \<or> (\<exists>d'. out = rpc_error rid POLICY_DENIED_CODE (d_reason d') (Some (dump_decision d'))
          \<and> same_verdict d d')"

definition gone :: "decision \<Rightarrow> rpc_id \<Rightarrow> 'a verdict \<Rightarrow> bool" where
  "gone d rid v \<longleftrightarrow> (case v of Go x \<Rightarrow> d_decision d = Allow | Stop out \<Rightarrow> announces d rid out)"

lemma proceed_run_Go: "m w = (Inr (Go x), w1) \<Longrightarrow> proceed m f w = f x w1"
  by (simp add: proceed_def bnd_def)

lemma proceed_run_Stop: "m w = (Inr (Stop out), w1) \<Longrightarrow> proceed m f w = (Inr (Stop out), w1)"
  by (simp add: proceed_def bnd_def)

lemma stop_deny_announced:
  assumes "d_decision d = Deny" "d_event_type d = ev" "d_matched_rules d = rules"
    and "d_policy_version d = en_version (w_engine w)"
    and "if ev = DENY_VALIDATION then k = None else d_risk_score d = k \<and> d_risk_factors d = fs"
  shows "\<exists>out w'. stop (deny E S c ev reason rules k fs) w = (Inr (Stop out), w')
    \<and> announces d (cl_id c) out"
proof -
  from deny_run [of E S c ev reason rules k fs w] obtain a w' where
    run: "deny E S c ev reason rules k fs w = (Inr (rpc_error (cl_id c) POLICY_DENIED_CODE reason
      (Some (dump_decision ((make_decision (w_engine w) Deny ev reason rules k fs)\<lparr>d_audit_id := a\<rparr>)))), w')"
    by blast
  have "announces d (cl_id c) (rpc_error (cl_id c) POLICY_DENIED_CODE reason
      (Some (dump_decision ((make_decision (w_engine w) Deny ev reason rules k fs)\<lparr>d_audit_id := a\<rparr>))))"
    unfolding announces_def
    by (intro disjI2 exI [of _ "(make_decision (w_engine w) Deny ev reason rules k fs)\<lparr>d_audit_id := a\<rparr>"])
      (use assms in \<open>auto simp: same_verdict_def make_decision_def split: if_splits\<close>)
  with run show ?thesis by (auto simp: stop_def bnd_def)
qed

lemma judge_map:
  assumes "map_of a = map_of b"
  shows "judge c a = judge c b"
proof -
  from assms have "eval_expr a (c_tree c) = eval_expr b (c_tree c)" by (intro eval_expr_cong(1)) simp
  with assms have "evaluate c a = evaluate c b" unfolding evaluate_def by (simp only:)
  then show ?thesis unfolding judge_def by (simp only:)
qed

lemma check_conditions_map: "map_of a = map_of b \<Longrightarrow> check_conditions cs a = check_conditions cs b"
proof (induction cs)
  case (Cons c cs)
  then show ?case by (cases "judge c b") (simp add: judge_map [OF Cons.prems])
qed simp

lemma enforce_unfailed:
  "check_conditions cs attrs = None \<Longrightarrow> enforce_conditions E S c cs attrs k fs w = (Inr (Go ()), w)"
proof (induction cs)
  case (Cons x cs)
  obtain satisfied problem where j: "judge x attrs = (satisfied, problem)" by fastforce
  with Cons.prems have s: satisfied "check_conditions cs attrs = None" by (auto split: if_splits)
  with j judge_True [of x attrs problem] have "problem = None" by auto
  with j s Cons.IH show ?case by simp
qed simp

lemma enforce_failed:
  assumes "check_conditions cs attrs = Some failed"
  shows "\<exists>out w'. enforce_conditions E S c cs attrs (map_option fst scored) (map_option snd scored) w
      = (Inr (Stop out), w') \<and> announces (explain_abac (w_engine w) failed scored) (cl_id c) out"
  using assms
proof (induction cs arbitrary: w)
  case (Cons x cs)
  obtain satisfied problem where j: "judge x attrs = (satisfied, problem)" by fastforce
  show ?case
  proof (cases satisfied)
    case True
    with j judge_True [of x attrs problem] have "problem = None" by auto
    with True j Cons show ?thesis by simp
  next
    case False
    with j Cons.prems have failed: "failed = (x, problem)" by simp
    let ?note = "case problem of None \<Rightarrow> ret ()
       | Some p \<Rightarrow> try_catch (bnd (call_event E S c POLICY_ERROR
           [(''condition'', JStr (c_source x)), (''reason'', JStr p)] None) (\<lambda>_. ret ())) (\<lambda>e. ret ())"
    obtain r w1 where n: "?note w = (r, w1)" by fastforce
    have "r = Inr ()" using n by (cases problem) (auto simp: try_catch_def bnd_def split: prod.splits sum.splits)
    moreover have "stays (same w_engine) ?note"
      by (intro same_engine.append_intros same.stays_option) (simp add: call_event_def same_engine.stays_audit_write)
    from staysD [OF this n] have e: "w_engine w1 = w_engine w" by (simp add: same_def)
    ultimately have n: "?note w = (Inr (), w1)" using n by simp
    have "\<exists>out w'. stop (deny E S c DENY_ABAC
           (''condition '' @ py_repr (c_source x) @ '' not satisfied''
              @ (case problem of None \<Rightarrow> '''' | Some p \<Rightarrow> '' ('' @ p @ '')''))
           [policy_rule (w_engine w1) (''abac:'' @ c_source x)] (map_option fst scored) (map_option snd scored)) w1
        = (Inr (Stop out), w') \<and> announces (explain_abac (w_engine w) failed scored) (cl_id c) out"
      by (rule stop_deny_announced) (simp_all add: explain_abac_def explained_def make_decision_def failed e)
    then show ?thesis
      using j False by (simp add: bnd_run_Inr [of ?note, OF n] the_engine_def)
  qed
qed simp

text \<open>The attributes of the two runs agree as maps.\<close>

definition plain_meta :: "json \<Rightarrow> bool" where
  "plain_meta meta \<longleftrightarrow> (\<exists>m. meta = JObj m \<and> (\<forall>k \<in> set GATEWAY_META_KEYS. map_of m k = None))"

lemma plain_meta_get: "plain_meta meta \<Longrightarrow> k \<in> set GATEWAY_META_KEYS \<Longrightarrow> py_get meta k = Inr JNull"
  by (auto simp: plain_meta_def)

lemma plain_meta_in: "plain_meta meta \<Longrightarrow> k \<in> set GATEWAY_META_KEYS \<Longrightarrow> py_in k meta = Inr False"
  unfolding plain_meta_def by (auto simp: map_of_eq_None_iff)

lemma gateway_keys [simp]:
  "NONCE_META_KEY \<in> set GATEWAY_META_KEYS" "TIMESTAMP_META_KEY \<in> set GATEWAY_META_KEYS"
  "APPROVAL_META_KEY \<in> set GATEWAY_META_KEYS" "CHALLENGE_ID_META_KEY \<in> set GATEWAY_META_KEYS"
  by (simp_all add: GATEWAY_META_KEYS_def)

lemma explain_hour_now: "explain_hour (JObj []) w = (Inr (utc_hour (w_clock w)), w)"
  by (simp add: explain_hour_def bnd_def now_def)

lemma attributes_agree:
  assumes "plain_meta (cl_meta c)"
  shows "\<exists>attrs. attributes_in en t S c = Inr attrs
    \<and> map_of attrs = map_of (explain_attributes en (ic_identity_id S) (cl_tool c) (ic_server_id S) (utc_hour t))"
proof -
  let ?base = "[(''identity.id'', AStr (ic_identity_id S)), (''tool.name'', AStr (cl_tool c)),
     (''tool.server_id'', AStr (ic_server_id S))]"
  let ?own = "case identity_of en (ic_identity_id S) of None \<Rightarrow> []
     | Some x \<Rightarrow> map (\<lambda>(k, v). (''identity.'' @ k, v)) (id_attributes x)"
  let ?hour = "[(''context.hour'', AInt (utc_hour t))]"
  have "''context.hour'' \<notin> fst ` set ?own" by (auto split: option.splits)
  then have own: "map_of (rev ?own) ''context.hour'' = None" by (simp add: map_of_eq_None_iff)
  have "map_of (dict_of (?base @ ?own @ ?hour)) = map_of (dict_of (?base @ ?hour @ ?own))"
    using own by (auto simp: map_of_dict_of fun_eq_iff map_add_def split: option.split)
  moreover have "attributes_in en t S c = Inr (dict_of (?base @ ?own @ ?hour))"
    using plain_meta_get [OF assms, of TIMESTAMP_META_KEY] by (simp add: attributes_in_def hour_at_def)
  ultimately show ?thesis by (simp add: explain_attributes_def)
qed

lemma risk_terminal_announced:
  assumes "oc \<noteq> Allow" "oc \<noteq> Deny" and "ev = (if oc = HumanApprovalRequired then HUMAN_APPROVAL_REQUIRED else CHALLENGE)"
    and d: "d = explained (w_engine w) oc ev reason [''risk_engine''] (Some (k, fs))"
  shows "\<exists>out w'. risk_terminal E S c oc k fs w = (Inr out, w') \<and> announces d (cl_id c) out"
proof -
  obtain w1 where 1: "pop_pending S (cl_id c) w = (Inr (w_pending w (ic_session_id S, cl_id c)), w1)"
    and e1: "w_engine w1 = w_engine w" by (simp add: pop_pending_def)
  define capable where "capable = step_up_capable (w_engine w) (ic_identity_id S)"
  define text' where "text' = (if oc = HumanApprovalRequired
     then ''risk score '' @ dec_int k @ '' for '' @ py_repr (cl_tool c)
       @ '' requires human approval;'' @ '' retry with the approval id once granted''
     else ''risk score '' @ dec_int k @ '' for '' @ py_repr (cl_tool c) @ '' requires confirmation''
       @ (if capable then ''; retry with the challenge id and a fresh TOTP code'' else ''''))"
  define d0 where "d0 = make_decision (w_engine w) oc ev text' [''risk_engine''] (Some k) (Some fs)"
  let ?hold = "try_catch (bnd (hold E S c oc capable d0) (\<lambda>d1. ret (Some d1))) (\<lambda>e. ret None)"
  obtain r2 w2 where "hold E S c oc capable d0 w1 = (r2, w2)" by fastforce
  then obtain held where 2: "?hold w1 = (Inr held, w2)"
    and held: "held = (case r2 of Inl e \<Rightarrow> None | Inr d1 \<Rightarrow> Some d1)"
      "hold E S c oc capable d0 w1 = (r2, w2)"
    by (cases r2) (auto simp: try_catch_def bnd_def)
  have ids: "\<exists>a ap ch. d1 = d0\<lparr>d_audit_id := a, d_approval_id := ap, d_challenge_id := ch\<rparr>" if "held = Some d1" for d1
  proof -
    from held that have run: "hold E S c oc capable d0 w1 = (Inr d1, w2)" by (cases r2) auto
    have "yields (\<lambda>d1. \<exists>a ap ch. d1 = d0\<lparr>d_audit_id := a, d_approval_id := ap, d_challenge_id := ch\<rparr>)
        (hold E S c oc capable d0)"
      unfolding hold_def Let_def
      by (intro yields_bnd yields_if yields_ret) (cases d0, auto simp: d0_def make_decision_def)+
    with run show ?thesis unfolding yields_def by blast
  qed
  have "risk_terminal E S c oc k fs w = (case held of
       None \<Rightarrow> ret (rpc_error (cl_id c) AUDIT_UNAVAILABLE_CODE ''audit log unavailable; call denied'' None)
     | Some d1 \<Rightarrow> bnd (count_call S c ev) (\<lambda>_.
         ret (rpc_error (cl_id c) POLICY_DENIED_CODE text' (Some (dump_decision d1))))) w2"
    by (simp only: risk_terminal_def assms(2) if_False Let_def
        bnd_run_Inr [of "pop_pending S (cl_id c)", OF 1] the_engine_def bnd_gets_run e1
        capable_def [symmetric] text'_def [symmetric] assms(3) [symmetric] d0_def [symmetric]
        bnd_run_Inr [of ?hold, OF 2])
  then show ?thesis
  proof (cases held)
    case None
    with assms show ?thesis
      using \<open>risk_terminal E S c oc k fs w = _\<close>
      by (auto simp: announces_def explained_def make_decision_def)
  next
    case (Some d1)
    with ids obtain a ap ch where d1: "d1 = d0\<lparr>d_audit_id := a, d_approval_id := ap, d_challenge_id := ch\<rparr>" by blast
    have "announces d (cl_id c) (rpc_error (cl_id c) POLICY_DENIED_CODE text' (Some (dump_decision d1)))"
      unfolding announces_def
      by (intro disjI2 exI [of _ d1])
        (use assms in \<open>auto simp: d1 d0_def same_verdict_def explained_def make_decision_def split: if_splits\<close>)
    with Some show ?thesis
      using \<open>risk_terminal E S c oc k fs w = _\<close> by (auto simp: count_call_def emit_def bnd_def)
  qed
qed

lemma allow_stage_announced:
  assumes "d_decision d = Allow"
  shows "\<exists>v w'. allow_stage E S c a ch scored w = (Inr v, w') \<and> gone d (cl_id c) v"
proof -
  let ?attempt = "try_catch (bnd (call_event E S c ALLOW (allow_payload (w_engine w) c a ch scored)
      (map_option fst scored)) (\<lambda>seq. ret True)) (\<lambda>e. ret False)"
  obtain r w1 where "?attempt w = (r, w1)" by fastforce
  then obtain recorded where 1: "?attempt w = (Inr recorded, w1)"
    by (cases r) (auto simp: try_catch_def bnd_def split: prod.splits sum.splits)
  have "allow_stage E S c a ch scored w = (if \<not> recorded then
       stop (bnd (pop_pending S (cl_id c)) (\<lambda>_.
         ret (rpc_error (cl_id c) AUDIT_UNAVAILABLE_CODE ''audit log unavailable; call denied'' None)))
     else bnd (count_call S c ALLOW) (\<lambda>_. ret (Go ()))) w1"
    by (simp add: allow_stage_def the_engine_def bnd_run_Inr [of ?attempt, OF 1])
  with assms show ?thesis
    by (auto simp: stop_def bnd_def pop_pending_def count_call_def emit_def gone_def announces_def)
qed

text \<open>What validating a call against a cached list comes to.\<close>

definition cached_tools :: "string \<Rightarrow> json \<Rightarrow> world \<Rightarrow> bool" where
  "cached_tools server_id tools w \<longleftrightarrow> w_faults w = [] \<and> tools \<noteq> JNull
     \<and> (\<exists>v. r_live w (schema_key server_id) = Some v \<and> rval_loads v = Inr tools)"

definition argument_problem :: "ext \<Rightarrow> json \<Rightarrow> string \<Rightarrow> json \<Rightarrow> string option res" where
  "argument_problem E tools tool_name arguments =
     res_bnd (res_bnd (py_iter tools) (\<lambda>ts. find_schema ts tool_name)) (\<lambda>schema.
       if schema = JNull then Inr (Some ''tool schema unavailable from upstream'')
       else validate E arguments schema)"

lemma cached_tools_get: "cached_tools s tools w \<Longrightarrow> cache_get s w = (Inr (Some tools), w)"
  by (auto simp: cached_tools_def cache_get_def r_get_def bnd_def)

lemma explain_validation_run:
  assumes "cached_tools s tools w"
  shows "explain_validation E en t s a scored w =
    (res_bnd (argument_problem E tools t a) (\<lambda>problem. Inr (case problem of
       Some p \<Rightarrow> explain_invalid en t scored p | None \<Rightarrow> explain_allowed en t scored)), w)"
proof -
  let ?get = "try_catch (cache_get s) (\<lambda>e. ret None)"
  from assms have g: "?get w = (Inr (Some tools), w)" by (simp add: cached_tools_get try_catch_def)
  have "explain_validation E en t s a scored w =
     bnd (lift_res (res_bnd (py_iter tools) (\<lambda>ts. find_schema ts t))) (\<lambda>input_schema.
       if input_schema = JNull
       then ret (explain_invalid en t scored ''tool schema unavailable from upstream'')
       else
         bnd (lift_res (validate E a input_schema)) (\<lambda>problem.
         ret (case problem of
                Some p \<Rightarrow> explain_invalid en t scored p
              | None \<Rightarrow> explain_allowed en t scored))) w"
    using assms by (simp add: explain_validation_def bnd_run_Inr [of ?get, OF g] cached_tools_def)
  then show ?thesis
    by (cases "res_bnd (py_iter tools) (\<lambda>ts. find_schema ts t)")
      (auto simp: argument_problem_def bnd_def res_bnd_def split: sum.split)
qed

lemma validation_stage_run:
  assumes "cached_tools (ic_server_id S) tools w"
  shows "validation_stage E S c w = (case argument_problem E tools (cl_tool c) (cl_arguments c) of
     Inl e \<Rightarrow> (Inl e, w)
   | Inr None \<Rightarrow> (Inr (Go ()), w)
   | Inr (Some p) \<Rightarrow> stop (deny_validation E S c p) w)"
proof -
  from assms have "input_schema_for E S (cl_tool c) w =
      (res_bnd (py_iter tools) (\<lambda>ts. find_schema ts (cl_tool c)), w)"
    by (simp add: input_schema_for_def bnd_run_Inr [of "cache_get (ic_server_id S)", OF cached_tools_get [OF assms]] cached_tools_def)
  then show ?thesis
    by (cases "res_bnd (py_iter tools) (\<lambda>ts. find_schema ts (cl_tool c))")
      (auto simp: validation_stage_def argument_problem_def bnd_def split: sum.split option.split)
qed

lemma validated_announced:
  assumes cached: "cached_tools (ic_server_id S) tools w" "cached_tools (ic_server_id S) tools w0"
    and run: "explain_validation E (w_engine w) (cl_tool c) (ic_server_id S) (cl_arguments c) scored w0 = (Inr d, w1)"
  shows "\<exists>v w'. proceed (validation_stage E S c) (\<lambda>_. allow_stage E S c a ch (Some scored)) w = (Inr v, w')
    \<and> gone d (cl_id c) v"
proof -
  from run [unfolded explain_validation_run [OF cached(2)]] obtain problem where
    p: "argument_problem E tools (cl_tool c) (cl_arguments c) = Inr problem"
    and d: "d = (case problem of Some p \<Rightarrow> explain_invalid (w_engine w) (cl_tool c) scored p
       | None \<Rightarrow> explain_allowed (w_engine w) (cl_tool c) scored)"
    by (auto simp: res_bnd_Inr_iff)
  show ?thesis
  proof (cases problem)
    case None
    with validation_stage_run [OF cached(1)] p have "validation_stage E S c w = (Inr (Go ()), w)" by simp
    moreover from None d have "d_decision d = Allow"
      by (simp add: explain_allowed_def explained_def make_decision_def)
    ultimately show ?thesis using allow_stage_announced [of d E S c a ch "Some scored" w]
      by (simp add: proceed_run_Go)
  next
    case (Some q)
    with validation_stage_run [OF cached(1)] p
    have v: "validation_stage E S c w = stop (deny_validation E S c q) w" by simp
    have "\<exists>out w'. stop (deny_validation E S c q) w = (Inr (Stop out), w') \<and> announces d (cl_id c) out"
      unfolding deny_validation_def
      by (rule stop_deny_announced)
        (simp_all add: d Some explain_invalid_def explained_def make_decision_def)
    with v obtain out w' where "validation_stage E S c w = (Inr (Stop out), w')" "announces d (cl_id c) out"
      by auto
    then show ?thesis by (simp add: proceed_run_Stop gone_def)
  qed
qed

text \<open>The part of the risk stage after the score is known.\<close>

definition risk_tail ::
  "ext \<Rightarrow> interceptor \<Rightarrow> call \<Rightarrow> condition list \<Rightarrow> attrs \<Rightarrow> int \<Rightarrow> risk_factor list
     \<Rightarrow> (int \<times> risk_factor list) verdict step"
where
  "risk_tail E S c conditions attrs k fs =
     proceed (enforce_conditions E S c (filter references_risk conditions)
         (AList.update ''risk.score'' (AInt k) attrs) (Some k) (Some fs)) (\<lambda>_.
     if threshold_outcome k \<noteq> Allow then stop (risk_terminal E S c (threshold_outcome k) k fs)
     else ret (Go (k, fs)))"

lemma risk_tail_announced:
  assumes attrs: "map_of attrs = map_of attrs'"
    and run: "explain_scored E (w_engine w) (cl_tool c) (ic_server_id S) (cl_arguments c) conditions attrs' True
       (k, fs) w0 = (Inr d, w1)"
  shows "(\<exists>out w'. risk_tail E S c conditions attrs k fs w = (Inr (Stop out), w') \<and> announces d (cl_id c) out)
    \<or> risk_tail E S c conditions attrs k fs w = (Inr (Go (k, fs)), w)
      \<and> explain_validation E (w_engine w) (cl_tool c) (ic_server_id S) (cl_arguments c) (k, fs) w0 = (Inr d, w1)"
proof -
  let ?cs = "filter references_risk conditions"
  let ?up = "\<lambda>as. AList.update ''risk.score'' (AInt k) as"
  let ?enf = "enforce_conditions E S c ?cs (?up attrs) (Some k) (Some fs)"
  have cc: "check_conditions ?cs (?up attrs) = check_conditions ?cs (?up attrs')"
    by (rule check_conditions_map) (simp add: update_conv' attrs)
  show ?thesis
  proof (cases "check_conditions ?cs (?up attrs')")
    case (Some failed)
    with run have d: "d = explain_abac (w_engine w) failed (Some (k, fs))" by (simp add: explain_scored_def)
    from enforce_failed [of ?cs "?up attrs" failed E S c "Some (k, fs)" w] cc Some d show ?thesis
      by (auto simp: risk_tail_def proceed_run_Stop)
  next
    case None
    with cc have enf: "?enf w = (Inr (Go ()), w)" by (intro enforce_unfailed) simp
    then have tail: "risk_tail E S c conditions attrs k fs w =
        (if threshold_outcome k \<noteq> Allow then stop (risk_terminal E S c (threshold_outcome k) k fs)
         else ret (Go (k, fs))) w"
      by (simp add: risk_tail_def proceed_run_Go [of ?enf, OF enf])
    have held: ?thesis if "threshold_outcome k = oc" "oc \<noteq> Allow" "oc \<noteq> Deny"
      "ev = (if oc = HumanApprovalRequired then HUMAN_APPROVAL_REQUIRED else CHALLENGE)"
      "d = explained (w_engine w) oc ev reason [''risk_engine''] (Some (k, fs))" for oc ev reason
      using risk_terminal_announced [OF that(2-5), of E S c] tail that(1,2) by (auto simp: stop_def bnd_def)
    show ?thesis
    proof (cases "threshold_outcome k")
      case Allow
      with tail run None show ?thesis by (simp add: explain_scored_def)
    next
      case Deny
      with run None have d: "d = explained (w_engine w) Deny DENY_RISK
          (''risk score '' @ dec_int k @ '' for '' @ py_repr (cl_tool c) @ '' exceeds the deny threshold (90)'')
          [''risk_engine''] (Some (k, fs))"
        by (simp add: explain_scored_def)
      have "\<exists>out w'. stop (risk_terminal E S c Deny k fs) w = (Inr (Stop out), w') \<and> announces d (cl_id c) out"
        unfolding risk_terminal_def if_P [OF refl]
        by (rule stop_deny_announced) (simp_all add: d explained_def make_decision_def)
      with tail Deny show ?thesis by simp
    next
      case Challenge
      with run None have "d = explained (w_engine w) Challenge CHALLENGE
          (''risk score '' @ dec_int k @ '' for '' @ py_repr (cl_tool c) @ '' requires confirmation'')
          [''risk_engine''] (Some (k, fs))"
        by (simp add: explain_scored_def)
      with Challenge show ?thesis by (intro held) simp_all
    next
      case HumanApprovalRequired
      with run None have "d = explained (w_engine w) HumanApprovalRequired HUMAN_APPROVAL_REQUIRED
          (''risk score '' @ dec_int k @ '' for '' @ py_repr (cl_tool c) @ '' requires human approval'')
          [''risk_engine''] (Some (k, fs))"
        by (simp add: explain_scored_def)
      with HumanApprovalRequired show ?thesis by (intro held) simp_all
    qed
  qed
qed

lemma risk_stage_tail:
  assumes "score E (ic_identity_id S) (ic_server_id S) (cl_tool c) (cl_arguments c)
      (p_risk (en_policy (w_engine w))) False w = (r, w1)"
    and "(k, fs) = (case r of Inl e \<Rightarrow> RISK_UNAVAILABLE | Inr kf \<Rightarrow> kf)"
  shows "risk_stage E S c conditions attrs False w
    = risk_tail E S c conditions attrs k fs (w1\<lparr>w_metrics := w_metrics w1 @ [RiskScore k]\<rparr>)"
proof -
  let ?score = "try_catch (score E (ic_identity_id S) (ic_server_id S) (cl_tool c) (cl_arguments c)
      (p_risk (en_policy (w_engine w))) False) (\<lambda>e. ret RISK_UNAVAILABLE)"
  from assms have s: "?score w = (Inr (k, fs), w1)" by (cases r) (simp_all add: try_catch_def)
  show ?thesis
    by (simp add: risk_stage_def the_engine_def bnd_run_Inr [of ?score, OF s] emit_def risk_tail_def Let_def)
qed

lemma schema_key_freq: "schema_key s \<noteq> freq_key i t u"
  by (simp add: schema_key_def freq_key_def)

lemma cached_tools_scored:
  assumes "cached_tools s tools w"
  shows "cached_tools s tools (w\<lparr>w_redis := (w_redis w)(freq_key i t u := e), w_metrics := ms\<rparr>)"
proof -
  have "r_live (w\<lparr>w_redis := (w_redis w)(freq_key i t u := e), w_metrics := ms\<rparr>) (schema_key s)
      = r_live w (schema_key s)"
    by (simp add: r_live_def schema_key_freq split: option.split)
  with assms show ?thesis by (simp add: cached_tools_def)
qed

lemma granted_announced:
  assumes cached: "cached_tools (ic_server_id S) tools w" and plain: "plain_meta (cl_meta c)"
    and counter: "r_live w (freq_key (ic_identity_id S) (ic_server_id S) (cl_tool c)) = None
      \<or> (\<exists>n. r_live w (freq_key (ic_identity_id S) (ic_server_id S) (cl_tool c)) = Some (RNum n))"
    and grant: "matching_grant (w_engine w) (Some (ic_identity_id S)) (ic_server_id S) (cl_tool c) = Some g"
    and run: "explain_call E (w_engine w) (ic_identity_id S) (cl_tool c) (ic_server_id S) (cl_arguments c)
      (JObj []) True w = (Inr d, w1)"
  shows "\<exists>v w'. granted_call E S c identity g w = (Inr v, w') \<and> gone d (cl_id c) v"
proof -
  let ?en = "w_engine w" and ?i = "ic_identity_id S" and ?s = "ic_server_id S" and ?t = "cl_tool c"
  let ?cs = "g_compiled g" and ?hour = "utc_hour (w_clock w)"
  let ?attrs' = "explain_attributes ?en ?i ?t ?s ?hour"
  let ?early = "filter (\<lambda>x. \<not> references_risk x) ?cs"
  have calm: "w_faults w = []" using cached by (simp add: cached_tools_def)
  define attrs where "attrs = (if ?cs \<noteq> [] then (case attributes_in ?en (w_clock w) S c of
     Inr a \<Rightarrow> a | Inl e \<Rightarrow> []) else ?attrs')"
  define live where "live = (if ?cs \<noteq> [] then attrs else [])"
  from attributes_agree [OF plain, of ?en "w_clock w" S] have
    at: "?cs \<noteq> [] \<Longrightarrow> attributes_in ?en (w_clock w) S c = Inr live" and map: "map_of attrs = map_of ?attrs'"
    by (auto simp: attrs_def live_def)
  have a: "(if ?cs \<noteq> [] then abac_attributes S c else ret []) w = (Inr live, w)"
    using at by (auto simp: abac_attributes_run live_def)
  have cc: "check_conditions (filter p ?cs) live = check_conditions (filter p ?cs) ?attrs'" for p
    using check_conditions_map [OF map, of "filter p ?cs"] by (cases ?cs) (simp_all add: live_def)
  let ?rest = "proceed (drift_stage E S c) (\<lambda>_. proceed (step_up_stage E S c identity) (\<lambda>challenge_id.
      bnd (lift_res (meta_text E (cl_meta c) APPROVAL_META_KEY)) (\<lambda>approval_id.
      proceed (decide_stage E S c approval_id ?cs live (challenge_id \<noteq> None)) (\<lambda>scored.
      proceed (validation_stage E S c) (\<lambda>_.
      allow_stage E S c approval_id challenge_id scored)))))"
  let ?enf = "enforce_conditions E S c ?early live None None"
  have granted: "granted_call E S c identity g w = proceed ?enf (\<lambda>_. ?rest) w"
    unfolding granted_call_def Let_def by (rule bnd_run_Inr [where m = "if ?cs \<noteq> [] then abac_attributes S c else ret []", OF a])
  note ex = run [unfolded explain_call_def grant option.case Let_def
      bnd_run_Inr [of "explain_hour (JObj [])", OF explain_hour_now]]
  show ?thesis
  proof (cases "check_conditions ?early ?attrs'")
    case (Some failed)
    with ex have "d = explain_abac ?en failed None" by auto
    with enforce_failed [of ?early live failed E S c None w] cc Some obtain out w' where
      "?enf w = (Inr (Stop out), w')" "announces d (cl_id c) out" by auto
    with granted show ?thesis by (simp add: proceed_run_Stop gone_def)
  next
    case None
    with cc have enf: "?enf w = (Inr (Go ()), w)" by (intro enforce_unfailed) simp
    let ?blocked = "try_catch (is_blocked ?s ?t) (\<lambda>e. ret True)"
    obtain blocked where b: "?blocked w = (Inr blocked, w)"
      using calm by (cases "list_all text_ok [?s, ?t]")
        (auto simp: is_blocked_def baseline_of_def db_read_def bnd_def try_catch_def)
    show ?thesis
    proof (cases blocked)
      case True
      with ex None b have d: "d = explained ?en Deny DENY_DRIFT
          (py_repr ?t @ '' is blocked: schema drifted from its approved baseline''
             @ '' and is pending re-approval'') [''drift_detector''] None"
        by (auto simp: bnd_run_Inr [of ?blocked, OF b])
      have "\<exists>out w'. stop (deny E S c DENY_DRIFT (py_repr ?t @ '' is blocked: schema drifted from its approved baseline''
            @ '' and is pending re-approval'') [''drift_detector''] None None) w = (Inr (Stop out), w')
          \<and> announces d (cl_id c) out"
        by (rule stop_deny_announced) (simp_all add: d explained_def make_decision_def)
      with b True obtain out w' where "drift_stage E S c w = (Inr (Stop out), w')" "announces d (cl_id c) out"
        by (auto simp: drift_stage_def bnd_run_Inr [of ?blocked, OF b])
      with granted enf show ?thesis
        by (simp add: proceed_run_Go [of ?enf, OF enf] proceed_run_Stop gone_def)
    next
      case False
      obtain r e where dry: "score E ?i ?s ?t (cl_arguments c) (p_risk (en_policy ?en)) True w = (r, w)"
        and wet: "score E ?i ?s ?t (cl_arguments c) (p_risk (en_policy ?en)) False w
          = (r, w\<lparr>w_redis := (w_redis w)(freq_key ?i ?s ?t := e)\<rparr>)"
        using score_calm [OF calm counter] by blast
      obtain k fs where k: "(k, fs) = (case r of Inl e \<Rightarrow> RISK_UNAVAILABLE | Inr kf \<Rightarrow> kf)" by (metis surj_pair)
      let ?w2 = "w\<lparr>w_redis := (w_redis w)(freq_key ?i ?s ?t := e), w_metrics := w_metrics w @ [RiskScore k]\<rparr>"
      let ?dry = "try_catch (score E ?i ?s ?t (cl_arguments c) (p_risk (en_policy ?en)) True) (\<lambda>e. ret RISK_UNAVAILABLE)"
      from dry k have t: "?dry w = (Inr (k, fs), w)" by (cases r) (simp_all add: try_catch_def)
      from ex None b False have sc: "explain_scored E ?en ?t ?s (cl_arguments c) ?cs ?attrs' True (k, fs) w = (Inr d, w1)"
        by (simp add: bnd_run_Inr [of ?blocked, OF b] bnd_run_Inr [of ?dry, OF t])
      have risk: "risk_stage E S c ?cs live False w = risk_tail E S c ?cs live k fs ?w2"
        using risk_stage_tail [OF wet k, of ?cs live] by simp
      have drift: "drift_stage E S c w = (Inr (Go ()), w)"
        using b False by (simp add: drift_stage_def bnd_run_Inr [of ?blocked, OF b])
      have step: "step_up_stage E S c identity w = (Inr (Go None), w)"
        using plain_meta_get [OF plain, of CHALLENGE_ID_META_KEY] by (simp add: step_up_stage_def bnd_def)
      have appr: "meta_text E (cl_meta c) APPROVAL_META_KEY = Inr None"
        using plain_meta_get [OF plain, of APPROVAL_META_KEY] by (simp add: meta_text_def)
      have whole: "granted_call E S c identity g w =
          proceed (proceed (risk_stage E S c ?cs live False) (\<lambda>r. ret (Go (Some r)))) (\<lambda>scored.
            proceed (validation_stage E S c) (\<lambda>_. allow_stage E S c None None scored)) w"
        unfolding granted proceed_run_Go [of ?enf, OF enf] proceed_run_Go [of "drift_stage E S c", OF drift]
          proceed_run_Go [of "step_up_stage E S c identity", OF step]
        by (simp add: appr bnd_def decide_stage_def)
      have tail: "(\<exists>out w'. risk_tail E S c ?cs live k fs ?w2 = (Inr (Stop out), w') \<and> announces d (cl_id c) out)
        \<or> risk_tail E S c ?cs live k fs ?w2 = (Inr (Go (k, fs)), ?w2)
          \<and> explain_validation E ?en ?t ?s (cl_arguments c) (k, fs) w = (Inr d, w1)"
      proof (cases "?cs = []")
        case True
        have "check_conditions [] as = None" for as by simp
        with risk_tail_announced [of ?attrs' ?attrs' E ?w2 c S "[]" k fs w d w1] sc True show ?thesis
          by (simp add: risk_tail_def)
      next
        case False
        with map have "map_of live = map_of ?attrs'" by (simp add: live_def)
        from risk_tail_announced [OF this, of E ?w2 c S ?cs k fs w d w1] sc show ?thesis by simp
      qed
      then show ?thesis
      proof
        assume "\<exists>out w'. risk_tail E S c ?cs live k fs ?w2 = (Inr (Stop out), w') \<and> announces d (cl_id c) out"
        then obtain out w' where "risk_stage E S c ?cs live False w = (Inr (Stop out), w')" "announces d (cl_id c) out"
          using risk by auto
        with whole show ?thesis by (simp add: proceed_run_Stop gone_def)
      next
        assume go: "risk_tail E S c ?cs live k fs ?w2 = (Inr (Go (k, fs)), ?w2)
          \<and> explain_validation E ?en ?t ?s (cl_arguments c) (k, fs) w = (Inr d, w1)"
        with risk have r: "risk_stage E S c ?cs live False w = (Inr (Go (k, fs)), ?w2)" by simp
        have "proceed (risk_stage E S c ?cs live False) (\<lambda>r. ret (Go (Some r))) w = (Inr (Go (Some (k, fs))), ?w2)"
          by (simp add: proceed_run_Go [of "risk_stage E S c ?cs live False", OF r])
        note p = proceed_run_Go [of "proceed (risk_stage E S c ?cs live False) (\<lambda>r. ret (Go (Some r)))", OF this]
        from validated_announced [OF cached_tools_scored [OF cached] cached, where E = E and c = c and scored = "(k, fs)" and a = None and ch = None] go
        show ?thesis unfolding whole p by simp
      qed
    qed
  qed
qed


text \<open>The tool \<open>write\<close> of the demonstration server, its list cached; \<open>ops\<close> calls it.\<close>

definition demo_caching :: world where
  "demo_caching = r_put (schema_key ''srv'') (Some (RDoc (JList [demo_tool ''write'']), None)) demo_world"

definition demo_ops_session :: interceptor where
  "demo_ops_session = \<lparr>ic_identity_id = ''ops'', ic_server_id = ''srv'', ic_session_id = ''s1''\<rparr>"

definition demo_write_params :: "(string \<times> json) list option" where
  "demo_write_params = Some [(''name'', JStr ''write''), (''arguments'', JObj [(''path'', JStr ''docs'')])]"

definition demo_explained :: "decision step" where
  "demo_explained = explain_call demo demo_engine ''ops'' ''write'' ''srv'' (JObj [(''path'', JStr ''docs'')]) (JObj []) True"


end
