(* ===== verification/PolicyVersions.thy ===== *)
theory PolicyVersions
  imports Approvals
begin

text \<open>
  Loading and activating policies (\<open>policy_versions.py\<close>, the loader and \<open>PolicyStore\<close> of
  \<open>policy_engine.py\<close>, the SIGHUP handler and the start-up part of \<open>main.py\<close>). The snapshot
  directory is \<open>w_snapshots\<close> (path to bytes), the table \<open>w_versions\<close>, the policy file
  \<open>w_policy_bytes\<close>, the live engine \<open>w_engine\<close>. A file operation takes an entry of the fault
  schedule like the stores do and fails before it has an effect. The lemmas: recorded hashes
  never change, new versions exceed all recorded ones, every recorded version has a snapshot
  with its hash, and a rejected activation leaves the live engine as it was.
\<close>

section \<open>Files and the versions table\<close>

definition OSError :: exc where
  "OSError = OtherError ''OSError''"

definition snapshot_path :: "ext \<Rightarrow> int \<Rightarrow> string" where
  "snapshot_path E version =
     cf_policy_revisions_dir (x_cfg E) @ ''/v'' @ dec_int version @ ''.yaml''"

definition file_exists :: "string \<Rightarrow> bool step" where
  "file_exists path = gets (\<lambda>w. map_of (w_snapshots w) path \<noteq> None)"

definition read_file :: "string \<Rightarrow> string step" where
  "read_file path = faulty OSError (\<lambda>w. case map_of (w_snapshots w) path of
     None \<Rightarrow> (Inl OSError, w) | Some bytes \<Rightarrow> (Inr bytes, w))"

definition write_file :: "string \<Rightarrow> string \<Rightarrow> unit step" where
  "write_file path bytes =
     faulty OSError (modify (\<lambda>w. w\<lparr>w_snapshots := AList.update path bytes (w_snapshots w)\<rparr>))"

text \<open>The version column is a 32-bit integer.\<close>

definition int4_ok :: "int \<Rightarrow> bool" where
  "int4_ok n = (-2147483648 \<le> n \<and> n \<le> 2147483647)"

definition find_version :: "int \<Rightarrow> version_row list \<Rightarrow> version_row option" where
  "find_version version rows = List.find (\<lambda>r. pv_version r = version) rows"

definition get_version :: "int \<Rightarrow> version_row option step" where
  "get_version version = faulty DatabaseError (\<lambda>w.
     if int4_ok version then (Inr (find_version version (w_versions w)), w)
     else (Inl DatabaseError, w))"

fun greatest :: "int list \<Rightarrow> int option" where
  "greatest [] = None"
| "greatest (n # ns) = (case greatest ns of None \<Rightarrow> Some n | Some m \<Rightarrow> Some (max n m))"

definition max_version :: "int option step" where
  "max_version = db_read [] (\<lambda>w. greatest (map pv_version (w_versions w)))"

section \<open>Activation records\<close>

definition write_snapshot :: "ext \<Rightarrow> engine \<Rightarrow> unit step" where
  "write_snapshot E en =
     (let path = snapshot_path E (en_version en) in
      bnd (file_exists path) (\<lambda>exists.
      if exists then
        bnd (read_file path) (\<lambda>bytes.
        if bytes \<noteq> en_raw en
        then raise (ActivationError (''revision snapshot '' @ path @ '' exists with different content''))
        else ret ())
      else write_file path (en_raw en)))"

definition add_version :: "engine \<Rightarrow> string \<Rightarrow> unit step" where
  "add_version en activated_by =
     bnd now (\<lambda>t.
     db_commit (int4_ok (en_version en) \<and> text_ok (en_content_hash en) \<and> text_ok activated_by)
       (\<lambda>w. w\<lparr>w_versions := w_versions w @
          [\<lparr>pv_version = en_version en, pv_content_hash = en_content_hash en, pv_activated_at = t,
            pv_activated_by = activated_by\<rparr>]\<rparr>))"

definition record_activation :: "ext \<Rightarrow> engine \<Rightarrow> string \<Rightarrow> bool step" where
  "record_activation E en activated_by =
     bnd (get_version (en_version en)) (\<lambda>existing.
     case existing of
       Some row \<Rightarrow>
         if pv_content_hash row = en_content_hash en then ret False
         else raise (ActivationError (''policy version '' @ dec_int (en_version en)
                @ '' is already recorded with different content''))
     | None \<Rightarrow>
         bnd max_version (\<lambda>highest.
         if highest \<noteq> None \<and> en_version en \<le> the highest
         then raise (ActivationError (''policy version '' @ dec_int (en_version en)
                @ '' is not greater than the highest recorded version '' @ dec_int (the highest)))
         else
           bnd (write_snapshot E en) (\<lambda>_.
           bnd (add_version en activated_by) (\<lambda>_.
           ret True))))"

fun set_version :: "int \<Rightarrow> rat \<Rightarrow> string \<Rightarrow> version_row list \<Rightarrow> version_row list" where
  "set_version version t activated_by [] = []"
| "set_version version t activated_by (r # rows) =
     (if pv_version r = version then r\<lparr>pv_activated_at := t, pv_activated_by := activated_by\<rparr> # rows
      else r # set_version version t activated_by rows)"

definition record_rollback :: "engine \<Rightarrow> string \<Rightarrow> unit step" where
  "record_rollback en activated_by =
     bnd (get_version (en_version en)) (\<lambda>found.
     case found of
       None \<Rightarrow> raise (LookupError (''policy version '' @ dec_int (en_version en) @ '' was never recorded''))
     | Some row \<Rightarrow>
         if pv_content_hash row \<noteq> en_content_hash en
         then raise (ActivationError (''snapshot for version '' @ dec_int (en_version en)
                @ '' does not match its recorded content_hash''))
         else
           bnd now (\<lambda>t.
           db_commit (text_ok activated_by)
             (\<lambda>w. w\<lparr>w_versions := set_version (en_version en) t activated_by (w_versions w)\<rparr>)))"

section \<open>The loader and the store\<close>

definition load_bytes :: "ext \<Rightarrow> string \<Rightarrow> engine res" where
  "load_bytes E raw =
     res_bnd (x_read_policy E raw) (\<lambda>p.
     res_bnd (validate_policy (x_py_parse E) (x_environ E) p) (\<lambda>q.
     Inr (make_engine q (x_sha256 E raw) raw)))"

definition read_policy_file :: "string step" where
  "read_policy_file = faulty OSError (\<lambda>w. case w_policy_bytes w of
     None \<Rightarrow> (Inl OSError, w) | Some raw \<Rightarrow> (Inr raw, w))"

definition load_policy :: "ext \<Rightarrow> engine step" where
  "load_policy E = bnd read_policy_file (\<lambda>raw. lift_res (load_bytes E raw))"

definition load_candidate :: "ext \<Rightarrow> engine option step" where
  "load_candidate E = try_catch (bnd (load_policy E) (\<lambda>en. ret (Some en))) (\<lambda>e. ret None)"

definition swap :: "engine \<Rightarrow> unit step" where
  "swap en = modify (\<lambda>w. w\<lparr>w_engine := en\<rparr>)"

definition store_reload :: "ext \<Rightarrow> bool step" where
  "store_reload E =
     bnd (load_candidate E) (\<lambda>candidate.
     case candidate of
       None \<Rightarrow> ret False
     | Some en \<Rightarrow> bnd (swap en) (\<lambda>_. ret True))"

section \<open>SIGHUP and start-up\<close>

definition activation_payload :: "json \<Rightarrow> engine \<Rightarrow> (string \<times> json) list" where
  "activation_payload old_version en =
     [(''old_version'', old_version), (''new_version'', JInt (en_version en)),
      (''content_hash'', JStr (en_content_hash en))]"

definition reload_policy :: "ext \<Rightarrow> unit step" where
  "reload_policy E =
     bnd the_engine (\<lambda>old.
     bnd (load_candidate E) (\<lambda>candidate.
     case candidate of
       None \<Rightarrow> ret ()
     | Some en \<Rightarrow>
         bnd (try_catch (bnd (record_activation E en ''operator'') (\<lambda>_. ret True)) (\<lambda>e. ret False))
           (\<lambda>recorded.
         if \<not> recorded then ret ()
         else
           bnd (swap en) (\<lambda>_.
           bnd the_engine (\<lambda>live.
           try_catch
             (bnd (audit_write E POLICY_ACTIVATED ''operator'' None None
                     (activation_payload (JInt (en_version old)) live) None) (\<lambda>_. ret ()))
             (\<lambda>e. ret ()))))))"

definition record_startup_activation :: "ext \<Rightarrow> engine \<Rightarrow> unit step" where
  "record_startup_activation E en =
     try_catch (bnd (record_activation E en ''startup'') (\<lambda>_. ret ())) (\<lambda>e.
       case e of
         ActivationError s \<Rightarrow> raise (ActivationError (s @ '' '' @ EM_DASH
           @ '' leftover dev/demo state? reset with:'' @ '' python scripts/reset_dev_state.py (in docker:''
           @ '' docker compose run --rm gateway python scripts/reset_dev_state.py --yes)''))
       | _ \<Rightarrow> raise e)"

text \<open>
  The start-up of the gateway up to serving traffic: the policy, the signing key (whose file may
  be missing), the activation record, its audit row, the approvals that went stale meanwhile.
\<close>

definition startup :: "ext \<Rightarrow> unit step" where
  "startup E =
     bnd (load_policy E) (\<lambda>en.
     bnd (swap en) (\<lambda>_.
     bnd (faulty OSError (ret ())) (\<lambda>_.
     bnd (record_startup_activation E en) (\<lambda>_.
     bnd (audit_write E POLICY_ACTIVATED ''startup'' None None (activation_payload JNull en) None) (\<lambda>_.
     expire_stale E)))))"

section \<open>What activations do to the table and the snapshots\<close>

definition history :: "world \<Rightarrow> (int \<times> string) list" where
  "history w = map (\<lambda>r. (pv_version r, pv_content_hash r)) (w_versions w)"

text \<open>New entries come in increasing order, above all the recorded ones.\<close>

definition forward :: "(int \<times> string) list \<Rightarrow> (int \<times> string) list \<Rightarrow> bool" where
  "forward old new \<longleftrightarrow> sorted_wrt (<) (map fst new) \<and> (\<forall>a \<in> set old. \<forall>b \<in> set new. fst a < fst b)"

definition versions_evolve :: "world \<Rightarrow> world \<Rightarrow> bool" where
  "versions_evolve w w' \<longleftrightarrow>
     (\<exists>new. history w' = history w @ new \<and> forward (history w) new)
     \<and> map_of (w_snapshots w) \<subseteq>\<^sub>m map_of (w_snapshots w')"

text \<open>Every recorded version has a snapshot with the recorded hash.\<close>

definition snapshots_match :: "ext \<Rightarrow> world \<Rightarrow> bool" where
  "snapshots_match E w \<longleftrightarrow> (\<forall>(v, h) \<in> set (history w).
     \<exists>bytes. map_of (w_snapshots w) (snapshot_path E v) = Some bytes \<and> x_sha256 E bytes = h)"

lemma forward_append:
  "forward h new1 \<Longrightarrow> forward (h @ new1) new2 \<Longrightarrow> forward h (new1 @ new2)"
  by (auto simp: forward_def sorted_wrt_append)

lemma versions_evolve_refl: "history w' = history w \<Longrightarrow> w_snapshots w' = w_snapshots w \<Longrightarrow> versions_evolve w w'"
  by (simp add: versions_evolve_def forward_def)

lemma versions_evolve_trans: "versions_evolve u v \<Longrightarrow> versions_evolve v w \<Longrightarrow> versions_evolve u w"
  unfolding versions_evolve_def by (metis append.assoc forward_append map_le_trans)

text \<open>
  The table and the snapshots evolve and stay matched, whatever else changes. An approval may
  change and a row may be appended to the log.
\<close>

definition recorded_safely :: "ext \<Rightarrow> world \<Rightarrow> world \<Rightarrow> bool" where
  "recorded_safely E w w' \<longleftrightarrow>
     versions_evolve w w' \<and> keeps (snapshots_match E) w w'"

lemma recorded_safely_same:
  "w_versions w' = w_versions w \<Longrightarrow> w_snapshots w' = w_snapshots w \<Longrightarrow> recorded_safely E w w'"
  by (simp add: recorded_safely_def keeps_def snapshots_match_def history_def versions_evolve_refl)

lemma recorded_safely_trans:
  "recorded_safely E u v \<Longrightarrow> recorded_safely E v w \<Longrightarrow> recorded_safely E u w"
  unfolding recorded_safely_def keeps_def by (blast intro: versions_evolve_trans)

interpretation recorded_safely: append_ok "recorded_safely E" for E
  by unfold_locales (auto intro: recorded_safely_same recorded_safely_trans)

interpretation same_history: append_ok "same history"
  by unfold_locales (auto simp: same_def history_def)

lemma quiet_history: "quiet w w' \<Longrightarrow> history w' = history w"
  by (simp add: history_def quiet_fields)

lemma quiet_safely: "quiet w w' \<Longrightarrow> recorded_safely E w w'"
  by (simp add: recorded_safely_same quiet_fields)

lemma find_version_Some: "find_version v rows = Some r \<Longrightarrow> r \<in> set rows \<and> pv_version r = v"
  by (auto simp: find_version_def find_Some_iff in_set_conv_nth)

lemma find_version_None: "find_version v rows = None \<longleftrightarrow> v \<notin> pv_version ` set rows"
  by (auto simp: find_version_def find_None_iff)

lemma greatest_None [simp]: "greatest ns = None \<longleftrightarrow> ns = []"
  by (cases ns) (auto split: option.split)

lemma greatest_ge: "greatest ns = Some m \<Longrightarrow> n \<in> set ns \<Longrightarrow> n \<le> m"
proof (induction ns arbitrary: m)
  case (Cons k ns)
  then show ?case by (cases ns) (auto split: option.splits)
qed simp

lemma digit_not_minus: "digit d \<noteq> CHR ''-''"
  by (simp add: digit_def)

lemma dec_pos_no_minus: "CHR ''-'' \<notin> set (dec_pos n)"
proof (induction n rule: dec_pos.induct)
  case (1 n)
  then show ?case by (subst dec_pos.simps) (auto simp: digit_not_minus digit_not_minus [symmetric])
qed

lemma dec_pos_not_minus [simp]: "dec_pos n \<noteq> CHR ''-'' # s" "CHR ''-'' # s \<noteq> dec_pos n"
  using dec_pos_no_minus [of n] by (metis list.set_intros(1))+

lemma dec_int_inj: "dec_int m = dec_int n \<Longrightarrow> m = n"
  using dec_pos_inj [of m n] dec_pos_inj [of "- m" "- n"]
  by (cases "m < 0"; cases "n < 0") (simp_all add: dec_int_def)

lemma snapshot_path_inj: "snapshot_path E m = snapshot_path E n \<Longrightarrow> m = n"
  by (auto simp: snapshot_path_def dest: dec_int_inj)

lemma get_version_Inr:
  "get_version v w = (Inr x, w') \<Longrightarrow> quiet w w' \<and> x = find_version v (w_versions w)"
  unfolding get_version_def by (drule faulty_Inr) (auto simp: quiet_fields split: if_splits)

lemma get_version_Inl: "get_version v w = (Inl e, w') \<Longrightarrow> quiet w w'"
  unfolding get_version_def by (drule faulty_Inl) (auto split: if_splits)

lemma max_version_Inr:
  "max_version w = (Inr x, w') \<Longrightarrow> quiet w w' \<and> x = greatest (map pv_version (w_versions w))"
  unfolding max_version_def by (auto simp: quiet_fields dest!: db_read_Inr)

text \<open>A written snapshot only adds its own path, and the other state is left alone.\<close>

lemma write_snapshot_run:
  assumes "write_snapshot E en w = (r, w')"
  shows "w_versions w' = w_versions w \<and> map_of (w_snapshots w) \<subseteq>\<^sub>m map_of (w_snapshots w')
    \<and> (r = Inr () \<longrightarrow> map_of (w_snapshots w') (snapshot_path E (en_version en)) = Some (en_raw en))"
proof (cases "map_of (w_snapshots w) (snapshot_path E (en_version en))")
  case None
  with assms have "write_file (snapshot_path E (en_version en)) (en_raw en) w = (r, w')"
    by (simp add: write_snapshot_def Let_def file_exists_def)
  then show ?thesis
    using None by (cases "w_faults w") (auto simp: write_file_def faulty_def update_conv' map_le_def split: if_splits)
next
  case (Some bytes)
  with assms show ?thesis
    by (cases "w_faults w")
      (auto simp: write_snapshot_def Let_def file_exists_def read_file_def faulty_def bnd_def split: if_splits)
qed

lemma add_version_run:
  assumes "add_version en by w = (r, w')"
  shows "w_snapshots w' = w_snapshots w
    \<and> history w' = history w @ (if r = Inr () then [(en_version en, en_content_hash en)] else [])"
  using assms
  by (cases "w_faults w")
    (auto simp: add_version_def now_def bnd_def db_commit_def faulty_def history_def split: if_splits)

lemma snapshots_match_mono:
  assumes "snapshots_match E w" and "history w' = history w"
    and "map_of (w_snapshots w) \<subseteq>\<^sub>m map_of (w_snapshots w')"
  shows "snapshots_match E w'"
proof -
  have "\<exists>bytes. map_of (w_snapshots w') (snapshot_path E v) = Some bytes \<and> x_sha256 E bytes = h"
    if "(v, h) \<in> set (history w')" for v h
  proof -
    from that assms(1,2) obtain bytes where
      "map_of (w_snapshots w) (snapshot_path E v) = Some bytes" "x_sha256 E bytes = h"
      unfolding snapshots_match_def by auto
    with assms(3) show ?thesis by (auto simp: map_le_def dom_def)
  qed
  then show ?thesis unfolding snapshots_match_def by blast
qed

lemma snapshots_match_add:
  assumes "snapshots_match E w" and "history w' = history w @ [(v, x_sha256 E raw)]"
    and "map_of (w_snapshots w) \<subseteq>\<^sub>m map_of (w_snapshots w')"
    and "map_of (w_snapshots w') (snapshot_path E v) = Some raw"
  shows "snapshots_match E w'"
proof -
  have "snapshots_match E (w'\<lparr>w_versions := w_versions w\<rparr>)"
    by (rule snapshots_match_mono [OF assms(1)]) (use assms(3) in \<open>simp_all add: history_def\<close>)
  with assms(2,4) show ?thesis by (auto simp: snapshots_match_def history_def)
qed

definition engine_hash_ok :: "ext \<Rightarrow> engine \<Rightarrow> bool" where
  "engine_hash_ok E en \<longleftrightarrow> en_content_hash en = x_sha256 E (en_raw en)"

lemma load_bytes_hash: "load_bytes E raw = Inr en \<Longrightarrow> en_raw en = raw \<and> engine_hash_ok E en"
  by (auto simp: load_bytes_def res_bnd_Inr_iff make_engine_def engine_hash_ok_def)

context step_relation
begin

text \<open>A continuation need only stay within the relation for the values its argument can return.\<close>

lemma stays_bnd_run:
  assumes "stays R m" and "\<And>w x w'. m w = (Inr x, w') \<Longrightarrow> stays R (f x)"
  shows "stays R (bnd m f)"
proof (rule staysI)
  fix w r w'
  assume run: "bnd m f w = (r, w')"
  obtain r1 w1 where m: "m w = (r1, w1)" by (cases "m w")
  with assms(1) have 1: "R w w1" by (rule staysD)
  show "R w w'"
  proof (cases r1)
    case (Inl e)
    with run m 1 show ?thesis by (simp add: bnd_def)
  next
    case (Inr x)
    with run m have "f x w1 = (r, w')" by (simp add: bnd_def)
    with assms(2) m Inr have "R w1 w'" by (blast intro: staysD)
    with 1 show ?thesis by (rule R_trans)
  qed
qed

end

context aux_blind
begin

lemma stays_get_version: "stays R (get_version v)"
  unfolding get_version_def by (rule stays_faulty) (simp add: stays_def R_refl)

lemma stays_max_version: "stays R max_version"
  unfolding max_version_def by (rule stays_db_read)

lemma stays_read_policy_file: "stays R read_policy_file"
  unfolding read_policy_file_def
  by (rule stays_faulty) (simp add: stays_def R_refl split: option.split)

lemma stays_load_policy: "stays R (load_policy E)"
  unfolding load_policy_def by (intro blind_intros stays_read_policy_file)

lemma stays_load_candidate: "stays R (load_candidate E)"
  unfolding load_candidate_def by (intro blind_intros stays_load_policy)

end

lemma load_policy_Inr:
  "load_policy E w = (Inr en, w') \<Longrightarrow>
     quiet w w' \<and> (\<exists>raw. w_policy_bytes w = Some raw \<and> load_bytes E raw = Inr en)"
  unfolding load_policy_def read_policy_file_def
  by (auto simp: bnd_Inr_iff quiet_fields dest!: faulty_Inr split: option.splits)

lemma load_candidate_Some:
  assumes "load_candidate E w = (Inr (Some en), w')"
  shows "quiet w w' \<and> (\<exists>raw. w_policy_bytes w = Some raw \<and> load_bytes E raw = Inr en)"
  using assms unfolding load_candidate_def by (auto simp: try_catch_Inr_iff bnd_Inr_iff dest!: load_policy_Inr)

lemma load_candidate_hash: "load_candidate E w = (Inr (Some en), w') \<Longrightarrow> engine_hash_ok E en"
  by (auto dest!: load_candidate_Some load_bytes_hash)

lemma history_fst: "fst ` set (history w) = pv_version ` set (w_versions w)"
  by (force simp: history_def)

text \<open>What a forward activation that returns has done.\<close>

definition activation_recorded :: "engine \<Rightarrow> bool \<Rightarrow> world \<Rightarrow> world \<Rightarrow> bool" where
  "activation_recorded en new w w' \<longleftrightarrow>
     (if new then history w' = history w @ [(en_version en, en_content_hash en)]
        \<and> (\<forall>u \<in> set (map fst (history w)). u < en_version en)
      else history w' = history w \<and> (en_version en, en_content_hash en) \<in> set (history w))"

lemma record_new_run:
  assumes run: "bnd (write_snapshot E en) (\<lambda>_. bnd (add_version en by) (\<lambda>_. ret True)) w = (r, w')"
    and hash: "engine_hash_ok E en" and new: "\<And>u. u \<in> set (map fst (history w)) \<Longrightarrow> u < en_version en"
  shows "recorded_safely E w w' \<and> (r = Inr x \<longrightarrow> x \<and> activation_recorded en True w w')"
proof -
  obtain r1 w1 where ws: "write_snapshot E en w = (r1, w1)" by (cases "write_snapshot E en w")
  from write_snapshot_run [OF ws] have h1: "history w1 = history w"
    and le: "map_of (w_snapshots w) \<subseteq>\<^sub>m map_of (w_snapshots w1)" by (simp_all add: history_def)
  have safe1: "recorded_safely E w w1"
    using h1 le by (auto simp: recorded_safely_def keeps_def versions_evolve_def forward_def
        intro: snapshots_match_mono)
  show ?thesis
  proof (cases r1)
    case (Inl e)
    with run ws safe1 show ?thesis by (auto simp: bnd_def)
  next
    case (Inr u)
    obtain r2 w2 where av: "add_version en by w1 = (r2, w2)" by (cases "add_version en by w1")
    with run ws Inr have r: "w' = w2" "r = (case r2 of Inl e \<Rightarrow> Inl e | Inr _ \<Rightarrow> Inr True)"
      by (auto simp: bnd_def split: sum.splits)
    from add_version_run [OF av] h1 have s2: "w_snapshots w2 = w_snapshots w1"
      and h2: "history w2 = history w @ (if r2 = Inr () then [(en_version en, en_content_hash en)] else [])"
      by simp_all
    have "recorded_safely E w w2"
    proof (cases "r2 = Inr ()")
      case True
      have "snapshots_match E w2" if "snapshots_match E w"
        using snapshots_match_add [OF that, of w2 "en_version en" "en_raw en"] True h2 s2 le hash
          write_snapshot_run [OF ws] Inr by (simp add: engine_hash_ok_def)
      with True h2 s2 le new show ?thesis
        by (auto simp: recorded_safely_def keeps_def versions_evolve_def forward_def)
    next
      case False
      with h2 s2 le show ?thesis
        by (auto simp: recorded_safely_def keeps_def versions_evolve_def forward_def
            intro: snapshots_match_mono)
    qed
    with r h2 new show ?thesis by (auto simp: activation_recorded_def split: sum.splits)
  qed
qed

lemma record_activation_run:
  assumes run: "record_activation E en by w = (r, w')" and hash: "engine_hash_ok E en"
  shows "recorded_safely E w w' \<and> (r = Inr x \<longrightarrow> activation_recorded en x w w')"
proof -
  obtain r1 w1 where gv: "get_version (en_version en) w = (r1, w1)" by (cases "get_version (en_version en) w")
  show ?thesis
  proof (cases r1)
    case (Inl e)
    with run gv show ?thesis
      by (auto simp: record_activation_def bnd_def dest!: get_version_Inl intro: quiet_safely)
  next
    case (Inr existing)
    with gv have q1: "quiet w w1" and ex: "existing = find_version (en_version en) (w_versions w)"
      by (auto dest!: get_version_Inr)
    show ?thesis
    proof (cases existing)
      case (Some row)
      with ex have "row \<in> set (w_versions w)" "pv_version row = en_version en"
        by (auto dest!: find_version_Some [OF sym])
      then have "(en_version en, pv_content_hash row) \<in> set (history w)"
        by (auto simp: history_def image_iff intro!: bexI [of _ row])
      with run gv Inr Some q1 show ?thesis
        by (auto simp: record_activation_def bnd_def activation_recorded_def history_def quiet_fields
            intro: quiet_safely split: if_splits)
    next
      case None
      with ex have fresh: "en_version en \<notin> pv_version ` set (w_versions w)"
        by (simp add: find_version_None [symmetric])
      obtain r2 w2 where mv: "max_version w1 = (r2, w2)" by (cases "max_version w1")
      show ?thesis
      proof (cases r2)
        case (Inl e)
        with run gv Inr None mv q1 show ?thesis
          by (auto simp: record_activation_def bnd_def max_version_def dest!: db_read_Inl
              intro: quiet_safely quiet_trans)
      next
        case top: (Inr highest)
        with mv q1 have q2: "quiet w w2" and hi: "highest = greatest (map pv_version (w_versions w))"
          by (auto simp: quiet_fields dest!: max_version_Inr intro: quiet_trans)
        have h2: "history w2 = history w" using q2 by (simp add: history_def quiet_fields)
        show ?thesis
        proof (cases "highest \<noteq> None \<and> en_version en \<le> the highest")
          case True
          with run gv Inr None mv top q2 show ?thesis
            by (auto simp: record_activation_def bnd_def intro: quiet_safely)
        next
          case False
          have new: "u < en_version en" if "u \<in> set (map fst (history w2))" for u
          proof -
            from that have u: "u \<in> set (map pv_version (w_versions w))"
              by (auto simp: h2 history_fst)
            then have "map pv_version (w_versions w) \<noteq> []" by force
            with hi have "highest \<noteq> None" by (simp only: greatest_None not_False_eq_True)
            then obtain m where m: "highest = Some m" by auto
            with hi have "greatest (map pv_version (w_versions w)) = Some m" by simp
            from greatest_ge [OF this u] have "u \<le> m" .
            with m False show ?thesis by simp
          qed
          from run gv Inr None mv top False
          have "bnd (write_snapshot E en) (\<lambda>_. bnd (add_version en by) (\<lambda>_. ret True)) w2 = (r, w')"
            by (auto simp: record_activation_def bnd_run_Inr)
          from record_new_run [OF this hash new, of x] h2 quiet_safely [OF q2, of E] show ?thesis
            by (auto simp: activation_recorded_def intro: recorded_safely_trans)
        qed
      qed
    qed
  qed
qed

lemma record_activation_engine: "stays (same w_engine) (record_activation E en by)"
  unfolding record_activation_def write_snapshot_def add_version_def Let_def file_exists_def
    read_file_def write_file_def
  by (intro same_engine.blind_intros same_engine.stays_get_version same_engine.stays_max_version
      same_engine.stays_faulty same_engine.stays_db_commit)
    (simp_all add: stays_def same_def split: option.split)

lemma set_version_history:
  "map (\<lambda>r. (pv_version r, pv_content_hash r)) (set_version v t by rows)
     = map (\<lambda>r. (pv_version r, pv_content_hash r)) rows"
  by (induction rows) auto

lemma record_activation_safely:
  "engine_hash_ok E en \<Longrightarrow> stays (recorded_safely E) (record_activation E en by)"
  by (rule staysI) (simp add: record_activation_run)

lemma record_rollback_safely: "stays (recorded_safely E) (record_rollback en by)"
  unfolding record_rollback_def
  by (intro recorded_safely.blind_intros recorded_safely.stays_get_version recorded_safely.stays_db_commit)
    (simp add: recorded_safely_def keeps_def snapshots_match_def history_def set_version_history
      versions_evolve_def forward_def)

lemma swap_safely: "stays (recorded_safely E) (swap en)"
  by (simp add: swap_def stays_def recorded_safely_same)

lemma expire_stale_safely: "stays (recorded_safely E) (expire_stale E)"
  unfolding expire_stale_def
  by (intro recorded_safely.append_intros recorded_safely.stays_db_commit) (simp add: recorded_safely_same)

lemmas safely_intros =
  recorded_safely.append_intros recorded_safely.stays_load_candidate recorded_safely.stays_load_policy
  recorded_safely.stays_faulty record_activation_safely record_rollback_safely swap_safely
  expire_stale_safely

lemma reload_policy_safely: "stays (recorded_safely E) (reload_policy E)"
  unfolding reload_policy_def
proof (rule recorded_safely.stays_bnd [OF recorded_safely.stays_the_engine],
    rule recorded_safely.stays_bnd_run [OF recorded_safely.stays_load_candidate])
  fix old w candidate w'
  assume "load_candidate E w = (Inr candidate, w')"
  then have ok: "engine_hash_ok E en" if "candidate = Some en" for en
    using that by (simp add: load_candidate_hash)
  show "stays (recorded_safely E)
     (case candidate of None \<Rightarrow> ret ()
      | Some en \<Rightarrow>
          bnd (try_catch (bnd (record_activation E en ''operator'') (\<lambda>_. ret True)) (\<lambda>e. ret False))
           (\<lambda>recorded. if \<not> recorded then ret ()
              else bnd (swap en) (\<lambda>_. bnd the_engine (\<lambda>live.
                try_catch (bnd (audit_write E POLICY_ACTIVATED ''operator'' None None
                   (activation_payload (JInt (en_version old)) live) None) (\<lambda>_. ret ()))
                 (\<lambda>e. ret ())))))"
    using ok by (cases candidate) (auto intro!: safely_intros)
qed

lemma startup_safely: "stays (recorded_safely E) (startup E)"
  unfolding startup_def
proof (rule recorded_safely.stays_bnd_run [OF recorded_safely.stays_load_policy])
  fix w en w'
  assume "load_policy E w = (Inr en, w')"
  then have "engine_hash_ok E en" by (auto dest!: load_policy_Inr load_bytes_hash)
  then have "stays (recorded_safely E) (record_startup_activation E en)"
    unfolding record_startup_activation_def
    by (intro safely_intros) (auto intro: recorded_safely.stays_raise split: exc.split)
  then show "stays (recorded_safely E)
     (bnd (swap en) (\<lambda>_. bnd (faulty OSError (ret ())) (\<lambda>_.
      bnd (record_startup_activation E en) (\<lambda>_.
      bnd (audit_write E POLICY_ACTIVATED ''startup'' None None (activation_payload JNull en) None) (\<lambda>_.
      expire_stale E)))))"
    by (intro safely_intros)
qed

section \<open>Properties\<close>

text \<open>
  Whatever fails, a reload, a start-up and a recorded rollback never change the hash of a
  recorded version, only add versions above every recorded one, never change a snapshot, and
  keep the invariant that every recorded version has a snapshot with its recorded hash.
\<close>
theorem versions_recorded_safely:
  "stays (recorded_safely E) (reload_policy E) \<and> stays (recorded_safely E) (startup E)
   \<and> stays (recorded_safely E) (record_rollback en by)"
  by (intro conjI reload_policy_safely startup_safely record_rollback_safely)

lemma recording_run:
  "record_activation E en by w = (Inr new, w') \<Longrightarrow>
     try_catch (bnd (record_activation E en by) (\<lambda>_. ret True)) (\<lambda>e. ret False) w = (Inr True, w')"
  "record_activation E en by w = (Inl e, w') \<Longrightarrow>
     try_catch (bnd (record_activation E en by) (\<lambda>_. ret True)) (\<lambda>e. ret False) w = (Inr False, w')"
  by (simp_all add: try_catch_def bnd_def)

lemma announcement_run:
  assumes "try_catch (bnd (audit_write E POLICY_ACTIVATED who None None extra None) (\<lambda>_. ret ()))
     (\<lambda>e. ret ()) w = (r, w')" (is "?m w = _")
  shows "r = Inr () \<and> w_engine w' = w_engine w \<and> history w' = history w"
proof -
  have engine: "stays (same w_engine) ?m" by (intro same_engine.append_intros)
  have recorded: "stays (same history) ?m" by (intro same_history.append_intros)
  have "r = Inr ()" using assms by (auto simp: try_catch_def bnd_def split: prod.splits sum.splits)
  with staysD [OF engine assms] staysD [OF recorded assms] show ?thesis by (simp add: same_def)
qed

lemma reload_policy_cases:
  assumes run: "reload_policy E w = (r, w')"
  obtains (kept) "r = Inr ()" "w_engine w' = w_engine w"
  | (swapped) en w1 new w2 where "load_candidate E w = (Inr (Some en), w1)"
      "record_activation E en ''operator'' w1 = (Inr new, w2)" "r = Inr ()" "w_engine w' = en"
      "history w' = history w2"
proof -
  obtain r1 w1 where lc: "load_candidate E w = (r1, w1)" by (cases "load_candidate E w")
  then obtain c where r1: "r1 = Inr c"
    by (cases r1) (auto simp: load_candidate_def try_catch_def split: prod.splits sum.splits)
  have e1: "w_engine w1 = w_engine w"
    using staysD [OF same_engine.stays_load_candidate lc] by (simp add: same_def)
  show thesis
  proof (cases c)
    case None
    with run lc r1 e1 show thesis by (intro kept) (auto simp: reload_policy_def the_engine_def bnd_run_Inr)
  next
    case (Some en)
    let ?recording = "try_catch (bnd (record_activation E en ''operator'') (\<lambda>_. ret True)) (\<lambda>e. ret False)"
    obtain r2 w2 where ra: "record_activation E en ''operator'' w1 = (r2, w2)"
      by (cases "record_activation E en ''operator'' w1")
    have e2: "w_engine w2 = w_engine w"
      using staysD [OF record_activation_engine ra] e1 by (simp add: same_def)
    show thesis
    proof (cases r2)
      case (Inl e)
      have "bnd ?recording f w1 = f False w2" for f :: "bool \<Rightarrow> unit step"
        by (rule bnd_run_Inr [where m = ?recording], rule recording_run(2)) (use ra Inl in simp)
      with run lc r1 Some e2 show thesis
        by (intro kept) (simp_all add: reload_policy_def the_engine_def bnd_run_Inr)
    next
      case (Inr new)
      have "bnd ?recording f w1 = f True w2" for f :: "bool \<Rightarrow> unit step"
        by (rule bnd_run_Inr [where m = ?recording], rule recording_run(1)) (use ra Inr in simp)
      with run lc r1 Some have "try_catch (bnd (audit_write E POLICY_ACTIVATED ''operator'' None None
            (activation_payload (JInt (en_version (w_engine w))) en) None) (\<lambda>_. ret ())) (\<lambda>e. ret ())
          (w2\<lparr>w_engine := en\<rparr>) = (r, w')"
        by (simp add: reload_policy_def the_engine_def swap_def bnd_run_Inr)
      from announcement_run [OF this] lc r1 Some ra Inr show thesis
        by (intro swapped) (simp_all add: history_def)
    qed
  qed
qed

text \<open>
  C32: A reload never fails and leaves the live engine as it was, unless the policy file parses
  and validates to the new engine and that version is in the table with the hash of those bytes:
  as it was before, or newly recorded above every recorded version.
\<close>
theorem reload_keeps_last_known_good:
  assumes "reload_policy E w = (r, w')"
  shows "r = Inr () \<and>
    (w_engine w' = w_engine w
     \<or> (\<exists>raw en. w_policy_bytes w = Some raw \<and> load_bytes E raw = Inr en \<and> w_engine w' = en
          \<and> en_content_hash en = x_sha256 E raw
          \<and> (history w' = history w \<and> (en_version en, en_content_hash en) \<in> set (history w)
             \<or> history w' = history w @ [(en_version en, en_content_hash en)]
               \<and> list_all (\<lambda>a. fst a < en_version en) (history w))))"
  using assms
proof (cases rule: reload_policy_cases)
  case kept
  then show ?thesis by simp
next
  case (swapped en w1 new w2)
  from swapped(1) obtain raw where "quiet w w1" "engine_hash_ok E en"
    and raw: "w_policy_bytes w = Some raw" "load_bytes E raw = Inr en"
    by (auto dest: load_candidate_Some load_candidate_hash)
  with record_activation_run [OF swapped(2), of new] have "activation_recorded en new w w2"
    by (auto simp: activation_recorded_def quiet_history)
  moreover have "en_content_hash en = x_sha256 E raw"
    using load_bytes_hash [OF raw(2)] by (simp add: engine_hash_ok_def)
  ultimately show ?thesis using swapped(3-5) raw
    by (cases new) (auto simp: activation_recorded_def list_all_iff dest: bspec)
qed

text \<open>A world with two policy files for the witnesses, versions 1 and 2.\<close>

definition policy_source :: "string \<Rightarrow> policy_file res" where
  "policy_source raw =
     (if raw = ''one'' then Inr demo_policy
      else if raw = ''two'' then Inr (demo_policy\<lparr>p_version := 2\<rparr>)
      else Inl (ValueError ''invalid policy''))"

definition demo_files :: ext where
  "demo_files = demo\<lparr>x_read_policy := policy_source\<rparr>"

definition demo_boot :: world where
  "demo_boot = demo_world\<lparr>w_policy_bytes := Some ''one''\<rparr>"

definition demo_started :: world where
  "demo_started = snd (startup demo_files demo_boot)"

definition demo_reloaded :: world where
  "demo_reloaded = snd (reload_policy demo_files (demo_started\<lparr>w_policy_bytes := Some ''two''\<rparr>))"

lemma demo_started_run:
  "startup demo_files demo_boot = (Inr (), demo_started) \<and> en_version (w_engine demo_started) = 1
   \<and> history demo_started = [(1, ''one'')]"
proof -
  have "(case startup demo_files demo_boot of (r, w) \<Rightarrow> r = Inr () \<and> en_version (w_engine w) = 1
      \<and> history w = [(1, ''one'')])"
    by code_simp
  then show ?thesis by (simp add: demo_started_def split_beta prod_eq_iff)
qed

lemma demo_reloaded_run:
  "en_version (w_engine demo_reloaded) = 2 \<and> history demo_reloaded = [(1, ''one''), (2, ''two'')]"
proof -
  have "(case reload_policy demo_files (demo_started\<lparr>w_policy_bytes := Some ''two''\<rparr>) of (r, w) \<Rightarrow>
      en_version (w_engine w) = 2 \<and> history w = [(1, ''one''), (2, ''two'')])"
    by code_simp
  then show ?thesis by (simp add: demo_reloaded_def split_beta)
qed

theorem reload_keeps_last_known_good_witness:
  "en_version (w_engine demo_reloaded) = 2 \<and> en_content_hash (w_engine demo_reloaded) = ''two''
   \<and> history demo_reloaded = [(1, ''one''), (2, ''two'')]"
proof -
  let ?w = "demo_started\<lparr>w_policy_bytes := Some ''two''\<rparr>"
  have run: "reload_policy demo_files ?w = (fst (reload_policy demo_files ?w), demo_reloaded)"
    by (simp add: demo_reloaded_def)
  have v: "en_version (w_engine demo_reloaded) = 2" "en_version (w_engine ?w) = 1"
    "history ?w = [(1, ''one'')]" "history demo_reloaded = [(1, ''one''), (2, ''two'')]"
    using demo_started_run demo_reloaded_run by (simp_all add: history_def)
  then have "w_engine demo_reloaded \<noteq> w_engine ?w" by auto
  with reload_keeps_last_known_good [OF run] have
    "en_content_hash (w_engine demo_reloaded) = x_sha256 demo_files ''two''" by auto
  with v show ?thesis by (simp add: demo_files_def demo_def)
qed

text \<open>
  A gateway that has started serves a policy its table records under the hash of the file's
  bytes, and the log holds a POLICY_ACTIVATED row of the start-up that names version and hash.
\<close>
theorem started_policy_recorded:
  assumes "startup E w = (Inr (), w')"
  shows "\<exists>raw en row. w_policy_bytes w = Some raw \<and> load_bytes E raw = Inr en \<and> w_engine w' = en
    \<and> (en_version en, x_sha256 E raw) \<in> set (history w')
    \<and> row \<in> set (w_audit w')
    \<and> records E POLICY_ACTIVATED ''startup'' None None (activation_payload JNull en) None (en_version en) row"
proof -
  from assms obtain en w1 w2 w3 seq w4 where
    1: "load_policy E w = (Inr en, w1)" and
    2: "faulty OSError (ret ()) (w1\<lparr>w_engine := en\<rparr>) = (Inr (), w2)" and
    3: "record_startup_activation E en w2 = (Inr (), w3)" and
    4: "audit_write E POLICY_ACTIVATED ''startup'' None None (activation_payload JNull en) None w3
          = (Inr seq, w4)" and
    5: "expire_stale E w4 = (Inr (), w')"
    by (auto simp: startup_def bnd_Inr_iff swap_def)
  from load_policy_Inr [OF 1] obtain raw where raw: "w_policy_bytes w = Some raw" "load_bytes E raw = Inr en"
    by blast
  from load_bytes_hash [OF raw(2)] have ok: "engine_hash_ok E en" "en_raw en = raw" by simp_all
  from faulty_Inr [OF 2] have e2: "w_engine w2 = en" by (auto simp: quiet_fields)
  from 3 obtain b where ra: "record_activation E en ''startup'' w2 = (Inr b, w3)"
    by (auto simp: record_startup_activation_def try_catch_Inr_iff bnd_Inr_iff split: exc.splits) (metis exc.exhaust)
  with record_activation_run [OF ra ok(1), of b] have h3: "(en_version en, x_sha256 E raw) \<in> set (history w3)"
    using ok by (auto simp: activation_recorded_def engine_hash_ok_def split: if_splits)
  have e3: "w_engine w3 = en" using staysD [OF record_activation_engine ra] e2 by (simp add: same_def)
  from audit_write_Inr [OF 4] e3 obtain rows row where
    row: "w_audit w4 = w_audit w3 @ rows @ [row]"
      "records E POLICY_ACTIVATED ''startup'' None None (activation_payload JNull en) None (en_version en) row"
    by blast
  have e4: "w_engine w4 = en" using staysD [OF same_engine.stays_audit_write 4] e3 by (simp add: same_def)
  have h4: "history w4 = history w3" using staysD [OF same_history.stays_audit_write 4] by (simp add: same_def)
  have "stays (same w_engine) (expire_stale E)" "stays (same history) (expire_stale E)"
    "stays log_grows (expire_stale E)"
    unfolding expire_stale_def
    by (intro same_engine.append_intros same_engine.stays_db_commit same_history.append_intros
        same_history.stays_db_commit log_grows.append_intros log_grows.stays_db_commit;
        simp add: same_def history_def log_grows_def)+
  from this [THEN staysD, OF 5] have "w_engine w' = en" "history w' = history w4" "log_grows w4 w'"
    using e4 by (simp_all add: same_def)
  with raw row h3 h4 show ?thesis by (auto simp: log_grows_def)
qed

theorem started_policy_recorded_witness:
  "(1, ''one'') \<in> set (history demo_started) \<and> w_audit demo_started \<noteq> []"
proof -
  from demo_started_run have run: "startup demo_files demo_boot = (Inr (), demo_started)"
    and v: "en_version (w_engine demo_started) = 1" by simp_all
  from started_policy_recorded [OF run] v show ?thesis
    by (auto simp: demo_boot_def demo_files_def demo_def)
qed

text \<open>
  A reload re-activates an older recorded version: the table records 1 and 2, and the policy file
  holds version 1 again.
\<close>
theorem reload_reactivates_older:
  "en_version (w_engine (snd (reload_policy demo_files (demo_reloaded\<lparr>w_policy_bytes := Some ''one''\<rparr>)))) = 1
   \<and> history demo_reloaded = [(1, ''one''), (2, ''two'')]"
proof
  show "en_version (w_engine (snd (reload_policy demo_files (demo_reloaded\<lparr>w_policy_bytes := Some ''one''\<rparr>)))) = 1"
    by code_simp
qed (simp add: demo_reloaded_run)

text \<open>
  The snapshot is on disk before the row is committed. When the commit fails, the version stays
  unrecorded, and a corrected file under the same version is refused from then on.
\<close>
theorem failed_commit_leaves_snapshot:
  "let w = snd (record_activation demo_files (make_engine demo_policy ''one'' ''one'') ''operator''
             (demo_world\<lparr>w_faults := [False, False, False, True]\<rparr>))
   in history w = [] \<and> map_of (w_snapshots w) (snapshot_path demo_files 1) = Some ''one''
      \<and> fst (record_activation demo_files (make_engine demo_policy ''fix'' ''fix'') ''operator'' w)
        = Inl (ActivationError (''revision snapshot '' @ snapshot_path demo_files 1
                @ '' exists with different content''))"
  by code_simp

end
