(* ===== verification/Simulator.thy ===== *)
theory Simulator
  imports Explainer PolicyVersions
begin

text \<open>
  Policy simulation (\<open>policy_simulator.py\<close>): the window, the recorded revisions, the rows to
  replay, the replay of each through the dry run, and the two summaries. The lemmas: what the
  counters count, that only a snapshot with the recorded hash is simulated, that a simulation
  changes nothing.
\<close>

definition ROW_CAP :: nat where "ROW_CAP = 10000"
definition SAMPLE_CAP :: nat where "SAMPLE_CAP = 10"
definition REASON_SNIPPET_LEN :: nat where "REASON_SNIPPET_LEN = 160"

definition REPLAYABLE :: "event_type list" where
  "REPLAYABLE = filter (\<lambda>e. e \<noteq> APPROVED) (map fst OUTCOMES)"

record sample_diff =
  sd_audit_seq :: int
  sd_identity :: string
  sd_tool :: string
  sd_before :: string
  sd_after :: string
  sd_reason :: string

record historical_simulation =
  hs_total_replayed :: nat
  hs_would_now_deny :: nat
  hs_would_now_require_approval :: nat
  hs_newly_allowed :: nat
  hs_unchanged :: nat
  hs_sample_diffs :: "sample_diff list"

record compare_simulation =
  cs_total_replayed :: nat
  cs_compared_versions :: "int list"
  cs_new_denials :: nat
  cs_new_approvals :: nat
  cs_changed_risk_scores :: nat
  cs_changed_explanations :: nat
  cs_sample_diffs :: "sample_diff list"

section \<open>The window\<close>

text \<open>\<open>s.split(sep)\<close> for a separator of two equal characters, and of one.\<close>

fun split_pair :: "char \<Rightarrow> string \<Rightarrow> string list" where
  "split_pair c (a # b # s) =
     (if a = c \<and> b = c then [] # split_pair c s
      else (case split_pair c (b # s) of [] \<Rightarrow> [[a]] | p # ps \<Rightarrow> (a # p) # ps))"
| "split_pair c s = [s]"

fun split_on :: "char \<Rightarrow> string \<Rightarrow> string list" where
  "split_on c [] = [[]]"
| "split_on c (a # s) =
     (if a = c then [] # split_on c s
      else (case split_on c s of [] \<Rightarrow> [[a]] | p # ps \<Rightarrow> (a # p) # ps))"

definition is_digit :: "char \<Rightarrow> bool" where
  "is_digit c = (CHR ''0'' \<le> c \<and> c \<le> CHR ''9'')"

definition digits_value :: "string \<Rightarrow> int" where
  "digits_value s = foldl (\<lambda>n c. n * 10 + (of_char c - 48)) 0 s"

text \<open>The texts \<open>%Y\<close>, \<open>%m\<close> and \<open>%d\<close> of \<open>strptime\<close> accept, in ASCII digits.\<close>

definition year_text :: "string \<Rightarrow> bool" where
  "year_text s = (length s = 4 \<and> list_all is_digit s)"

definition month_text :: "string \<Rightarrow> bool" where
  "month_text s = (list_all is_digit s \<and> (length s = 1 \<or> length s = 2)
     \<and> 1 \<le> digits_value s \<and> digits_value s \<le> 12)"

definition day_text :: "string \<Rightarrow> bool" where
  "day_text s =
     ((list_all is_digit s \<and> (length s = 1 \<or> length s = 2) \<and> 1 \<le> digits_value s \<and> digits_value s \<le> 31)
      \<or> (case s of [a, b] \<Rightarrow> a = CHR '' '' \<and> is_digit b \<and> b \<noteq> CHR ''0'' | _ \<Rightarrow> False))"

definition day_value :: "string \<Rightarrow> int" where
  "day_value s = digits_value (filter is_digit s)"

definition leap :: "int \<Rightarrow> bool" where
  "leap y = (y mod 4 = 0 \<and> (y mod 100 \<noteq> 0 \<or> y mod 400 = 0))"

definition month_days :: "int \<Rightarrow> int list" where
  "month_days y = [31, if leap y then 29 else 28, 31, 30, 31, 30, 31, 31, 30, 31, 30, 31]"

text \<open>The proleptic Gregorian ordinal of a date; day 1 is 1 January of the year 1.\<close>

definition ordinal :: "int \<Rightarrow> int \<Rightarrow> int \<Rightarrow> int" where
  "ordinal y m d =
     (y - 1) * 365 + (y - 1) div 4 - (y - 1) div 100 + (y - 1) div 400
       + sum_list (take (nat (m - 1)) (month_days y)) + d"

definition parse_date :: "string \<Rightarrow> int option" where
  "parse_date s =
     (case split_on CHR ''-'' s of
        [ys, ms, ds] \<Rightarrow>
          if year_text ys \<and> month_text ms \<and> day_text ds then
            (let y = digits_value ys; m = digits_value ms; d = day_value ds in
             if 1 \<le> y \<and> d \<le> month_days y ! nat (m - 1) then Some (ordinal y m d) else None)
          else None
      | _ \<Rightarrow> None)"

text \<open>Seconds since the epoch at the start of a day.\<close>

definition day_start :: "int \<Rightarrow> rat" where
  "day_start n = of_int ((n - 719163) * 86400)"

definition MAX_ORDINAL :: int where "MAX_ORDINAL = 3652059"

definition parse_window :: "string \<Rightarrow> (rat \<times> rat) res" where
  "parse_window window =
     (let bad = Inl (ValueError (''replay_window must be ''
                  @ [CHR 0x27] @ ''YYYY-MM-DD..YYYY-MM-DD'' @ [CHR 0x27] @ '', got '' @ py_repr window)) in
      case split_pair CHR ''.'' window of
        [start_s, end_s] \<Rightarrow>
          (case (parse_date start_s, parse_date end_s) of
             (Some a, Some b) \<Rightarrow>
               if b < a then Inl (ValueError (''replay_window start '' @ start_s @ '' is after its end '' @ end_s))
               else if b = MAX_ORDINAL then Inl OverflowError
               else Inr (day_start a, day_start (b + 1))
           | _ \<Rightarrow> bad)
      | _ \<Rightarrow> bad)"

section \<open>Revisions and rows\<close>

definition load_version :: "ext \<Rightarrow> int \<Rightarrow> engine step" where
  "load_version E version =
     bnd (get_version version) (\<lambda>found.
     case found of
       None \<Rightarrow> raise (LookupError (''policy version '' @ dec_int version @ '' was never recorded''))
     | Some row \<Rightarrow>
         bnd (file_exists (snapshot_path E version)) (\<lambda>exists.
         if \<not> exists
         then raise (LookupError (''no revision snapshot for policy version '' @ dec_int version))
         else
           bnd (read_file (snapshot_path E version)) (\<lambda>raw.
           bnd (lift_res (load_bytes E raw)) (\<lambda>en.
           if en_content_hash en \<noteq> pv_content_hash row
           then raise (ActivationError (''snapshot for version '' @ dec_int version
                  @ '' does not match its recorded content_hash''))
           else ret en))))"

definition row_arguments :: "audit_row \<Rightarrow> json res" where
  "row_arguments row = py_get (py_or (ar_payload row) (JObj [])) ''arguments''"

fun with_arguments :: "audit_row list \<Rightarrow> audit_row list res" where
  "with_arguments [] = Inr []"
| "with_arguments (r # rows) =
     res_bnd (row_arguments r) (\<lambda>a.
     res_bnd (with_arguments rows) (\<lambda>rest. Inr (if is_dict a then r # rest else rest)))"

definition replayable_in :: "rat \<Rightarrow> rat \<Rightarrow> audit_row \<Rightarrow> bool" where
  "replayable_in start until r \<longleftrightarrow> ar_event_type r \<in> set (map event_value REPLAYABLE)
     \<and> ar_tool_name r \<noteq> None \<and> start \<le> ar_timestamp r \<and> ar_timestamp r < until"

definition replay_rows :: "rat \<Rightarrow> rat \<Rightarrow> audit_row list step" where
  "replay_rows start until =
     bnd (db_read [] (\<lambda>w. take ROW_CAP (sort_key ar_seq (filter (replayable_in start until) (w_audit w)))))
       (\<lambda>rows. lift_res (with_arguments rows))"

definition historical_bucket :: "audit_row \<Rightarrow> outcome res" where
  "historical_bucket row =
     (case event_of_value (ar_event_type row) of
        None \<Rightarrow> Inl (ValueError (''not a valid EventType''))
      | Some ev \<Rightarrow> (case map_of OUTCOMES ev of None \<Rightarrow> Inl KeyError | Some oc \<Rightarrow> Inr oc))"

section \<open>Summaries\<close>

definition snippet :: "string \<Rightarrow> string" where
  "snippet reason =
     (if py_len reason \<le> REASON_SNIPPET_LEN then reason
      else concat (take (REASON_SNIPPET_LEN - 1) (code_points reason)) @ [CHR 0xE2, CHR 0x80, CHR 0xA6])"

definition label :: "decision \<Rightarrow> string" where
  "label d =
     (case d_risk_score d of
        None \<Rightarrow> outcome_value (d_decision d)
      | Some k \<Rightarrow> outcome_value (d_decision d) @ '' (risk '' @ dec_int k @ '')'')"

definition sample_of :: "audit_row \<Rightarrow> string \<Rightarrow> string \<Rightarrow> string \<Rightarrow> sample_diff" where
  "sample_of row before after reason =
     \<lparr>sd_audit_seq = ar_seq row, sd_identity = ar_identity_id row,
      sd_tool = (case ar_tool_name row of None \<Rightarrow> '''' | Some t \<Rightarrow> t),
      sd_before = before, sd_after = after, sd_reason = snippet reason\<rparr>"

text \<open>One turn of the first summary's loop.\<close>

definition count_historical ::
  "historical_simulation \<Rightarrow> audit_row \<times> decision \<Rightarrow> historical_simulation res"
where
  "count_historical s pair =
     (case pair of (row, after) \<Rightarrow>
      res_bnd (historical_bucket row) (\<lambda>before.
      let after_bucket = d_decision after in
      if before = after_bucket then Inr (s\<lparr>hs_unchanged := hs_unchanged s + 1\<rparr>)
      else
        let s1 = (if before = Allow \<and> after_bucket = Deny
                  then s\<lparr>hs_would_now_deny := hs_would_now_deny s + 1\<rparr> else s);
            s2 = (if after_bucket = HumanApprovalRequired
                  then s1\<lparr>hs_would_now_require_approval := hs_would_now_require_approval s1 + 1\<rparr> else s1);
            s3 = (if before \<in> {Deny, Challenge} \<and> after_bucket = Allow
                  then s2\<lparr>hs_newly_allowed := hs_newly_allowed s2 + 1\<rparr> else s2)
        in Inr (if length (hs_sample_diffs s3) < SAMPLE_CAP
                then s3\<lparr>hs_sample_diffs := hs_sample_diffs s3
                  @ [sample_of row (outcome_value before) (outcome_value after_bucket) (d_reason after)]\<rparr>
                else s3)))"

fun res_fold :: "('s \<Rightarrow> 'a \<Rightarrow> 's res) \<Rightarrow> 's \<Rightarrow> 'a list \<Rightarrow> 's res" where
  "res_fold f s [] = Inr s"
| "res_fold f s (x # xs) = res_bnd (f s x) (\<lambda>s'. res_fold f s' xs)"

definition summarize_historical :: "(audit_row \<times> decision) list \<Rightarrow> historical_simulation res" where
  "summarize_historical pairs =
     res_fold count_historical
       \<lparr>hs_total_replayed = length pairs, hs_would_now_deny = 0, hs_would_now_require_approval = 0,
        hs_newly_allowed = 0, hs_unchanged = 0, hs_sample_diffs = []\<rparr> pairs"

definition count_compare ::
  "compare_simulation \<Rightarrow> audit_row \<times> decision \<times> decision \<Rightarrow> compare_simulation"
where
  "count_compare s triple =
     (case triple of (row, old, new) \<Rightarrow>
      let s1 = (if d_decision old \<in> {Allow, Challenge} \<and> d_decision new = Deny
                then s\<lparr>cs_new_denials := cs_new_denials s + 1\<rparr> else s);
          s2 = (if d_decision new = HumanApprovalRequired \<and> d_decision old \<noteq> HumanApprovalRequired
                then s1\<lparr>cs_new_approvals := cs_new_approvals s1 + 1\<rparr> else s1);
          s3 = (if d_risk_score old \<noteq> d_risk_score new
                then s2\<lparr>cs_changed_risk_scores := cs_changed_risk_scores s2 + 1\<rparr> else s2)
      in if d_decision old \<noteq> d_decision new \<or> d_reason old \<noteq> d_reason new then
           let s4 = s3\<lparr>cs_changed_explanations := cs_changed_explanations s3 + 1\<rparr>
           in if length (cs_sample_diffs s4) < SAMPLE_CAP
              then s4\<lparr>cs_sample_diffs := cs_sample_diffs s4
                @ [sample_of row (label old) (label new) (d_reason new)]\<rparr>
              else s4
         else s3)"

definition summarize_compare ::
  "(audit_row \<times> decision \<times> decision) list \<Rightarrow> int list \<Rightarrow> compare_simulation"
where
  "summarize_compare triples versions =
     foldl count_compare
       \<lparr>cs_total_replayed = length triples, cs_compared_versions = versions, cs_new_denials = 0,
        cs_new_approvals = 0, cs_changed_risk_scores = 0, cs_changed_explanations = 0,
        cs_sample_diffs = []\<rparr> triples"

section \<open>The two modes\<close>

fun for_collect :: "('a \<Rightarrow> 'b step) \<Rightarrow> 'a list \<Rightarrow> 'b list step" where
  "for_collect f [] = ret []"
| "for_collect f (x # xs) = bnd (f x) (\<lambda>y. bnd (for_collect f xs) (\<lambda>ys. ret (y # ys)))"

definition simulate_row :: "ext \<Rightarrow> engine \<Rightarrow> audit_row \<Rightarrow> decision step" where
  "simulate_row E en row =
     bnd (lift_res (row_arguments row)) (\<lambda>arguments.
     explain_call E en (ar_identity_id row)
       (case ar_tool_name row of None \<Rightarrow> '''' | Some t \<Rightarrow> t)
       (case ar_server_id row of None \<Rightarrow> '''' | Some s \<Rightarrow> s)
       arguments (JObj [(''timestamp'', JFloat (Fin (ar_timestamp row)))]) False)"

definition simulate_historical :: "ext \<Rightarrow> int \<Rightarrow> string \<Rightarrow> historical_simulation step" where
  "simulate_historical E candidate_version replay_window =
     bnd (lift_res (parse_window replay_window)) (\<lambda>(start, until).
     bnd (load_version E candidate_version) (\<lambda>en.
     bnd (replay_rows start until) (\<lambda>rows.
     bnd (for_collect (\<lambda>row. bnd (simulate_row E en row) (\<lambda>d. ret (row, d))) rows) (\<lambda>pairs.
     lift_res (summarize_historical pairs)))))"

text \<open>The endpoint passes exactly two versions.\<close>

definition simulate_compare :: "ext \<Rightarrow> int \<Rightarrow> int \<Rightarrow> string \<Rightarrow> compare_simulation step" where
  "simulate_compare E old_version new_version replay_window =
     bnd (lift_res (parse_window replay_window)) (\<lambda>(start, until).
     bnd (load_version E old_version) (\<lambda>old_engine.
     bnd (load_version E new_version) (\<lambda>new_engine.
     bnd (replay_rows start until) (\<lambda>rows.
     bnd (for_collect (\<lambda>row.
            bnd (simulate_row E old_engine row) (\<lambda>old.
            bnd (simulate_row E new_engine row) (\<lambda>new. ret (row, old, new)))) rows) (\<lambda>triples.
     ret (summarize_compare triples [old_version, new_version]))))))"

section \<open>Facts\<close>

text \<open>What the counters of the first summary count, over pairs of buckets.\<close>

definition buckets :: "(audit_row \<times> decision) list \<Rightarrow> (outcome \<times> outcome) list" where
  "buckets pairs = map (\<lambda>(row, d). (case historical_bucket row of Inr b \<Rightarrow> b | Inl e \<Rightarrow> Deny, d_decision d)) pairs"

definition tally :: "('a \<Rightarrow> bool) \<Rightarrow> 'a list \<Rightarrow> nat" where
  "tally P xs = length (filter P xs)"

lemma tally_simps [simp]:
  "tally P [] = 0" "tally P (x # xs) = (if P x then Suc (tally P xs) else tally P xs)"
  by (simp_all add: tally_def)

lemma count_historical_step:
  assumes "count_historical s (row, d) = Inr s'"
  shows "\<exists>before. historical_bucket row = Inr before
    \<and> hs_total_replayed s' = hs_total_replayed s
    \<and> hs_unchanged s' = hs_unchanged s + of_bool (before = d_decision d)
    \<and> hs_would_now_deny s' = hs_would_now_deny s + of_bool (before = Allow \<and> d_decision d = Deny)
    \<and> hs_would_now_require_approval s' = hs_would_now_require_approval s
        + of_bool (before \<noteq> d_decision d \<and> d_decision d = HumanApprovalRequired)
    \<and> hs_newly_allowed s' = hs_newly_allowed s
        + of_bool ((before = Deny \<or> before = Challenge) \<and> d_decision d = Allow)
    \<and> hs_sample_diffs s' = hs_sample_diffs s
        @ (if before \<noteq> d_decision d \<and> length (hs_sample_diffs s) < SAMPLE_CAP
           then [sample_of row (outcome_value before) (outcome_value (d_decision d)) (d_reason d)] else [])"
proof -
  from assms obtain before where b: "historical_bucket row = Inr before"
    by (auto simp: count_historical_def res_bnd_Inr_iff)
  with assms show ?thesis
    by (cases before; cases "d_decision d") (auto simp: count_historical_def Let_def)
qed

lemma summarize_loop:
  assumes "res_fold count_historical s pairs = Inr s'"
  shows "hs_total_replayed s' = hs_total_replayed s
    \<and> hs_unchanged s' = hs_unchanged s + tally (\<lambda>(b, a). b = a) (buckets pairs)
    \<and> hs_would_now_deny s' = hs_would_now_deny s + tally (\<lambda>(b, a). b = Allow \<and> a = Deny) (buckets pairs)
    \<and> hs_would_now_require_approval s' = hs_would_now_require_approval s
        + tally (\<lambda>(b, a). b \<noteq> a \<and> a = HumanApprovalRequired) (buckets pairs)
    \<and> hs_newly_allowed s' = hs_newly_allowed s
        + tally (\<lambda>(b, a). (b = Deny \<or> b = Challenge) \<and> a = Allow) (buckets pairs)
    \<and> length (hs_sample_diffs s') = max (length (hs_sample_diffs s))
        (min SAMPLE_CAP (length (hs_sample_diffs s) + tally (\<lambda>(b, a). b \<noteq> a) (buckets pairs)))"
  using assms
proof (induction pairs arbitrary: s)
  case Nil
  then show ?case by (simp add: buckets_def)
next
  case (Cons p pairs)
  obtain row d where p: "p = (row, d)" by (cases p)
  with Cons.prems obtain s1 where step: "count_historical s (row, d) = Inr s1"
    and rest: "res_fold count_historical s1 pairs = Inr s'"
    by (auto simp: res_bnd_Inr_iff)
  from count_historical_step [OF step] obtain before where
    s1: "historical_bucket row = Inr before"
      "hs_total_replayed s1 = hs_total_replayed s"
      "hs_unchanged s1 = hs_unchanged s + of_bool (before = d_decision d)"
      "hs_would_now_deny s1 = hs_would_now_deny s + of_bool (before = Allow \<and> d_decision d = Deny)"
      "hs_would_now_require_approval s1 = hs_would_now_require_approval s
        + of_bool (before \<noteq> d_decision d \<and> d_decision d = HumanApprovalRequired)"
      "hs_newly_allowed s1 = hs_newly_allowed s
        + of_bool ((before = Deny \<or> before = Challenge) \<and> d_decision d = Allow)"
      "length (hs_sample_diffs s1) = length (hs_sample_diffs s)
        + of_bool (before \<noteq> d_decision d \<and> length (hs_sample_diffs s) < SAMPLE_CAP)"
    by auto
  have bs: "buckets (p # pairs) = (before, d_decision d) # buckets pairs"
    by (simp add: buckets_def p s1(1))
  let ?n = "length (hs_sample_diffs s)" and ?t = "tally (\<lambda>(b, a). b \<noteq> a) (buckets pairs)"
  note IH = Cons.IH [OF rest, unfolded s1(2-7)]
  have "max (?n + of_bool (before \<noteq> d_decision d \<and> ?n < SAMPLE_CAP))
        (min SAMPLE_CAP (?n + of_bool (before \<noteq> d_decision d \<and> ?n < SAMPLE_CAP) + ?t))
      = max ?n (min SAMPLE_CAP (?n + (of_bool (before \<noteq> d_decision d) + ?t)))"
    by (cases "before = d_decision d"; cases "?n < SAMPLE_CAP") (simp_all add: max_def min_def)
  with IH show ?case by (auto simp: bs)
qed

lemma load_version_Inr:
  assumes "load_version E v w = (Inr en, w')"
  shows "quiet w w' \<and> (\<exists>row raw. find_version v (w_versions w) = Some row
    \<and> map_of (w_snapshots w) (snapshot_path E v) = Some raw \<and> load_bytes E raw = Inr en
    \<and> x_sha256 E raw = pv_content_hash row)"
proof -
  from assms obtain row w1 raw w2 where
    1: "get_version v w = (Inr (Some row), w1)" and
    2: "read_file (snapshot_path E v) w1 = (Inr raw, w2)" and
    3: "load_bytes E raw = Inr en" "en_content_hash en = pv_content_hash row" "w' = w2"
    by (auto simp: load_version_def file_exists_def bnd_Inr_iff split: option.splits if_splits)
  from get_version_Inr [OF 1] have q1: "quiet w w1" "find_version v (w_versions w) = Some row" by auto
  from 2 have q2: "quiet w1 w2" "map_of (w_snapshots w1) (snapshot_path E v) = Some raw"
    unfolding read_file_def by (auto simp: quiet_fields dest!: faulty_Inr split: option.splits)
  from load_bytes_hash [OF 3(1)] have "en_content_hash en = x_sha256 E raw" by (simp add: engine_hash_ok_def)
  with q1 q2 3 show ?thesis by (auto simp: quiet_fields intro: quiet_trans)
qed

lemma quiet_get_version: "stays quiet (get_version v)"
  unfolding get_version_def by (rule quiet_faulty) (simp add: stays_def)

lemma quiet_read_file: "stays quiet (read_file p)"
  unfolding read_file_def by (rule quiet_faulty) (simp add: stays_def split: option.split)

lemma quiet_load_version: "stays quiet (load_version E v)"
  unfolding load_version_def file_exists_def
  by (intro quiet.stays_all quiet_get_version quiet_read_file)

lemma quiet_replay_rows: "stays quiet (replay_rows a b)"
  unfolding replay_rows_def by (intro quiet.stays_all quiet_db_read)

lemma quiet_for_collect: "(\<And>x. stays quiet (f x)) \<Longrightarrow> stays quiet (for_collect f xs)"
  by (induction xs) (auto intro!: quiet.stays_ret quiet.stays_bnd)

lemma for_collect_Inr:
  assumes "for_collect f xs w = (Inr ys, w')" and q: "\<And>x. stays quiet (f x)"
  shows "quiet w w' \<and> list_all2 (\<lambda>x y. \<exists>w1 w2. quiet w w1 \<and> f x w1 = (Inr y, w2)) xs ys"
  using assms(1)
proof (induction xs arbitrary: w ys)
  case (Cons x xs)
  then obtain y w1 zs where f: "f x w = (Inr y, w1)" and zs: "for_collect f xs w1 = (Inr zs, w')" "ys = y # zs"
    by (auto simp: bnd_Inr_iff)
  have w1: "quiet w w1" using q f by (rule staysD)
  from Cons.IH [OF zs(1)] have ih: "quiet w1 w'"
    "list_all2 (\<lambda>x y. \<exists>w2 w3. quiet w1 w2 \<and> f x w2 = (Inr y, w3)) xs zs" by blast+
  from ih(2) have "list_all2 (\<lambda>x y. \<exists>w2 w3. quiet w w2 \<and> f x w2 = (Inr y, w3)) xs zs"
    by (rule list_all2_mono) (blast intro: quiet_trans [OF w1])
  with f zs(2) quiet_trans [OF w1 ih(1)] quiet_refl [of w] show ?case by (simp only: list_all2_Cons) blast
qed simp

text \<open>The rows a simulation replays, oldest first.\<close>

definition carries_arguments :: "audit_row \<Rightarrow> bool" where
  "carries_arguments r \<longleftrightarrow> (case row_arguments r of Inr a \<Rightarrow> is_dict a | Inl e \<Rightarrow> False)"

definition replay_set :: "rat \<Rightarrow> rat \<Rightarrow> world \<Rightarrow> audit_row list" where
  "replay_set start until w =
     filter carries_arguments (take ROW_CAP (sort_key ar_seq (filter (replayable_in start until) (w_audit w))))"

lemma with_arguments_filter: "with_arguments rows = Inr rs \<Longrightarrow> rs = filter carries_arguments rows"
  by (induction rows arbitrary: rs) (auto simp: res_bnd_Inr_iff carries_arguments_def)

lemma replay_rows_Inr:
  assumes "replay_rows a b w = (Inr rows, w')"
  shows "quiet w w' \<and> rows = replay_set a b w"
proof -
  from assms obtain rows0 where
    db: "db_read [] (\<lambda>w. take ROW_CAP (sort_key ar_seq (filter (replayable_in a b) (w_audit w)))) w = (Inr rows0, w')"
    and wa: "with_arguments rows0 = Inr rows"
    by (auto simp: replay_rows_def bnd_Inr_iff)
  from db_read_Inr [OF db] with_arguments_filter [OF wa] show ?thesis by (auto simp: replay_set_def quiet_fields)
qed

text \<open>Simulations only read.\<close>

lemma simulate_row_quiet: "stays quiet (simulate_row E en row)"
  unfolding simulate_row_def by (intro quiet.stays_all explain_changes_nothing)

lemma simulations_quiet:
  "stays quiet (simulate_historical E v window) \<and> stays quiet (simulate_compare E v v' window)"
  unfolding simulate_historical_def simulate_compare_def
  by (intro conjI quiet.stays_all quiet_load_version quiet_replay_rows quiet_for_collect simulate_row_quiet)

section \<open>Properties\<close>

text \<open>
  Explaining and simulating have no effect: whatever is asked and whichever lookups fail, no
  table, snapshot, counter, metric or policy changes; only the fault schedule is consumed.
\<close>
theorem dry_runs_change_nothing:
  "stays quiet (explain_call E en i t s arguments context validate_params)
   \<and> stays quiet (simulate_historical E v window) \<and> stays quiet (simulate_compare E v v' window)"
  using explain_changes_nothing simulations_quiet by blast

text \<open>A row paired with the dry run of its call under a policy.\<close>

definition dry_run_of :: "ext \<Rightarrow> engine \<Rightarrow> world \<Rightarrow> audit_row \<Rightarrow> audit_row \<times> decision \<Rightarrow> bool" where
  "dry_run_of E en w r p \<longleftrightarrow> fst p = r \<and> (\<exists>w1 w2. quiet w w1 \<and> simulate_row E en r w1 = (Inr (snd p), w2))"

lemma simulate_historical_run:
  assumes "simulate_historical E v window w = (Inr s, w')"
  obtains a b en raw row pairs where "parse_window window = Inr (a, b)"
    "find_version v (w_versions w) = Some row" "map_of (w_snapshots w) (snapshot_path E v) = Some raw"
    "load_bytes E raw = Inr en" "x_sha256 E raw = pv_content_hash row"
    "list_all2 (dry_run_of E en w) (replay_set a b w) pairs" "summarize_historical pairs = Inr s"
proof -
  from assms obtain a b en w1 rows w2 pairs where
    1: "parse_window window = Inr (a, b)" "load_version E v w = (Inr en, w1)"
      "replay_rows a b w1 = (Inr rows, w2)" "summarize_historical pairs = Inr s" and
    2: "for_collect (\<lambda>row. bnd (simulate_row E en row) (\<lambda>d. ret (row, d))) rows w2 = (Inr pairs, w')"
    by (auto simp: simulate_historical_def bnd_Inr_iff)
  from load_version_Inr [OF 1(2)] obtain row raw where
    lv: "quiet w w1" "find_version v (w_versions w) = Some row"
      "map_of (w_snapshots w) (snapshot_path E v) = Some raw" "load_bytes E raw = Inr en"
      "x_sha256 E raw = pv_content_hash row" by blast
  from replay_rows_Inr [OF 1(3)] lv(1) have rows: "quiet w w2" "rows = replay_set a b w"
    by (auto simp: quiet_fields replay_set_def intro: quiet_trans)
  have "stays quiet (bnd (simulate_row E en r) (\<lambda>d. ret (r, d)))" for r
    by (intro quiet.stays_all simulate_row_quiet)
  from for_collect_Inr [OF 2 this] have "list_all2 (\<lambda>r p. \<exists>w3 w4. quiet w2 w3
      \<and> bnd (simulate_row E en r) (\<lambda>d. ret (r, d)) w3 = (Inr p, w4)) rows pairs" by blast
  then have "list_all2 (dry_run_of E en w) rows pairs"
    by (rule list_all2_mono) (auto simp: dry_run_of_def bnd_Inr_iff intro: quiet_trans [OF rows(1)])
  with that [OF 1(1) lv(2-5)] 1(4) rows(2) show ?thesis by simp
qed

lemma tally_total:
  "tally (\<lambda>(b, a). b = a) bs + tally (\<lambda>(b, a). b = Allow \<and> a = Deny) bs
      + tally (\<lambda>(b, a). b \<noteq> a \<and> a = HumanApprovalRequired) bs
      + tally (\<lambda>(b, a). (b = Deny \<or> b = Challenge) \<and> a = Allow) bs \<le> length bs
    \<and> tally (\<lambda>(b, a). b \<noteq> a) bs = length bs - tally (\<lambda>(b, a). b = a) bs
    \<and> tally (\<lambda>(b, a). b = a) bs \<le> length bs" for bs :: "(outcome \<times> outcome) list"
  by (induction bs) (auto simp: Suc_diff_le)

text \<open>
  C28: A simulation that returns ran a recorded revision, from snapshot bytes with the recorded
  hash, over exactly the replay set of the window (the first 10000 decision rows with a tool name in
  it, oldest first, of which those that carry arguments), each row paired with the dry run of its
  call under that revision. Its counters are exact: every row is counted as unchanged or not, the
  three named counters are the numbers of rows that moved from allow to deny, into human
  approval, and from deny or challenge to allow, never more than the rows that changed; up to ten
  changed rows are sampled.
\<close>
theorem simulation_faithful:
  assumes run: "simulate_historical E v window w = (Inr s, w')"
  shows "\<exists>a b en raw row pairs. parse_window window = Inr (a, b)
    \<and> find_version v (w_versions w) = Some row \<and> load_bytes E raw = Inr en
    \<and> map_of (w_snapshots w) (snapshot_path E v) = Some raw \<and> x_sha256 E raw = pv_content_hash row
    \<and> list_all2 (dry_run_of E en w) (replay_set a b w) pairs
    \<and> hs_total_replayed s = length pairs
    \<and> hs_unchanged s = tally (\<lambda>(b, a). b = a) (buckets pairs)
    \<and> hs_would_now_deny s = tally (\<lambda>(b, a). b = Allow \<and> a = Deny) (buckets pairs)
    \<and> hs_would_now_require_approval s = tally (\<lambda>(b, a). b \<noteq> a \<and> a = HumanApprovalRequired) (buckets pairs)
    \<and> hs_newly_allowed s = tally (\<lambda>(b, a). (b = Deny \<or> b = Challenge) \<and> a = Allow) (buckets pairs)
    \<and> hs_unchanged s + hs_would_now_deny s + hs_would_now_require_approval s + hs_newly_allowed s \<le> length pairs
    \<and> length (hs_sample_diffs s) = min SAMPLE_CAP (length pairs - hs_unchanged s)"
  using run
proof (rule simulate_historical_run)
  fix a b en raw row pairs
  assume 1: "parse_window window = Inr (a, b)" "find_version v (w_versions w) = Some row"
    "map_of (w_snapshots w) (snapshot_path E v) = Some raw" "load_bytes E raw = Inr en"
    "x_sha256 E raw = pv_content_hash row" "list_all2 (dry_run_of E en w) (replay_set a b w) pairs"
    and "summarize_historical pairs = Inr s"
  from summarize_loop [OF this(7) [unfolded summarize_historical_def]] have
    s: "hs_total_replayed s = length pairs" "hs_unchanged s = tally (\<lambda>(b, a). b = a) (buckets pairs)"
      "hs_would_now_deny s = tally (\<lambda>(b, a). b = Allow \<and> a = Deny) (buckets pairs)"
      "hs_would_now_require_approval s = tally (\<lambda>(b, a). b \<noteq> a \<and> a = HumanApprovalRequired) (buckets pairs)"
      "hs_newly_allowed s = tally (\<lambda>(b, a). (b = Deny \<or> b = Challenge) \<and> a = Allow) (buckets pairs)"
      "length (hs_sample_diffs s) = min SAMPLE_CAP (tally (\<lambda>(b, a). b \<noteq> a) (buckets pairs))"
    by auto
  have "length (buckets pairs) = length pairs" by (simp add: buckets_def)
  with tally_total [of "buckets pairs"] s have sums:
    "hs_unchanged s + hs_would_now_deny s + hs_would_now_require_approval s + hs_newly_allowed s \<le> length pairs"
    "length (hs_sample_diffs s) = min SAMPLE_CAP (length pairs - hs_unchanged s)" by simp_all
  show ?thesis
    by (intro exI [of _ a] exI [of _ b] exI [of _ en] exI [of _ raw] exI [of _ row] exI [of _ pairs] conjI 1 s sums)
qed

text \<open>A denied call of the day, replayed under the first revision.\<close>

definition demo_history :: world where
  "demo_history = snd (deny demo_files demo_session demo_write_call DENY_RBAC ''no grant'' [''rbac''] None None
     demo_reloaded)"

definition demo_simulated :: historical_simulation where
  "demo_simulated = (case fst (simulate_historical demo_files 1 ''1970-01-05..1970-1-5'' demo_history) of
     Inr s \<Rightarrow> s | Inl e \<Rightarrow> \<lparr>hs_total_replayed = 0, hs_would_now_deny = 0, hs_would_now_require_approval = 0,
        hs_newly_allowed = 0, hs_unchanged = 0, hs_sample_diffs = []\<rparr>)"

theorem simulation_faithful_witness:
  "hs_total_replayed demo_simulated = 1 \<and> hs_unchanged demo_simulated = 1 \<and> hs_sample_diffs demo_simulated = []"
proof -
  let ?m = "simulate_historical demo_files 1 ''1970-01-05..1970-1-5'' demo_history"
  have "(case fst ?m of Inr s \<Rightarrow> hs_total_replayed s = 1 \<and> hs_unchanged s = 1 | Inl e \<Rightarrow> False)" by code_simp
  then obtain s where s: "fst ?m = Inr s" "hs_total_replayed s = 1" "hs_unchanged s = 1"
    by (cases "fst ?m") auto
  then have "demo_simulated = s" "?m = (Inr s, snd ?m)" by (simp_all add: demo_simulated_def prod_eq_iff)
  with simulation_faithful [of demo_files, OF this(2)] s(2,3) show ?thesis by auto
qed

end
