(* ===== verification/Upstream.thy ===== *)
theory Upstream
  imports Interceptor
begin

text \<open>
  The connection to the upstream server (\<open>upstream_client.py\<close>): the command line split as
  \<open>shlex.split\<close> does, and the newline-delimited stream of messages in both directions. How a
  message is printed and parsed (\<open>JSONRPCMessage\<close>) is a parameter. The lemmas: what is written
  is read back, and a line over the limit ends the stream after the messages before it.
\<close>

section \<open>Command lines\<close>

text \<open>
  The lexer of \<open>shlex\<close> in POSIX mode: between words, in a word, inside a quote, after a backslash
  (in a word or inside double quotes). \<open>quoted\<close> says whether the word had a quote, so that an
  empty quoted word counts.
\<close>

datatype lex_state = Between | InWord | InQuote char | Escaped | EscapedIn char

definition shlex_space :: "char \<Rightarrow> bool" where
  "shlex_space c = (c = CHR 0x20 \<or> c = CHR 0x09 \<or> c = CHR 0x0D \<or> c = CHR 0x0A)"

definition shlex_quote :: "char \<Rightarrow> bool" where
  "shlex_quote c = (c = CHR 0x27 \<or> c = CHR 0x22)"

definition finish_word :: "string \<Rightarrow> bool \<Rightarrow> string list \<Rightarrow> string list" where
  "finish_word token quoted rest = (if token = [] \<and> \<not> quoted then rest else token # rest)"

fun shlex :: "lex_state \<Rightarrow> string \<Rightarrow> bool \<Rightarrow> string \<Rightarrow> string list res" where
  "shlex Between token quoted [] = Inr []"
| "shlex InWord token quoted [] = Inr (finish_word token quoted [])"
| "shlex (InQuote q) token quoted [] = Inl (ValueError ''No closing quotation'')"
| "shlex Escaped token quoted [] = Inl (ValueError ''No escaped character'')"
| "shlex (EscapedIn q) token quoted [] = Inl (ValueError ''No escaped character'')"
| "shlex Between token quoted (c # cs) =
     (if shlex_space c then shlex Between [] False cs
      else if c = CHR 0x5C then shlex Escaped [] False cs
      else if shlex_quote c then shlex (InQuote c) [] False cs
      else shlex InWord [c] False cs)"
| "shlex InWord token quoted (c # cs) =
     (if shlex_space c
      then res_bnd (shlex Between [] False cs) (\<lambda>rest. Inr (finish_word token quoted rest))
      else if shlex_quote c then shlex (InQuote c) token quoted cs
      else if c = CHR 0x5C then shlex Escaped token quoted cs
      else shlex InWord (token @ [c]) quoted cs)"
| "shlex (InQuote q) token quoted (c # cs) =
     (if c = q then shlex InWord token True cs
      else if c = CHR 0x5C \<and> q = CHR 0x22 then shlex (EscapedIn q) token True cs
      else shlex (InQuote q) (token @ [c]) True cs)"
| "shlex Escaped token quoted (c # cs) = shlex InWord (token @ [c]) quoted cs"
| "shlex (EscapedIn q) token quoted (c # cs) =
     shlex (InQuote q) (token @ (if c \<noteq> CHR 0x5C \<and> c \<noteq> q then [CHR 0x5C, c] else [c])) quoted cs"

definition shlex_split :: "string \<Rightarrow> string list res" where
  "shlex_split s = shlex Between [] False s"

text \<open>
  The program and its arguments. \<open>create_subprocess_exec\<close> without a program is a TypeError.
\<close>

definition argv :: "string \<Rightarrow> string list res" where
  "argv command =
     res_bnd (shlex_split command) (\<lambda>words. if words = [] then Inl TypeError else Inr words)"

section \<open>Messages\<close>

definition STREAM_LIMIT :: nat where "STREAM_LIMIT = 4 * 1024 * 1024"

definition encode :: "(rpc \<Rightarrow> string) \<Rightarrow> rpc \<Rightarrow> string" where
  "encode dump message = dump message @ [CHR 0x0A]"

text \<open>
  \<open>readline\<close> of what the upstream has written by the time it closes: up to and with the newline,
  or the last partial line. More than the limit before the newline, or without one, is a
  ValueError.
\<close>

definition readline :: "string \<Rightarrow> (string \<times> string) res" where
  "readline bytes =
     (let line = takeWhile (\<lambda>c. c \<noteq> CHR 0x0A) bytes; rest = dropWhile (\<lambda>c. c \<noteq> CHR 0x0A) bytes in
      if STREAM_LIMIT < length line
      then Inl (ValueError ''Separator is found, but chunk is longer than limit'')
      else Inr (line @ take 1 rest, drop 1 rest))"

lemma readline_shorter:
  assumes "readline bytes = Inr (line, rest)" and "line \<noteq> []"
  shows "length rest < length bytes"
proof -
  have "length (dropWhile (\<lambda>c. c \<noteq> CHR 0x0A) bytes) \<le> length bytes" by (rule length_dropWhile_le)
  moreover have "bytes \<noteq> []" using assms by (auto simp: readline_def split: if_splits)
  ultimately show ?thesis using assms
    by (cases bytes) (auto simp: readline_def Let_def split: if_splits intro: le_less_trans length_dropWhile_le)
qed

text \<open>The messages yielded, and the exception that ended the stream, if one did.\<close>

function read_messages :: "(string \<Rightarrow> rpc res) \<Rightarrow> string \<Rightarrow> rpc list \<times> exc option" where
  "read_messages parse bytes =
     (case readline bytes of
        Inl e \<Rightarrow> ([], Some e)
      | Inr (line, rest) \<Rightarrow>
          if line = [] then ([], None)
          else (case parse line of
                  Inl e \<Rightarrow> ([], Some e)
                | Inr message \<Rightarrow>
                    (case read_messages parse rest of (messages, ended) \<Rightarrow> (message # messages, ended))))"
  by pat_completeness auto

termination
  by (relation "measure (\<lambda>(parse, bytes). length bytes)") (auto dest: readline_shorter)

declare read_messages.simps [simp del]

section \<open>Facts\<close>

definition well_framed :: "(rpc \<Rightarrow> string) \<Rightarrow> (string \<Rightarrow> rpc res) \<Rightarrow> rpc \<Rightarrow> bool" where
  "well_framed dump parse m \<longleftrightarrow> CHR 0x0A \<notin> set (dump m) \<and> length (dump m) \<le> STREAM_LIMIT
     \<and> parse (encode dump m) = Inr m"

lemma readline_encoded:
  assumes "CHR 0x0A \<notin> set (dump m)"
  shows "readline (encode dump m @ rest) =
    (if STREAM_LIMIT < length (dump m)
     then Inl (ValueError ''Separator is found, but chunk is longer than limit'')
     else Inr (encode dump m, rest))"
proof -
  have "takeWhile (\<lambda>c. c \<noteq> CHR 0x0A) (encode dump m @ rest) = dump m"
    "dropWhile (\<lambda>c. c \<noteq> CHR 0x0A) (encode dump m @ rest) = CHR 0x0A # rest"
    using assms by (auto simp: encode_def takeWhile_append dropWhile_append)
  then show ?thesis by (simp add: readline_def encode_def)
qed

lemma read_messages_step:
  "well_framed dump parse m \<Longrightarrow> read_messages parse (encode dump m @ rest) =
     (case read_messages parse rest of (messages, ended) \<Rightarrow> (m # messages, ended))"
  by (subst read_messages.simps) (simp add: well_framed_def readline_encoded, simp add: encode_def)

lemma read_messages_written:
  "list_all (well_framed dump parse) ms \<Longrightarrow> read_messages parse (concat (map (encode dump) ms) @ rest) =
     (case read_messages parse rest of (messages, ended) \<Rightarrow> (ms @ messages, ended))"
  by (induction ms) (simp_all add: read_messages_step split: prod.split)

section \<open>Properties\<close>

text \<open>
  C40: What is written to a stream is read from it: well-framed messages come back in order and
  unchanged, and a message longer than the 4 MiB limit ends the stream with a ValueError after
  them, whatever follows it.
\<close>
theorem stream_round_trip:
  assumes "list_all (well_framed dump parse) ms"
  shows "read_messages parse (concat (map (encode dump) ms)) = (ms, None)
    \<and> (if CHR 0x0A \<notin> set (dump big) \<and> STREAM_LIMIT < length (dump big)
       then \<exists>s. read_messages parse (concat (map (encode dump) (ms @ [big])) @ rest) = (ms, Some (ValueError s))
       else True)"
proof -
  have "read_messages parse [] = ([], None)" by (simp add: read_messages.simps readline_def)
  then have "read_messages parse (concat (map (encode dump) ms)) = (ms, None)"
    using read_messages_written [OF assms, of "[]"] by simp
  moreover have "\<exists>s. read_messages parse (encode dump big @ rest) = ([], Some (ValueError s))"
    if "CHR 0x0A \<notin> set (dump big)" "STREAM_LIMIT < length (dump big)"
    using that by (subst read_messages.simps) (simp add: readline_encoded)
  ultimately show ?thesis using read_messages_written [OF assms, of "encode dump big @ rest"] by auto
qed

text \<open>A printer and a parser for notifications without parameters.\<close>

definition demo_dump :: "rpc \<Rightarrow> string" where
  "demo_dump m = (case m of Notification name params \<Rightarrow> filter (\<lambda>c. c \<noteq> CHR 0x0A) name | _ \<Rightarrow> ''?'')"

definition demo_parse_message :: "string \<Rightarrow> rpc res" where
  "demo_parse_message line = Inr (Notification (takeWhile (\<lambda>c. c \<noteq> CHR 0x0A) line) None)"

theorem stream_round_trip_witness:
  "read_messages demo_parse_message (concat (map (encode demo_dump) [Notification ''a'' None, Notification ''b'' None]))
     = ([Notification ''a'' None, Notification ''b'' None], None)"
proof -
  have "list_all (well_framed demo_dump demo_parse_message) [Notification ''a'' None, Notification ''b'' None]"
    by (simp add: well_framed_def demo_dump_def demo_parse_message_def encode_def STREAM_LIMIT_def)
  from stream_round_trip [OF this] show ?thesis by blast
qed

end
