(* ===== verification/Sessions.thy ===== *)
theory Sessions
  imports Simulator Upstream
begin

text \<open>
  Sessions (\<open>session_manager.py\<close>): the registry, the subprocess of each session, the idle key in
  Redis, the message pumps. Their state lies beside the world: \<open>hub\<close>. A subprocess is running,
  has exited, or has been collected; \<open>h_stubborn\<close> names those that ignore SIGTERM for longer than
  the grace period. The lemmas: the registry's invariant, that only a recorded session spawns a
  subprocess, that teardown, sweep and shutdown leave no subprocess running.
\<close>

datatype process_state = Running | Exited | Collected

record session =
  ss_id :: string
  ss_interceptor :: interceptor
  ss_process :: nat
  ss_task :: bool

record hub =
  h_world :: world
  h_sessions :: "(string \<times> session) list"
  h_processes :: "process_state list"
  h_stubborn :: "nat \<Rightarrow> bool"

type_synonym 'a hub_step = "(hub, 'a) act"

text \<open>A step of the world as a step of the hub.\<close>

definition in_world :: "'a step \<Rightarrow> 'a hub_step" where
  "in_world m = (\<lambda>h. case m (h_world h) of (r, w) \<Rightarrow> (r, h\<lparr>h_world := w\<rparr>))"

definition ProcessLookupError :: exc where
  "ProcessLookupError = OtherError ''ProcessLookupError''"

section \<open>Subprocesses\<close>

definition spawn :: "string \<Rightarrow> nat hub_step" where
  "spawn command =
     bnd (lift_res (argv command)) (\<lambda>args. \<lambda>h. case in_world (faulty OSError (ret ())) h of
       (Inl e, h1) \<Rightarrow> (Inl e, h1)
     | (Inr _, h1) \<Rightarrow> (Inr (length (h_processes h1)), h1\<lparr>h_processes := h_processes h1 @ [Running]\<rparr>))"

definition process_of :: "nat \<Rightarrow> hub \<Rightarrow> process_state" where
  "process_of pid h = (if pid < length (h_processes h) then h_processes h ! pid else Collected)"

definition set_process :: "nat \<Rightarrow> process_state \<Rightarrow> hub \<Rightarrow> hub" where
  "set_process pid s h = h\<lparr>h_processes := (h_processes h)[pid := s]\<rparr>"

text \<open>\<open>process.returncode is None\<close>: it has not been collected.\<close>

definition uncollected :: "nat \<Rightarrow> hub \<Rightarrow> bool" where
  "uncollected pid h = (process_of pid h \<noteq> Collected)"

text \<open>
  SIGTERM and SIGKILL: a process that has exited is not found. A running one dies of SIGKILL, and
  of SIGTERM unless it is stubborn.
\<close>

definition terminate :: "nat \<Rightarrow> unit hub_step" where
  "terminate pid = (\<lambda>h.
     if process_of pid h \<noteq> Running then (Inl ProcessLookupError, h)
     else (Inr (), if h_stubborn h pid then h else set_process pid Exited h))"

definition kill_process :: "nat \<Rightarrow> unit hub_step" where
  "kill_process pid = (\<lambda>h.
     if process_of pid h \<noteq> Running then (Inl ProcessLookupError, h)
     else (Inr (), set_process pid Exited h))"

text \<open>Waiting one grace period: whether the process was collected.\<close>

definition wait_process :: "nat \<Rightarrow> bool hub_step" where
  "wait_process pid = (\<lambda>h.
     if process_of pid h = Running then (Inr False, h) else (Inr True, set_process pid Collected h))"

section \<open>The registry\<close>

definition last_seen_key :: "string \<Rightarrow> string" where
  "last_seen_key session_id = ''session:'' @ session_id @ '':last_seen''"

definition get_session :: "string \<Rightarrow> session option hub_step" where
  "get_session session_id = gets (\<lambda>h. map_of (h_sessions h) session_id)"

definition touch :: "ext \<Rightarrow> string \<Rightarrow> unit hub_step" where
  "touch E session_id = in_world
     (bnd now (\<lambda>t. r_set_ex (last_seen_key session_id) (RNum \<lfloor>t\<rfloor>) (cf_session_idle_ttl (x_cfg E))))"

definition register :: "session \<Rightarrow> unit hub_step" where
  "register s = modify (\<lambda>h. h\<lparr>h_sessions := AList.update (ss_id s) s (h_sessions h)\<rparr>)"

definition create_session :: "ext \<Rightarrow> string \<Rightarrow> string \<Rightarrow> session hub_step" where
  "create_session E identity_id server_id =
     bnd (in_world the_engine) (\<lambda>en.
     case server_command en server_id of
       None \<Rightarrow> raise (LookupError (''unknown server '' @ py_repr server_id))
     | Some command \<Rightarrow>
         bnd (in_world (fresh_uuid E)) (\<lambda>session_id.
         bnd (in_world (audit_write E SESSION_START identity_id (Some server_id) None
                [(''session_id'', JStr session_id)] None)) (\<lambda>seq.
         bnd (spawn command) (\<lambda>pid.
         let s = \<lparr>ss_id = session_id,
                  ss_interceptor = \<lparr>ic_identity_id = identity_id, ic_server_id = server_id,
                    ic_session_id = session_id\<rparr>,
                  ss_process = pid, ss_task = False\<rparr>;
             running = s\<lparr>ss_task := True\<rparr> in
         bnd (register s) (\<lambda>_.
         bnd (touch E session_id) (\<lambda>_.
         bnd (register running) (\<lambda>_.
         ret running)))))))"

text \<open>Stopping a subprocess: SIGTERM, one grace period, SIGKILL.\<close>

definition stop_process :: "nat \<Rightarrow> unit hub_step" where
  "stop_process pid =
     try_catch
       (bnd (gets (uncollected pid)) (\<lambda>alive.
        if \<not> alive then ret ()
        else
          bnd (terminate pid) (\<lambda>_.
          bnd (wait_process pid) (\<lambda>collected.
          if collected then ret () else kill_process pid))))
       (\<lambda>e. if e = ProcessLookupError \<or> e = OSError then ret () else raise e)"

definition teardown :: "string \<Rightarrow> unit hub_step" where
  "teardown session_id =
     bnd (get_session session_id) (\<lambda>found.
     bnd (modify (\<lambda>h. h\<lparr>h_sessions := AList.delete session_id (h_sessions h)\<rparr>)) (\<lambda>_.
     case found of
       None \<Rightarrow> ret ()
     | Some s \<Rightarrow>
         bnd (stop_process (ss_process s)) (\<lambda>_.
         in_world (r_delete (last_seen_key session_id)))))"

section \<open>Sweeping and shutting down\<close>

definition r_exists :: "string \<Rightarrow> bool step" where
  "r_exists k = faulty RedisError (gets (\<lambda>w. r_live w k \<noteq> None))"

definition sweep_session :: "string \<Rightarrow> unit hub_step" where
  "sweep_session session_id =
     bnd (in_world (r_exists (last_seen_key session_id))) (\<lambda>seen.
     if \<not> seen then teardown session_id else ret ())"

definition sweep_once :: "unit hub_step" where
  "sweep_once =
     bnd (gets (\<lambda>h. map fst (h_sessions h))) (\<lambda>ids. for_each sweep_session ids)"

definition SWEEP_INTERVAL_S :: rat where "SWEEP_INTERVAL_S = 30"

text \<open>The sweep loop, for a number of rounds; an exception of a round ends it.\<close>

fun sweep_loop :: "nat \<Rightarrow> unit hub_step" where
  "sweep_loop 0 = ret ()"
| "sweep_loop (Suc n) =
     bnd (modify (\<lambda>h. h\<lparr>h_world := (h_world h)\<lparr>w_clock := w_clock (h_world h) + SWEEP_INTERVAL_S\<rparr>\<rparr>)) (\<lambda>_.
     bnd sweep_once (\<lambda>_. sweep_loop n))"

definition terminate_quietly :: "nat \<Rightarrow> unit hub_step" where
  "terminate_quietly pid =
     try_catch
       (bnd (gets (uncollected pid)) (\<lambda>alive. if alive then terminate pid else ret ()))
       (\<lambda>e. if e = ProcessLookupError \<or> e = OSError then ret () else raise e)"

definition kill_survivor :: "nat \<Rightarrow> unit hub_step" where
  "kill_survivor pid =
     bnd (gets (uncollected pid)) (\<lambda>alive.
     if alive
     then try_catch (kill_process pid) (\<lambda>e. if e = ProcessLookupError \<or> e = OSError then ret () else raise e)
     else ret ())"

definition shutdown_all :: "unit hub_step" where
  "shutdown_all =
     bnd (gets (\<lambda>h. map (\<lambda>(k, s). ss_process s) (h_sessions h))) (\<lambda>pids.
     bnd (modify (\<lambda>h. h\<lparr>h_sessions := []\<rparr>)) (\<lambda>_.
     bnd (for_each terminate_quietly pids) (\<lambda>_.
     bnd (gets (\<lambda>h. filter (\<lambda>pid. uncollected pid h) pids)) (\<lambda>alive.
     bnd (for_each (\<lambda>pid. bnd (wait_process pid) (\<lambda>_. ret ())) alive) (\<lambda>_.
     for_each kill_survivor alive)))))"

section \<open>The pumps\<close>

text \<open>
  One message of the client, or of the upstream. An exception ends the pump and with it the
  session; the result is what goes out, if anything does.
\<close>

definition or_teardown :: "string \<Rightarrow> 'a option hub_step \<Rightarrow> 'a option hub_step" where
  "or_teardown session_id m = try_catch m (\<lambda>e. bnd (teardown session_id) (\<lambda>_. ret None))"

definition client_to_upstream :: "ext \<Rightarrow> session \<Rightarrow> rpc \<Rightarrow> outgoing option hub_step" where
  "client_to_upstream E s message =
     or_teardown (ss_id s)
       (bnd (touch E (ss_id s)) (\<lambda>_.
        bnd (in_world (on_client_message E (ss_interceptor s) message)) (\<lambda>out.
        ret (Some out))))"

definition upstream_to_client :: "ext \<Rightarrow> session \<Rightarrow> rpc \<Rightarrow> rpc option hub_step" where
  "upstream_to_client E s message =
     or_teardown (ss_id s) (in_world (on_upstream_message E (ss_interceptor s) message))"

section \<open>The invariant of the registry\<close>

text \<open>
  Ids and subprocesses of registered sessions are their own, every session has its SESSION_START
  row in the log, and every running subprocess belongs to a registered session.
\<close>

definition session_recorded :: "ext \<Rightarrow> world \<Rightarrow> session \<Rightarrow> bool" where
  "session_recorded E w s \<longleftrightarrow> (\<exists>row \<in> set (w_audit w). \<exists>v.
     records E SESSION_START (ic_identity_id (ss_interceptor s)) (Some (ic_server_id (ss_interceptor s))) None
       [(''session_id'', JStr (ss_id s))] None v row)"

definition pids :: "hub \<Rightarrow> nat list" where
  "pids h = map (\<lambda>(k, s). ss_process s) (h_sessions h)"

definition session_ok :: "ext \<Rightarrow> hub \<Rightarrow> string \<Rightarrow> session \<Rightarrow> bool" where
  "session_ok E h k s \<longleftrightarrow> ss_id s = k \<and> ic_session_id (ss_interceptor s) = k
     \<and> ss_process s < length (h_processes h) \<and> session_recorded E (h_world h) s"

definition hub_ok :: "ext \<Rightarrow> hub \<Rightarrow> bool" where
  "hub_ok E h \<longleftrightarrow> distinct (map fst (h_sessions h)) \<and> distinct (pids h)
     \<and> (\<forall>(k, s) \<in> set (h_sessions h). session_ok E h k s)
     \<and> (\<forall>pid < length (h_processes h). h_processes h ! pid = Running \<longrightarrow> pid \<in> set (pids h))"

lemma session_recorded_grows: "session_recorded E w s \<Longrightarrow> log_grows w w' \<Longrightarrow> session_recorded E w' s"
  by (auto simp: session_recorded_def log_grows_def)

lemma hub_ok_grows:
  assumes "hub_ok E h" and "log_grows (h_world h) w"
  shows "hub_ok E (h\<lparr>h_world := w\<rparr>)"
  using assms session_recorded_grows [OF _ assms(2), of E]
  by (auto simp: hub_ok_def pids_def session_ok_def)

lemma in_world_keeps:
  assumes "stays log_grows m"
  shows "stays (keeps (hub_ok E)) (in_world m)"
proof (rule staysI)
  fix h r h'
  assume "in_world m h = (r, h')"
  then obtain w where "m (h_world h) = (r, w)" and h': "h' = h\<lparr>h_world := w\<rparr>"
    by (auto simp: in_world_def split: prod.splits)
  with assms have "log_grows (h_world h) w" by (auto intro: staysD)
  with h' show "keeps (hub_ok E) h h'" by (simp add: keeps_def hub_ok_grows)
qed

lemma set_process_same:
  assumes "process_of pid h = st" and "pid < length (h_processes h) \<or> st = Collected"
  shows "set_process pid st h = h"
proof -
  have "(h_processes h)[pid := st] = h_processes h"
    using assms by (cases "pid < length (h_processes h)") (auto simp: process_of_def list_update_beyond)
  then show ?thesis by (simp add: set_process_def)
qed

lemma still_running: "i < length ps \<Longrightarrow> ps[p := st] ! i = Running \<Longrightarrow> st \<noteq> Running \<Longrightarrow> ps ! i = Running \<and> i \<noteq> p"
  by (cases "i = p") auto

lemma process_of_bound: "process_of pid h \<noteq> Collected \<Longrightarrow> pid < length (h_processes h)"
  by (auto simp: process_of_def split: if_splits)

lemma set_process_processes [simp]: "h_processes (set_process pid st h) = (h_processes h)[pid := st]"
  by (simp add: set_process_def)

lemma stop_process_run: "\<exists>st. st \<noteq> Running \<and> stop_process pid h = (Inr (), set_process pid st h)"
proof (cases "process_of pid h")
  case Collected
  then have "set_process pid Collected h = h" by (simp add: set_process_same)
  with Collected show ?thesis
    by (intro exI [of _ Collected]) (simp add: stop_process_def uncollected_def try_catch_def)
next
  case Exited
  then have "set_process pid Exited h = h" using process_of_bound [of pid h] by (simp add: set_process_same)
  with Exited show ?thesis
    by (intro exI [of _ Exited]) (simp add: stop_process_def uncollected_def terminate_def try_catch_def bnd_def)
next
  case Running
  then have len: "pid < length (h_processes h)" by (auto simp: process_of_def split: if_splits)
  show ?thesis
  proof (cases "h_stubborn h pid")
    case True
    with Running show ?thesis
      by (intro exI [of _ Exited])
        (simp add: stop_process_def uncollected_def terminate_def wait_process_def kill_process_def
          try_catch_def bnd_def)
  next
    case False
    with Running len show ?thesis
      by (intro exI [of _ Collected])
        (simp add: stop_process_def uncollected_def terminate_def wait_process_def try_catch_def bnd_def
          process_of_def set_process_def)
  qed
qed

lemma terminate_quietly_run:
  "\<exists>ps. terminate_quietly pid h = (Inr (), h\<lparr>h_processes := ps\<rparr>) \<and> length ps = length (h_processes h)
     \<and> (\<forall>i < length ps. ps ! i = Running \<longrightarrow> h_processes h ! i = Running)"
proof (cases "process_of pid h = Running \<and> \<not> h_stubborn h pid")
  case True
  then have "terminate_quietly pid h = (Inr (), set_process pid Exited h)"
    by (simp add: terminate_quietly_def uncollected_def terminate_def try_catch_def bnd_def)
  then show ?thesis
    by (intro exI [of _ "(h_processes h)[pid := Exited]"])
      (auto simp: set_process_def dest: still_running)
next
  case False
  then have "terminate_quietly pid h = (Inr (), h)"
    by (auto simp: terminate_quietly_def uncollected_def terminate_def try_catch_def bnd_def)
  then show ?thesis by (intro exI [of _ "h_processes h"]) simp
qed

lemma kill_survivor_run: "\<exists>st. st \<noteq> Running \<and> kill_survivor pid h = (Inr (), set_process pid st h)"
proof (cases "process_of pid h = Running")
  case True
  then show ?thesis
    by (intro exI [of _ Exited]) (simp add: kill_survivor_def uncollected_def kill_process_def try_catch_def)
next
  case False
  have "set_process pid (process_of pid h) h = h"
    using process_of_bound [of pid h] by (intro set_process_same) auto
  with False show ?thesis
    by (intro exI [of _ "process_of pid h"])
      (auto simp: kill_survivor_def uncollected_def kill_process_def try_catch_def)
qed

lemma r_delete_run: "r_delete k w = (r, w') \<Longrightarrow> w_audit w' = w_audit w"
  by (cases "w_faults w") (auto simp: r_delete_def faulty_def split: if_splits)

lemma hub_ok_delete:
  assumes ok: "hub_ok E h" and s: "map_of (h_sessions h) k = Some s" and st: "st \<noteq> Running"
    and log: "w_audit w = w_audit (h_world h)"
  shows "hub_ok E (set_process (ss_process s) st (h\<lparr>h_sessions := AList.delete k (h_sessions h)\<rparr>)\<lparr>h_world := w\<rparr>)"
    (is "hub_ok E ?h")
proof -
  let ?del = "AList.delete k (h_sessions h)"
  have dist: "distinct (map fst (h_sessions h))" and distp: "distinct (pids h)" using ok by (simp_all add: hub_ok_def)
  have del: "?del = filter (\<lambda>p. fst p \<noteq> k) (h_sessions h)" by (auto simp: AList.delete_eq intro!: filter_cong)
  have sub: "set ?del \<subseteq> set (h_sessions h)" by (auto simp: del)
  have "distinct (map fst ?del)" using dist by (simp add: del distinct_map_filter)
  moreover have "distinct (pids ?h)"
    using distp by (simp add: pids_def set_process_def del distinct_map_filter)
  moreover have "session_ok E ?h j t" if "(j, t) \<in> set ?del" for j t
  proof -
    from that sub ok have "session_ok E h j t" by (auto simp: hub_ok_def)
    with log show ?thesis by (auto simp: session_ok_def session_recorded_def set_process_def)
  qed
  moreover have "pid \<in> set (pids ?h)" if "pid < length (h_processes h)"
      "(h_processes h)[ss_process s := st] ! pid = Running" for pid
  proof -
    from that st have ne: "pid \<noteq> ss_process s" by (auto simp: nth_list_update split: if_splits)
    with that ok have "pid \<in> set (pids h)" by (auto simp: hub_ok_def)
    then obtain j t where jt: "(j, t) \<in> set (h_sessions h)" "pid = ss_process t" by (auto simp: pids_def)
    with s dist have "j = k \<Longrightarrow> t = s" by (auto dest: map_of_SomeD eq_key_imp_eq_value)
    with ne jt have "j \<noteq> k" by auto
    with jt show ?thesis by (force simp: pids_def set_process_def del)
  qed
  ultimately show ?thesis by (auto simp: hub_ok_def set_process_def)
qed

lemma teardown_keeps: "stays (keeps (hub_ok E)) (teardown k)"
proof (rule staysI, unfold keeps_def, rule impI)
  fix h r h'
  assume run: "teardown k h = (r, h')" and ok: "hub_ok E h"
  let ?h1 = "h\<lparr>h_sessions := AList.delete k (h_sessions h)\<rparr>"
  show "hub_ok E h'"
  proof (cases "map_of (h_sessions h) k")
    case None
    then have "AList.delete k (h_sessions h) = h_sessions h"
      by (simp add: map_of_eq_None_iff delete_id)
    with run None ok show ?thesis by (simp add: teardown_def get_session_def)
  next
    case (Some s)
    obtain st where st: "st \<noteq> Running" "stop_process (ss_process s) ?h1 = (Inr (), set_process (ss_process s) st ?h1)"
      using stop_process_run by blast
    from run Some have "bnd (stop_process (ss_process s)) (\<lambda>_. in_world (r_delete (last_seen_key k))) ?h1 = (r, h')"
      by (simp add: teardown_def get_session_def)
    with st(2) have "in_world (r_delete (last_seen_key k)) (set_process (ss_process s) st ?h1) = (r, h')"
      by (simp add: bnd_def)
    then obtain w where "h' = set_process (ss_process s) st ?h1\<lparr>h_world := w\<rparr>"
      and "w_audit w = w_audit (h_world h)"
      by (auto simp: in_world_def set_process_def dest!: r_delete_run split: prod.splits)
    with hub_ok_delete [OF ok Some st(1)] show ?thesis by simp
  qed
qed

lemma touch_keeps: "stays (keeps (hub_ok E)) (touch F k)"
  unfolding touch_def by (intro in_world_keeps log_grows.blind_intros)

lemma r_exists_grows: "stays log_grows (r_exists k)"
  unfolding r_exists_def by (intro log_grows.stays_faulty log_grows.stays_gets)

lemma sweep_session_keeps: "stays (keeps (hub_ok E)) (sweep_session k)"
  unfolding sweep_session_def
  by (intro keeps.stays_all teardown_keeps in_world_keeps r_exists_grows)

lemma sweep_once_keeps: "stays (keeps (hub_ok E)) sweep_once"
  unfolding sweep_once_def by (intro keeps.stays_all sweep_session_keeps)

lemma or_teardown_keeps: "stays (keeps (hub_ok E)) m \<Longrightarrow> stays (keeps (hub_ok E)) (or_teardown k m)"
  unfolding or_teardown_def by (intro keeps.stays_all teardown_keeps)

lemma handled_log_grows: "stays handled m \<Longrightarrow> stays log_grows m"
  by (erule stays_mono) (auto simp: handled_def log_grows_def)

lemma client_to_upstream_keeps: "stays (keeps (hub_ok E)) (client_to_upstream F s message)"
  unfolding client_to_upstream_def
  by (intro or_teardown_keeps keeps.stays_all touch_keeps in_world_keeps handled_log_grows
      handled.stays_on_client_message)

lemma upstream_to_client_keeps: "stays (keeps (hub_ok E)) (upstream_to_client F s message)"
  unfolding upstream_to_client_def
  by (intro or_teardown_keeps in_world_keeps handled_log_grows handled.stays_on_upstream_message)

text \<open>Shutting down: the registry empties and no registered subprocess is left running.\<close>

lemma for_each_processes:
  assumes "\<And>x h. \<exists>ps. f x h = (Inr (), h\<lparr>h_processes := ps\<rparr>) \<and> length ps = length (h_processes h)
      \<and> (\<forall>i < length ps. ps ! i = Running \<longrightarrow> h_processes h ! i = Running \<and> \<not> P i x)"
  shows "\<exists>ps. for_each f xs h = (Inr (), h\<lparr>h_processes := ps\<rparr>) \<and> length ps = length (h_processes h)
      \<and> (\<forall>i < length ps. ps ! i = Running \<longrightarrow> h_processes h ! i = Running \<and> (\<forall>x \<in> set xs. \<not> P i x))"
proof (induction xs arbitrary: h)
  case Nil
  show ?case by (intro exI [of _ "h_processes h"]) simp
next
  case (Cons x xs)
  from assms [of x h] obtain ps where ps: "f x h = (Inr (), h\<lparr>h_processes := ps\<rparr>)"
    "length ps = length (h_processes h)"
    "\<And>i. i < length ps \<Longrightarrow> ps ! i = Running \<Longrightarrow> h_processes h ! i = Running \<and> \<not> P i x" by auto
  from Cons.IH [of "h\<lparr>h_processes := ps\<rparr>"] obtain qs where
    "for_each f xs (h\<lparr>h_processes := ps\<rparr>) = (Inr (), h\<lparr>h_processes := qs\<rparr>)" "length qs = length ps"
    "\<And>i. i < length qs \<Longrightarrow> qs ! i = Running \<Longrightarrow> ps ! i = Running \<and> (\<forall>x \<in> set xs. \<not> P i x)" by auto
  with ps show ?case by (intro exI [of _ qs]) (simp add: bnd_run_Inr)
qed

lemma wait_process_run:
  "\<exists>ps. bnd (wait_process p) (\<lambda>_. ret ()) h = (Inr (), h\<lparr>h_processes := ps\<rparr>) \<and> length ps = length (h_processes h)
     \<and> (\<forall>i < length ps. ps ! i = Running \<longrightarrow> h_processes h ! i = Running \<and> \<not> False)"
proof (cases "process_of p h = Running")
  case True
  then show ?thesis by (intro exI [of _ "h_processes h"]) (simp add: wait_process_def bnd_def)
next
  case False
  then show ?thesis
    by (intro exI [of _ "(h_processes h)[p := Collected]"])
      (auto simp: wait_process_def bnd_def set_process_def dest: still_running)
qed

lemma shutdown_all_run:
  "\<exists>ps. shutdown_all h = (Inr (), h\<lparr>h_sessions := [], h_processes := ps\<rparr>) \<and> length ps = length (h_processes h)
     \<and> (\<forall>i < length ps. ps ! i = Running \<longrightarrow> h_processes h ! i = Running \<and> i \<notin> set (pids h))"
proof -
  let ?ids = "pids h" and ?h0 = "h\<lparr>h_sessions := []\<rparr>"
  have "\<exists>ps. terminate_quietly x h = (Inr (), h\<lparr>h_processes := ps\<rparr>) \<and> length ps = length (h_processes h)
      \<and> (\<forall>i < length ps. ps ! i = Running \<longrightarrow> h_processes h ! i = Running \<and> \<not> False)" for x h
    using terminate_quietly_run [of x h] by simp
  from for_each_processes [of terminate_quietly "\<lambda>i x. False", OF this, of ?ids ?h0] obtain ps1 where
    1: "for_each terminate_quietly ?ids ?h0 = (Inr (), ?h0\<lparr>h_processes := ps1\<rparr>)" "length ps1 = length (h_processes h)"
      "\<And>i. i < length ps1 \<Longrightarrow> ps1 ! i = Running \<Longrightarrow> h_processes h ! i = Running" by auto
  let ?h1 = "?h0\<lparr>h_processes := ps1\<rparr>"
  define alive where "alive = filter (\<lambda>pid. uncollected pid ?h1) ?ids"
  from for_each_processes [of "\<lambda>pid. bnd (wait_process pid) (\<lambda>_. ret ())" "\<lambda>i x. False", OF wait_process_run, of alive ?h1]
  obtain ps2 where
    2: "for_each (\<lambda>pid. bnd (wait_process pid) (\<lambda>_. ret ())) alive ?h1 = (Inr (), ?h1\<lparr>h_processes := ps2\<rparr>)"
      "length ps2 = length ps1" "\<And>i. i < length ps2 \<Longrightarrow> ps2 ! i = Running \<Longrightarrow> ps1 ! i = Running" by auto
  let ?h2 = "?h1\<lparr>h_processes := ps2\<rparr>"
  have "\<exists>ps. kill_survivor x h = (Inr (), h\<lparr>h_processes := ps\<rparr>) \<and> length ps = length (h_processes h)
      \<and> (\<forall>i < length ps. ps ! i = Running \<longrightarrow> h_processes h ! i = Running \<and> \<not> i = x)" for x h
  proof -
    from kill_survivor_run [of x h] obtain st where st: "st \<noteq> Running" "kill_survivor x h = (Inr (), set_process x st h)"
      by blast
    then show ?thesis
      by (intro exI [of _ "(h_processes h)[x := st]"]) (auto simp: set_process_def dest: still_running)
  qed
  from for_each_processes [of kill_survivor "\<lambda>i x. i = x", OF this, of alive ?h2] obtain ps3 where
    3: "for_each kill_survivor alive ?h2 = (Inr (), ?h2\<lparr>h_processes := ps3\<rparr>)" "length ps3 = length ps2"
      "\<And>i. i < length ps3 \<Longrightarrow> ps3 ! i = Running \<Longrightarrow> ps2 ! i = Running \<and> (\<forall>x \<in> set alive. \<not> i = x)"
    by auto
  have "i \<notin> set ?ids \<and> h_processes h ! i = Running" if "i < length ps3" "ps3 ! i = Running" for i
  proof -
    from 3(3) [OF that] 2(3) 3(2) that have r1: "ps1 ! i = Running" "i \<notin> set alive" by auto
    moreover have "uncollected i ?h1" using r1 that 3(2) 2(2) by (simp add: uncollected_def process_of_def)
    ultimately show ?thesis using 1(3) [of i] that 3(2) 2(2) by (auto simp: alive_def)
  qed
  moreover have "shutdown_all h = (Inr (), ?h2\<lparr>h_processes := ps3\<rparr>)"
    using 3(1)
    by (simp add: shutdown_all_def pids_def [symmetric] alive_def [symmetric]
        bnd_run_Inr [of "for_each terminate_quietly (pids h)", OF 1(1)]
        bnd_run_Inr [of "for_each (\<lambda>pid. bnd (wait_process pid) (\<lambda>_. ret ())) alive", OF 2(1)])
  ultimately show ?thesis using 1(2) 2(2) 3(2) by (intro exI [of _ ps3]) simp
qed

lemma shutdown_all_keeps: "stays (keeps (hub_ok E)) shutdown_all"
proof (rule staysI)
  fix h r h' assume run: "shutdown_all h = (r, h')"
  obtain ps where "shutdown_all h = (Inr (), h\<lparr>h_sessions := [], h_processes := ps\<rparr>)"
    "length ps = length (h_processes h)"
    "\<And>i. i < length ps \<Longrightarrow> ps ! i = Running \<Longrightarrow> h_processes h ! i = Running \<and> i \<notin> set (pids h)"
    using shutdown_all_run [of h] by blast
  moreover from this have "hub_ok E h \<Longrightarrow> \<forall>i < length ps. ps ! i \<noteq> Running" by (auto simp: hub_ok_def)
  ultimately show "keeps (hub_ok E) h h'" using run
    by (auto simp: keeps_def) (simp add: hub_ok_def pids_def)
qed

text \<open>Creating a session: what a created one is, and what a failed creation leaves.\<close>

lemma audit_write_recorded:
  assumes "audit_write E SESSION_START i (Some v) None [(''session_id'', JStr k)] None w = (Inr seq, w')"
  shows "log_grows w w' \<and> (\<exists>row. w_audit w' \<noteq> [] \<and> last (w_audit w') = row
    \<and> records E SESSION_START i (Some v) None [(''session_id'', JStr k)] None (en_version (w_engine w)) row)"
  using audit_write_Inr [OF assms] by (auto simp: log_grows_def)

lemma spawn_run:
  assumes "spawn c h = (r, h')"
  shows "\<exists>w. quiet (h_world h) w \<and>
     ((\<exists>e. r = Inl e \<and> h' = h\<lparr>h_world := w\<rparr>)
      \<or> r = Inr (length (h_processes h)) \<and> h' = h\<lparr>h_world := w, h_processes := h_processes h @ [Running]\<rparr>)"
proof (cases "argv c")
  case (Inl e)
  with assms show ?thesis by (intro exI [of _ "h_world h"]) (auto simp: spawn_def bnd_def)
next
  case (Inr args)
  show ?thesis
  proof (cases "w_faults (h_world h)")
    case Nil
    with assms Inr show ?thesis
      by (intro exI [of _ "h_world h"]) (auto simp: spawn_def in_world_def bnd_def)
  next
    case (Cons f fs)
    have "quiet (h_world h) ((h_world h)\<lparr>w_faults := fs\<rparr>)" unfolding quiet_def by blast
    with assms Inr Cons show ?thesis
      by (intro exI [of _ "(h_world h)\<lparr>w_faults := fs\<rparr>"])
        (auto simp: spawn_def in_world_def faulty_def bnd_def split: if_splits)
  qed
qed

lemma update_new: "map_of xs k = None \<Longrightarrow> AList.update k s xs = xs @ [(k, s)]"
  by (induction xs) auto

lemma hub_ok_register:
  assumes ok: "hub_ok E h" and new: "map_of (h_sessions h) k = None" and log: "log_grows (h_world h) w"
    and s: "ss_id s = k" "ic_session_id (ss_interceptor s) = k" "ss_process s = length (h_processes h)"
    and rec: "session_recorded E w s"
  shows "hub_ok E (h\<lparr>h_world := w, h_processes := h_processes h @ [Running],
    h_sessions := AList.update k s (h_sessions h)\<rparr>)"
proof -
  note up = update_new [OF new, of s]
  have bound: "ss_process t < length (h_processes h)" if "(j, t) \<in> set (h_sessions h)" for j t
    using that ok by (auto simp: hub_ok_def session_ok_def)
  show ?thesis
    using ok new s rec session_recorded_grows [OF _ log] bound
    by (auto simp: hub_ok_def up pids_def session_ok_def map_of_eq_None_iff nth_append less_Suc_eq)
qed

text \<open>
  What the creation comes to: nothing is spawned before the SESSION_START row is in the log; from
  the spawn on the session is registered, whether or not its idle key could be set.
\<close>

lemma create_session_run:
  assumes run: "create_session E i v h = (r, h')"
    and fresh: "map_of (h_sessions h) (x_uuid E (w_uuids (h_world h))) = None"
  shows "(\<exists>e w. r = Inl e \<and> h' = h\<lparr>h_world := w\<rparr> \<and> log_grows (h_world h) w)
    \<or> (\<exists>s w row. log_grows (h_world h) w \<and> w_audit w \<noteq> [] \<and> row = last (w_audit w)
        \<and> records E SESSION_START i (Some v) None [(''session_id'', JStr (ss_id s))] None
            (en_version (w_engine (h_world h))) row
        \<and> ss_id s = x_uuid E (w_uuids (h_world h))
        \<and> ss_interceptor s = \<lparr>ic_identity_id = i, ic_server_id = v, ic_session_id = ss_id s\<rparr>
        \<and> ss_process s = length (h_processes h) \<and> server_command (w_engine (h_world h)) v \<noteq> None
        \<and> h' = h\<lparr>h_world := w, h_processes := h_processes h @ [Running],
            h_sessions := AList.update (ss_id s) s (h_sessions h)\<rparr>
        \<and> (r = Inr s \<or> (\<exists>e. r = Inl e)))"
proof (cases "server_command (w_engine (h_world h)) v")
  case None
  with run have "\<exists>e. r = Inl e" "h' = h\<lparr>h_world := h_world h\<rparr>"
    by (auto simp: create_session_def in_world_def the_engine_def bnd_def)
  then show ?thesis by (intro disjI1) (auto intro!: exI [of _ "h_world h"] simp: log_grows_def)
next
  case (Some command)
  let ?w0 = "(h_world h)\<lparr>w_uuids := Suc (w_uuids (h_world h))\<rparr>" and ?k = "x_uuid E (w_uuids (h_world h))"
  let ?append = "audit_write E SESSION_START i (Some v) None [(''session_id'', JStr ?k)] None"
  obtain r1 w1 where aw: "?append ?w0 = (r1, w1)" by fastforce
  show ?thesis
  proof (cases r1)
    case (Inl e)
    with run Some aw have "r = Inl e" "h' = h\<lparr>h_world := w1\<rparr>"
      by (auto simp: create_session_def in_world_def the_engine_def fresh_uuid_def bnd_def)
    moreover have "log_grows (h_world h) w1"
      using staysD [OF log_grows.stays_audit_write aw] by (simp add: log_grows_def)
    ultimately show ?thesis by blast
  next
    case (Inr seq)
    with aw have w1: "log_grows (h_world h) w1" and row: "w_audit w1 \<noteq> []"
      "records E SESSION_START i (Some v) None [(''session_id'', JStr ?k)] None (en_version (w_engine (h_world h)))
         (last (w_audit w1))"
      using audit_write_recorded [of E i v ?k ?w0 seq w1] by (auto simp: log_grows_def)
    obtain r2 h2 where sp: "spawn command (h\<lparr>h_world := w1\<rparr>) = (r2, h2)" by fastforce
    from spawn_run [OF sp] obtain w2 where q2: "quiet w1 w2"
      and h2: "(\<exists>e. r2 = Inl e \<and> h2 = h\<lparr>h_world := w2\<rparr>)
        \<or> r2 = Inr (length (h_processes h)) \<and> h2 = h\<lparr>h_world := w2, h_processes := h_processes h @ [Running]\<rparr>"
      by auto
    have w2: "log_grows (h_world h) w2" using w1 q2 by (simp add: log_grows_def quiet_fields)
    from h2 show ?thesis
    proof
      assume "\<exists>e. r2 = Inl e \<and> h2 = h\<lparr>h_world := w2\<rparr>"
      with run Some aw Inr sp have "\<exists>e. r = Inl e" "h' = h\<lparr>h_world := w2\<rparr>"
        by (auto simp: create_session_def in_world_def the_engine_def fresh_uuid_def bnd_def)
      with w2 show ?thesis by blast
    next
      assume ok: "r2 = Inr (length (h_processes h)) \<and> h2 = h\<lparr>h_world := w2, h_processes := h_processes h @ [Running]\<rparr>"
      define s where "s = \<lparr>ss_id = ?k, ss_interceptor = \<lparr>ic_identity_id = i, ic_server_id = v, ic_session_id = ?k\<rparr>,
        ss_process = length (h_processes h), ss_task = False\<rparr>"
      let ?h3 = "h2\<lparr>h_sessions := AList.update ?k s (h_sessions h2)\<rparr>"
      obtain r3 h3 where t: "touch E ?k ?h3 = (r3, h3)" by fastforce
      then obtain w3 where w3: "h3 = ?h3\<lparr>h_world := w3\<rparr>" and a3: "w_audit w3 = w_audit w2"
        using ok by (cases "w_faults w2")
          (auto simp: touch_def in_world_def bnd_def now_def r_set_ex_def faulty_def split: if_splits prod.splits)
      have l3: "log_grows (h_world h) w3" using w2 a3 by (simp add: log_grows_def)
      have last3: "w_audit w3 = w_audit w1" using a3 q2 by (simp add: quiet_fields)
      have head: "create_session E i v h = bnd (register s) (\<lambda>_. bnd (touch E ?k) (\<lambda>_.
          bnd (register (s\<lparr>ss_task := True\<rparr>)) (\<lambda>_. ret (s\<lparr>ss_task := True\<rparr>)))) h2"
        using Some aw Inr sp ok unfolding create_session_def Let_def s_def session.update_convs
        by (simp add: in_world_def the_engine_def fresh_uuid_def bnd_def)
      show ?thesis
      proof (cases r3)
        case (Inl e)
        with head run t have "r = Inl e" "h' = h3"
          by (auto simp: register_def bnd_def s_def)
        with w3 ok l3 last3 row Some s_def show ?thesis
          by (intro disjI2 exI [of _ s] exI [of _ w3] exI [of _ "last (w_audit w1)"]) simp
      next
        case (Inr u)
        let ?s = "s\<lparr>ss_task := True\<rparr>"
        from head run t Inr have "r = Inr ?s" "h' = h3\<lparr>h_sessions := AList.update ?k ?s (h_sessions h3)\<rparr>"
          by (auto simp: register_def bnd_def s_def)
        with w3 ok l3 last3 row Some s_def show ?thesis
          by (intro disjI2 exI [of _ ?s] exI [of _ w3] exI [of _ "last (w_audit w1)"])
            (simp add: update_new [OF fresh] update_last [OF fresh])
      qed
    qed
  qed
qed

lemma create_session_keeps:
  assumes run: "create_session E i v h = (r, h')" and ok: "hub_ok E h"
    and fresh: "map_of (h_sessions h) (x_uuid E (w_uuids (h_world h))) = None"
  shows "hub_ok E h'"
  using create_session_run [OF run fresh]
proof
  assume "\<exists>e w. r = Inl e \<and> h' = h\<lparr>h_world := w\<rparr> \<and> log_grows (h_world h) w"
  with ok show ?thesis by (auto intro: hub_ok_grows)
next
  assume "\<exists>s w row. log_grows (h_world h) w \<and> w_audit w \<noteq> [] \<and> row = last (w_audit w)
        \<and> records E SESSION_START i (Some v) None [(''session_id'', JStr (ss_id s))] None
            (en_version (w_engine (h_world h))) row
        \<and> ss_id s = x_uuid E (w_uuids (h_world h))
        \<and> ss_interceptor s = \<lparr>ic_identity_id = i, ic_server_id = v, ic_session_id = ss_id s\<rparr>
        \<and> ss_process s = length (h_processes h) \<and> server_command (w_engine (h_world h)) v \<noteq> None
        \<and> h' = h\<lparr>h_world := w, h_processes := h_processes h @ [Running],
            h_sessions := AList.update (ss_id s) s (h_sessions h)\<rparr>
        \<and> (r = Inr s \<or> (\<exists>e. r = Inl e))"
  then obtain s :: session and w row where s: "log_grows (h_world h) w" "w_audit w \<noteq> []" "row = last (w_audit w)"
    "records E SESSION_START i (Some v) None [(''session_id'', JStr (ss_id s))] None
       (en_version (w_engine (h_world h))) row"
    "ss_id s = x_uuid E (w_uuids (h_world h))"
    "ss_interceptor s = \<lparr>ic_identity_id = i, ic_server_id = v, ic_session_id = ss_id s\<rparr>"
    "ss_process s = length (h_processes h)"
    "h' = h\<lparr>h_world := w, h_processes := h_processes h @ [Running],
        h_sessions := AList.update (ss_id s) s (h_sessions h)\<rparr>"
    by blast
  have "session_recorded E w s"
    using s(2,3,4,6) last_in_set [OF s(2)] by (auto simp: session_recorded_def)
  moreover have "ic_session_id (ss_interceptor s) = ss_id s" using s(6) by simp
  ultimately show ?thesis
    unfolding s(8) using fresh [folded s(5)] by (intro hub_ok_register [OF ok _ s(1) refl _ s(7)])
qed

text \<open>
  A sweep with Redis reachable, session by session. Whether a session's idle key is still alive
  at a time only gets worse as time passes, and reaping a session leaves the other keys alone.
\<close>

definition seen_at :: "rat \<Rightarrow> hub \<Rightarrow> string \<Rightarrow> bool" where
  "seen_at t h k \<longleftrightarrow> (case w_redis (h_world h) (last_seen_key k) of
     None \<Rightarrow> False | Some (v, None) \<Rightarrow> True | Some (v, Some e) \<Rightarrow> t < e)"

definition seen :: "hub \<Rightarrow> string \<Rightarrow> bool" where
  "seen h k \<longleftrightarrow> r_live (h_world h) (last_seen_key k) \<noteq> None"

lemma seen_now: "seen h k = seen_at (w_clock (h_world h)) h k"
  by (auto simp: seen_def seen_at_def r_live_def split: option.splits if_splits)

lemma seen_at_mono: "seen_at t h k \<Longrightarrow> s \<le> t \<Longrightarrow> seen_at s h k"
  by (auto simp: seen_at_def split: option.splits)

lemma last_seen_key_inj: "last_seen_key a = last_seen_key b \<Longrightarrow> a = b"
  by (simp add: last_seen_key_def)

text \<open>What a sweep without faults leaves: the clock, the fault schedule, the keys from now on.\<close>

definition same_keys :: "hub \<Rightarrow> hub \<Rightarrow> bool" where
  "same_keys h h' \<longleftrightarrow> w_faults (h_world h') = [] \<and> w_clock (h_world h') = w_clock (h_world h)
     \<and> (\<forall>j. \<forall>t \<ge> w_clock (h_world h). seen_at t h' j = seen_at t h j)"

lemma same_keys_trans: "same_keys u v \<Longrightarrow> same_keys v w \<Longrightarrow> same_keys u w"
  by (simp add: same_keys_def)

lemma same_keys_seen: "same_keys h h' \<Longrightarrow> seen h' k = seen h k"
  by (simp add: same_keys_def seen_now)

lemma sweep_session_calm:
  assumes calm: "w_faults (h_world h) = []"
  shows "\<exists>h'. sweep_session k h = (Inr (), h') \<and> same_keys h h'
    \<and> h_sessions h' = (if seen h k then h_sessions h else AList.delete k (h_sessions h))"
proof (cases "seen h k")
  case True
  with calm show ?thesis
    by (auto simp: sweep_session_def in_world_def r_exists_def bnd_def seen_def same_keys_def)
next
  case False
  let ?h1 = "h\<lparr>h_sessions := AList.delete k (h_sessions h)\<rparr>"
  from False calm have sw: "sweep_session k h = teardown k h"
    by (simp add: sweep_session_def in_world_def r_exists_def bnd_def seen_def)
  show ?thesis
  proof (cases "map_of (h_sessions h) k")
    case None
    then have "teardown k h = (Inr (), ?h1)" by (simp add: teardown_def get_session_def)
    with sw False calm show ?thesis by (intro exI [of _ ?h1]) (simp add: same_keys_def seen_at_def)
  next
    case (Some s)
    obtain st where st: "stop_process (ss_process s) ?h1 = (Inr (), set_process (ss_process s) st ?h1)"
      using stop_process_run by blast
    let ?h2 = "set_process (ss_process s) st ?h1\<lparr>h_world := r_put (last_seen_key k) None (h_world h)\<rparr>"
    from Some st calm have "teardown k h = (Inr (), ?h2)"
      by (simp add: teardown_def get_session_def bnd_run_Inr [of "stop_process (ss_process s)", OF st]
          in_world_def r_delete_def set_process_def)
    moreover have "seen_at t ?h2 j = seen_at t h j" if t: "w_clock (h_world h) \<le> t" for t j
    proof -
      have "\<not> seen_at t h k" using False seen_at_mono [OF _ t, of h k] by (auto simp: seen_now)
      then show ?thesis by (cases "j = k") (auto simp: seen_at_def r_put_def dest: last_seen_key_inj)
    qed
    then have "same_keys h ?h2" using calm by (simp add: same_keys_def r_put_def)
    ultimately show ?thesis using sw False by (intro exI [of _ ?h2]) (simp add: set_process_def)
  qed
qed

lemma sweep_all_calm:
  assumes "w_faults (h_world h) = []"
  shows "\<exists>h'. for_each sweep_session ks h = (Inr (), h') \<and> same_keys h h'
    \<and> h_sessions h' = filter (\<lambda>(k, s). k \<notin> set ks \<or> seen h k) (h_sessions h)"
  using assms
proof (induction ks arbitrary: h)
  case Nil
  then show ?case by (simp add: same_keys_def)
next
  case (Cons k ks)
  from sweep_session_calm [OF Cons.prems, of k] obtain h1 where
    1: "sweep_session k h = (Inr (), h1)" "same_keys h h1"
      "h_sessions h1 = (if seen h k then h_sessions h else AList.delete k (h_sessions h))" by blast
  have s1: "h_sessions h1 = filter (\<lambda>(j, s). j \<noteq> k \<or> seen h j) (h_sessions h)"
    using 1(3) by (auto simp: AList.delete_eq intro!: filter_cong filter_True [symmetric])
  from Cons.IH [of h1] 1(2) obtain h2 where
    2: "for_each sweep_session ks h1 = (Inr (), h2)" "same_keys h1 h2"
      "h_sessions h2 = filter (\<lambda>(k, s). k \<notin> set ks \<or> seen h1 k) (h_sessions h1)"
    by (auto simp: same_keys_def)
  have "h_sessions h2 = filter (\<lambda>(j, s). j \<notin> set (k # ks) \<or> seen h j) (h_sessions h)"
    unfolding 2(3) s1 using same_keys_seen [OF 1(2)] by (auto intro!: filter_cong)
  moreover have "for_each sweep_session (k # ks) h = (Inr (), h2)" using 1(1) 2(1) by (simp add: bnd_run_Inr)
  ultimately show ?case using same_keys_trans [OF 1(2) 2(2)] by blast
qed

lemma sweep_once_calm:
  assumes "w_faults (h_world h) = []"
  shows "\<exists>h'. sweep_once h = (Inr (), h') \<and> same_keys h h'
    \<and> h_sessions h' = filter (\<lambda>(k, s). seen h k) (h_sessions h)"
proof -
  from sweep_all_calm [OF assms, of "map fst (h_sessions h)"] obtain h' where
    "for_each sweep_session (map fst (h_sessions h)) h = (Inr (), h')" "same_keys h h'"
    and ss: "h_sessions h' = filter (\<lambda>(k, s). k \<notin> set (map fst (h_sessions h)) \<or> seen h k) (h_sessions h)"
    by blast
  moreover have "h_sessions h' = filter (\<lambda>(k, s). seen h k) (h_sessions h)"
    unfolding ss by (rule filter_cong) force+
  ultimately show ?thesis by (simp add: sweep_once_def)
qed

lemma sweep_loop_calm:
  assumes "w_faults (h_world h) = []"
  shows "\<exists>h'. sweep_loop (Suc n) h = (Inr (), h')
    \<and> h_sessions h' = filter (\<lambda>(k, s). seen_at (w_clock (h_world h) + SWEEP_INTERVAL_S * of_nat (Suc n)) h k)
        (h_sessions h)"
  using assms
proof (induction n arbitrary: h)
  let ?later = "\<lambda>h. h\<lparr>h_world := (h_world h)\<lparr>w_clock := w_clock (h_world h) + SWEEP_INTERVAL_S\<rparr>\<rparr>"
  have round: "\<exists>h1. sweep_once (?later h) = (Inr (), h1) \<and> same_keys (?later h) h1
      \<and> h_sessions h1 = filter (\<lambda>(k, s). seen_at (w_clock (h_world h) + SWEEP_INTERVAL_S) h k) (h_sessions h)"
    if "w_faults (h_world h) = []" for h
    using sweep_once_calm [of "?later h"] that by (simp add: seen_now seen_at_def)
  {
    case 0
    from round [OF 0] show ?case by (auto simp: bnd_run_Inr)
  next
    case (Suc n)
    let ?t = "w_clock (h_world h) + SWEEP_INTERVAL_S"
      and ?stop = "w_clock (h_world h) + SWEEP_INTERVAL_S * of_nat (Suc (Suc n))"
    from round [OF Suc.prems] obtain h1 where
      1: "sweep_once (?later h) = (Inr (), h1)" "same_keys (?later h) h1"
        "h_sessions h1 = filter (\<lambda>(k, s). seen_at ?t h k) (h_sessions h)" by blast
    from Suc.IH [of h1] 1(2) obtain h2 where
      2: "sweep_loop (Suc n) h1 = (Inr (), h2)"
        "h_sessions h2 = filter (\<lambda>(k, s). seen_at (w_clock (h_world h1) + SWEEP_INTERVAL_S * of_nat (Suc n)) h1 k)
          (h_sessions h1)"
      by (auto simp: same_keys_def)
    have t: "?t \<le> ?stop" by (simp add: SWEEP_INTERVAL_S_def algebra_simps)
    have "w_clock (h_world h1) + SWEEP_INTERVAL_S * of_nat (Suc n) = ?stop"
      using 1(2) by (simp add: same_keys_def algebra_simps)
    moreover have "seen_at ?stop h1 k = seen_at ?stop h k" for k
      using 1(2) t by (simp add: same_keys_def seen_at_def)
    ultimately have "h_sessions h2 = filter (\<lambda>(k, s). seen_at ?stop h k) (h_sessions h)"
      unfolding 2(2) 1(3) using seen_at_mono [OF _ t, of h] by (auto intro!: filter_cong)
    moreover have "sweep_loop (Suc (Suc n)) h = (Inr (), h2)"
      using 1(1) 2(1) by (simp add: bnd_run_Inr del: sweep_loop.simps(2) add: sweep_loop.simps(2) [of "Suc n"])
    ultimately show ?case by blast
  }
qed

lemma sweep_loop_keeps: "stays (keeps (hub_ok E)) (sweep_loop n)"
proof (induction n)
  case 0
  show ?case unfolding sweep_loop.simps by (rule keeps.stays_ret)
next
  case (Suc n)
  have "stays (keeps (hub_ok E)) (modify (\<lambda>h. h\<lparr>h_world := (h_world h)\<lparr>w_clock := t h\<rparr>\<rparr>))" for t
    by (simp add: stays_def keeps_def hub_ok_grows log_grows_def)
  with Suc show ?case unfolding sweep_loop.simps by (intro keeps.stays_all sweep_once_keeps)
qed

section \<open>Properties\<close>

definition demo_hub :: hub where
  "demo_hub = \<lparr>h_world = demo_world, h_sessions = [], h_processes = [], h_stubborn = (\<lambda>_. True)\<rparr>"

definition demo_live :: hub where
  "demo_live = snd (create_session demo ''ops'' ''srv'' demo_hub)"

lemma demo_hub_ok: "hub_ok demo demo_hub"
  by (simp add: demo_hub_def hub_ok_def pids_def)

lemma demo_live_ok: "hub_ok demo demo_live"
  unfolding demo_live_def
  by (rule create_session_keeps [OF prod.collapse [symmetric] demo_hub_ok]) (simp add: demo_hub_def)

lemma demo_live_run:
  "map fst (h_sessions demo_live) = [''id0''] \<and> h_processes demo_live = [Running]
   \<and> (case w_redis (h_world demo_live) (last_seen_key ''id0'') of
        Some (v, Some t) \<Rightarrow> w_clock (h_world demo_live) + 270 < t \<and> t \<le> w_clock (h_world demo_live) + 300
      | _ \<Rightarrow> False)"
proof -
  have "(case create_session demo ''ops'' ''srv'' demo_hub of (r, h) \<Rightarrow>
      map fst (h_sessions h) = [''id0''] \<and> h_processes h = [Running]
      \<and> (case w_redis (h_world h) (last_seen_key ''id0'') of
           Some (v, Some t) \<Rightarrow> w_clock (h_world h) + 270 < t \<and> t \<le> w_clock (h_world h) + 300 | _ \<Rightarrow> False))"
    by code_simp
  then show ?thesis unfolding demo_live_def by (simp add: split_beta)
qed

lemmas demo_live_sessions = demo_live_run [THEN conjunct1] demo_live_run [THEN conjunct2, THEN conjunct1]

text \<open>
  C31: No subprocess is spawned without a record: a creation either leaves the registry and the
  subprocesses as they were, or the newest row of the log is the SESSION_START record of the new
  session's id, identity and server, under a fresh id, for a server of the active policy.
\<close>
theorem spawned_session_recorded:
  assumes "create_session E i v h = (r, h')"
    and "map_of (h_sessions h) (x_uuid E (w_uuids (h_world h))) = None"
  shows "if length (h_processes h') = length (h_processes h)
    then h_sessions h' = h_sessions h \<and> h_processes h' = h_processes h \<and> (\<exists>e. r = Inl e)
    else server_command (w_engine (h_world h)) v \<noteq> None
      \<and> (\<exists>s. h_sessions h' = h_sessions h @ [(ss_id s, s)] \<and> h_processes h' = h_processes h @ [Running]
          \<and> ss_process s = length (h_processes h)
          \<and> ss_interceptor s = \<lparr>ic_identity_id = i, ic_server_id = v, ic_session_id = ss_id s\<rparr>
          \<and> records E SESSION_START i (Some v) None [(''session_id'', JStr (ss_id s))] None
              (en_version (w_engine (h_world h))) (last (w_audit (h_world h'))))"
  using create_session_run [OF assms]
proof
  assume "\<exists>e w. r = Inl e \<and> h' = h\<lparr>h_world := w\<rparr> \<and> log_grows (h_world h) w"
  then show ?thesis by auto
next
  assume "\<exists>s w row. log_grows (h_world h) w \<and> w_audit w \<noteq> [] \<and> row = last (w_audit w)
        \<and> records E SESSION_START i (Some v) None [(''session_id'', JStr (ss_id s))] None
            (en_version (w_engine (h_world h))) row
        \<and> ss_id s = x_uuid E (w_uuids (h_world h))
        \<and> ss_interceptor s = \<lparr>ic_identity_id = i, ic_server_id = v, ic_session_id = ss_id s\<rparr>
        \<and> ss_process s = length (h_processes h) \<and> server_command (w_engine (h_world h)) v \<noteq> None
        \<and> h' = h\<lparr>h_world := w, h_processes := h_processes h @ [Running],
            h_sessions := AList.update (ss_id s) s (h_sessions h)\<rparr>
        \<and> (r = Inr s \<or> (\<exists>e. r = Inl e))"
  then show ?thesis using update_new [OF assms(2)] by auto
qed

theorem spawned_session_recorded_witness:
  "records demo SESSION_START ''ops'' (Some ''srv'') None
     [(''session_id'', JStr (ss_id (snd (hd (h_sessions demo_live)))))] None 1
     (last (w_audit (h_world demo_live)))"
proof -
  have "\<not> length (h_processes demo_live) = length (h_processes demo_hub)"
    and "h_sessions demo_hub = []" and "en_version (w_engine (h_world demo_hub)) = 1"
    by (simp add: demo_live_sessions demo_hub_def, simp add: demo_hub_def, code_simp)
  with spawned_session_recorded [of demo "''ops''" "''srv''" demo_hub _ demo_live,
      OF prod.collapse [symmetric, of "create_session demo ''ops'' ''srv'' demo_hub", folded demo_live_def]]
  show ?thesis by (auto simp: demo_hub_def)
qed

text \<open>
  C29: Idle sessions are reaped: with Redis answering, the sweep loop goes on round after round, and
  after any number of rounds exactly those sessions are left, in order, whose idle key outlives the
  last round; a session not touched for its whole lifetime is gone. No subprocess of a reaped
  session runs on, and the registry stays sound.
\<close>
theorem idle_sessions_reaped:
  assumes "w_faults (h_world h) = []" and "hub_ok E h"
  shows "\<exists>h'. sweep_loop (Suc n) h = (Inr (), h') \<and> hub_ok E h'
    \<and> h_sessions h' = filter (\<lambda>(k, s). seen_at (w_clock (h_world h) + SWEEP_INTERVAL_S * of_nat (Suc n)) h k)
        (h_sessions h)
    \<and> (\<forall>(k, s) \<in> set (h_sessions h). (k, s) \<notin> set (h_sessions h') \<longrightarrow> process_of (ss_process s) h' \<noteq> Running)"
proof -
  from sweep_loop_calm [OF assms(1), of n] obtain h' where
    run: "sweep_loop (Suc n) h = (Inr (), h')" and
    ss: "h_sessions h' = filter (\<lambda>(k, s). seen_at (w_clock (h_world h) + SWEEP_INTERVAL_S * of_nat (Suc n)) h k)
        (h_sessions h)" by blast
  have ok: "hub_ok E h'" using staysD [OF sweep_loop_keeps run] assms(2) by (simp add: keeps_def)
  have "process_of (ss_process s) h' \<noteq> Running" if "(k, s) \<in> set (h_sessions h)" "(k, s) \<notin> set (h_sessions h')" for k s
  proof
    assume "process_of (ss_process s) h' = Running"
    with ok have "ss_process s \<in> set (pids h')" by (auto simp: hub_ok_def process_of_def split: if_splits)
    then obtain j t where jt: "(j, t) \<in> set (h_sessions h')" "ss_process t = ss_process s" by (auto simp: pids_def)
    with ss have "(j, t) \<in> set (h_sessions h)" by auto
    moreover have "inj_on (\<lambda>(k, s). ss_process s) (set (h_sessions h))"
      using assms(2) by (simp add: hub_ok_def pids_def distinct_map)
    ultimately have "(j, t) = (k, s)" using that(1) jt(2) inj_onD [of _ _ "(j, t)" "(k, s)"] by fastforce
    with jt(1) that(2) show False by simp
  qed
  with run ok ss show ?thesis by blast
qed

definition demo_idle :: hub where
  "demo_idle = demo_live\<lparr>h_world := (h_world demo_live)\<lparr>w_faults := []\<rparr>\<rparr>"

theorem idle_sessions_reaped_witness:
  "h_sessions demo_idle \<noteq> [] \<and> h_sessions (snd (sweep_loop 9 demo_idle)) = h_sessions demo_idle
   \<and> h_sessions (snd (sweep_loop 10 demo_idle)) = []"
proof -
  have ok: "hub_ok demo demo_idle"
    unfolding demo_idle_def using demo_live_ok by (rule hub_ok_grows) (simp add: log_grows_def)
  have calm: "w_faults (h_world demo_idle) = []" by (simp add: demo_idle_def)
  have keys: "seen_at (w_clock (h_world demo_idle) + 270) demo_idle ''id0''"
    "\<not> seen_at (w_clock (h_world demo_idle) + 300) demo_idle ''id0''"
    using demo_live_run by (auto simp: demo_idle_def seen_at_def split: option.splits)
  have ids: "map fst (h_sessions demo_idle) = [''id0'']" by (simp add: demo_idle_def demo_live_sessions)
  then obtain s where s: "h_sessions demo_idle = [(''id0'', s)]" by (auto simp: map_eq_Cons_conv)
  from idle_sessions_reaped [OF calm ok, of 8] idle_sessions_reaped [OF calm ok, of 9] s keys show ?thesis
    by (auto simp: SWEEP_INTERVAL_S_def numeral_eq_Suc)
qed

text \<open>
  C30: Shutting down ends every session: however many subprocesses have already died or ignore
  SIGTERM, the handler returns, the registry is empty and no subprocess is running.
\<close>
theorem shutdown_leaves_nothing_running:
  assumes "hub_ok E h"
  shows "\<exists>h'. shutdown_all h = (Inr (), h') \<and> h_sessions h' = []
    \<and> list_all (\<lambda>p. p \<noteq> Running) (h_processes h') \<and> h_world h' = h_world h"
proof -
  from shutdown_all_run [of h] obtain ps where
    "shutdown_all h = (Inr (), h\<lparr>h_sessions := [], h_processes := ps\<rparr>)" "length ps = length (h_processes h)"
    "\<And>i. i < length ps \<Longrightarrow> ps ! i = Running \<Longrightarrow> h_processes h ! i = Running \<and> i \<notin> set (pids h)" by blast
  moreover from this assms have "\<forall>i < length ps. ps ! i \<noteq> Running" by (auto simp: hub_ok_def)
  ultimately show ?thesis by (auto simp: list_all_length)
qed

theorem shutdown_leaves_nothing_running_witness:
  "h_processes demo_live = [Running] \<and> list_all (\<lambda>p. p \<noteq> Running) (h_processes (snd (shutdown_all demo_live)))"
  using shutdown_leaves_nothing_running [OF demo_live_ok] demo_live_sessions by auto

section \<open>Gaps\<close>

text \<open>
  The sweep loop has no handler: a Redis failure in one round ends it for good, with every
  session still registered.
\<close>
theorem sweep_failure_ends_sweeping:
  assumes "h_sessions h \<noteq> []" and "w_faults (h_world h) = True # fs"
  shows "\<exists>h'. sweep_loop (Suc n) h = (Inl RedisError, h') \<and> h_sessions h' = h_sessions h"
proof (cases "h_sessions h")
  case (Cons ks rest)
  with assms(2) show ?thesis
    by (simp add: sweep_once_def sweep_session_def in_world_def r_exists_def faulty_def bnd_def)
qed (use assms in simp)

text \<open>A creation whose idle key cannot be set reports a failure but leaves a registered, running session.\<close>
theorem failed_creation_leaves_session:
  "case create_session demo ''ops'' ''srv'' (demo_hub\<lparr>h_world := demo_world\<lparr>w_faults :=
      [False, False, False, False, False, False, True]\<rparr>\<rparr>) of
     (r, h') \<Rightarrow> r = Inl RedisError \<and> map fst (h_sessions h') = [''id0''] \<and> h_processes h' = [Running]"
  by code_simp

end
