(* ===== verification/Admin.thy ===== *)
theory Admin
  imports Simulator
begin

text \<open>
  The administration endpoints of \<open>main.py\<close>: re-approving a drifted tool, granting an approval,
  rolling a policy back, reading and explaining decisions, simulating a policy. An endpoint
  answers, raises an \<open>HTTPException\<close> (\<open>HttpError\<close>), or lets another exception out, which the
  framework turns into a 500. The lemmas: without an administrator's key no endpoint changes
  anything, and a rollback activates exactly a recorded version, after it is in the log.
\<close>

definition KEY_HEADER :: string where "KEY_HEADER = ''x-portunusmcp-key''"

datatype 'a reply = Answer 'a | HttpError int string

text \<open>
  \<open>try: x = m; except ...: raise HTTPException\<close>, then the rest: \<open>http\<close> says which exceptions
  become which status.
\<close>

definition attempt ::
  "('w, 'a) act \<Rightarrow> (exc \<Rightarrow> (int \<times> string) option) \<Rightarrow> ('a \<Rightarrow> ('w, 'b reply) act) \<Rightarrow> ('w, 'b reply) act"
where
  "attempt m http rest =
     bnd (try_catch (bnd m (\<lambda>x. ret (Inr x)))
            (\<lambda>e. case http e of None \<Rightarrow> raise e | Some status \<Rightarrow> ret (Inl status)))
       (\<lambda>r. case r of Inl (code, detail) \<Rightarrow> ret (HttpError code detail) | Inr x \<Rightarrow> rest x)"

text \<open>The exceptions of a lookup and their text; the key a \<open>KeyError\<close> shows is not modelled.\<close>

definition lookup_text :: "exc \<Rightarrow> string option" where
  "lookup_text e = (case e of LookupError s \<Rightarrow> Some s | KeyError \<Rightarrow> Some '''' | _ \<Rightarrow> None)"

definition not_found :: "exc \<Rightarrow> (int \<times> string) option" where
  "not_found e = map_option (Pair 404) (lookup_text e)"

definition require_admin :: "ext \<Rightarrow> string option \<Rightarrow> string reply step" where
  "require_admin E key =
     bnd the_engine (\<lambda>en.
     bnd (resolve_identity_tracked E key en) (\<lambda>identity_id.
     case identity_id of
       None \<Rightarrow> ret (HttpError 401 ''invalid or missing API key'')
     | Some i \<Rightarrow>
         bnd the_engine (\<lambda>en.
         if \<not> is_admin en i then ret (HttpError 403 ''admin identity required'') else ret (Answer i))))"

definition with_admin :: "ext \<Rightarrow> string option \<Rightarrow> (string \<Rightarrow> 'a reply step) \<Rightarrow> 'a reply step" where
  "with_admin E key rest =
     bnd (require_admin E key) (\<lambda>r.
     case r of HttpError code detail \<Rightarrow> ret (HttpError code detail) | Answer i \<Rightarrow> rest i)"

definition admin_decision :: "engine \<Rightarrow> event_type \<Rightarrow> string \<Rightarrow> string \<Rightarrow> int \<Rightarrow> decision" where
  "admin_decision en ev reason rule seq =
     (make_decision en Allow ev reason [rule] None None)\<lparr>d_audit_id := Some (dec_int seq)\<rparr>"

section \<open>Approvals\<close>

definition approve_tool :: "ext \<Rightarrow> string option \<Rightarrow> string \<Rightarrow> string \<Rightarrow> decision reply step" where
  "approve_tool E key server_id tool_name =
     with_admin E key (\<lambda>identity_id.
     attempt (approve_drift E server_id tool_name identity_id) not_found (\<lambda>seq.
     bnd the_engine (\<lambda>en.
     ret (Answer (admin_decision en APPROVED
       (''schema for '' @ py_repr tool_name @ '' on '' @ py_repr server_id @ '' re-approved by ''
          @ py_repr identity_id) ''admin_approval'' seq)))))"

definition approve_call :: "ext \<Rightarrow> string option \<Rightarrow> string \<Rightarrow> decision reply step" where
  "approve_call E key approval_id =
     with_admin E key (\<lambda>identity_id.
     attempt (approve_approval E approval_id identity_id) not_found (\<lambda>(seq, requester_id, server_id, tool_name).
     bnd (apply_decay E requester_id server_id tool_name) (\<lambda>_.
     bnd the_engine (\<lambda>en.
     ret (Answer ((admin_decision en APPROVED
       (''call to '' @ py_repr tool_name @ '' approved by '' @ py_repr identity_id) ''admin_approval'' seq)
         \<lparr>d_approval_id := Some approval_id\<rparr>))))))"

section \<open>Rollback\<close>

definition rollback_status :: "exc \<Rightarrow> (int \<times> string) option" where
  "rollback_status e =
     (case e of ActivationError s \<Rightarrow> Some (409, s) | _ \<Rightarrow> not_found e)"

definition rollback_policy :: "ext \<Rightarrow> string option \<Rightarrow> int \<Rightarrow> decision reply step" where
  "rollback_policy E key version =
     with_admin E key (\<lambda>identity_id.
     bnd (file_exists (snapshot_path E version)) (\<lambda>exists.
     if \<not> exists then ret (HttpError 404 (''no revision snapshot for v'' @ dec_int version))
     else
       attempt (bnd (read_file (snapshot_path E version)) (\<lambda>raw. lift_res (load_bytes E raw)))
         (\<lambda>e. Some (409, ''revision v'' @ dec_int version @ '' is invalid'')) (\<lambda>en.
       attempt (record_rollback en identity_id) rollback_status (\<lambda>_.
       bnd the_engine (\<lambda>old.
       bnd (audit_write E POLICY_ACTIVATED identity_id None None
              [(''old_version'', JInt (en_version old)), (''new_version'', JInt (en_version en)),
               (''content_hash'', JStr (en_content_hash en)), (''rollback'', JBool True)] None) (\<lambda>seq.
       bnd (swap en) (\<lambda>_.
       ret (Answer (admin_decision en POLICY_ACTIVATED
         (''policy rolled back from v'' @ dec_int (en_version old) @ '' to v'' @ dec_int (en_version en)
            @ '' by '' @ py_repr identity_id) ''admin_rollback'' seq)))))))))"

section \<open>Decisions and simulations\<close>

text \<open>The sequence column is a 64-bit integer.\<close>

definition int8_ok :: "int \<Rightarrow> bool" where
  "int8_ok n = (-9223372036854775808 \<le> n \<and> n \<le> 9223372036854775807)"

definition get_audit_row :: "int \<Rightarrow> audit_row option step" where
  "get_audit_row seq = faulty DatabaseError (\<lambda>w.
     if int8_ok seq then (Inr (List.find (\<lambda>r. ar_seq r = seq) (w_audit w)), w)
     else (Inl DatabaseError, w))"

definition get_decision ::
  "ext \<Rightarrow> (json \<Rightarrow> risk_factor res) \<Rightarrow> string option \<Rightarrow> int \<Rightarrow> decision reply step"
where
  "get_decision E lax key seq =
     with_admin E key (\<lambda>_.
     bnd (get_audit_row seq) (\<lambda>found.
     case found of
       None \<Rightarrow> ret (HttpError 404 (''no audit row '' @ dec_int seq))
     | Some row \<Rightarrow> attempt (lift_res (from_audit_row lax row)) not_found (\<lambda>d. ret (Answer d))))"

record explain_request =
  xr_identity :: string
  xr_tool :: string
  xr_server :: "string option"
  xr_arguments :: json
  xr_context :: json

definition explain_decision :: "ext \<Rightarrow> string option \<Rightarrow> explain_request \<Rightarrow> decision reply step" where
  "explain_decision E key body =
     with_admin E key (\<lambda>_.
     bnd the_engine (\<lambda>en.
     case (case xr_server body of
             Some s \<Rightarrow> Some s
           | None \<Rightarrow> (case p_servers (en_policy en) of [(s, command)] \<Rightarrow> Some s | _ \<Rightarrow> None)) of
       None \<Rightarrow> ret (HttpError 400 ''multiple servers registered; specify `server`'')
     | Some server_id \<Rightarrow>
         bnd (explain_call E en (xr_identity body) (xr_tool body) server_id (xr_arguments body)
                (xr_context body) True) (\<lambda>d. ret (Answer d))))"

record simulate_request =
  sr_candidate_version :: "int option"
  sr_compare_versions :: "int list option"
  sr_replay_window :: string

datatype simulation = Historical historical_simulation | Compared compare_simulation

definition simulate_status :: "exc \<Rightarrow> (int \<times> string) option" where
  "simulate_status e = (case e of ValueError s \<Rightarrow> Some (400, s) | _ \<Rightarrow> rollback_status e)"

definition simulate_policy :: "ext \<Rightarrow> string option \<Rightarrow> simulate_request \<Rightarrow> simulation reply step" where
  "simulate_policy E key body =
     with_admin E key (\<lambda>_.
     if (sr_candidate_version body = None) = (sr_compare_versions body = None)
     then ret (HttpError 400 ''exactly one of candidate_version or compare_versions is required'')
     else if sr_compare_versions body \<noteq> None \<and> length (the (sr_compare_versions body)) \<noteq> 2
     then ret (HttpError 400 ''compare_versions must be exactly 2 versions'')
     else
       attempt
         (case sr_candidate_version body of
            Some version \<Rightarrow>
              bnd (simulate_historical E version (sr_replay_window body)) (\<lambda>s. ret (Historical s))
          | None \<Rightarrow>
              bnd (simulate_compare E (the (sr_compare_versions body) ! 0)
                     (the (sr_compare_versions body) ! 1) (sr_replay_window body)) (\<lambda>s. ret (Compared s)))
         simulate_status (\<lambda>s. ret (Answer s)))"

definition health :: "(string \<times> string) list" where
  "health = [(''status'', ''ok'')]"

section \<open>Facts\<close>

text \<open>
  What a refusal or a read may touch: the counter of failed keys and the fault schedule. The
  tables, the snapshots, the log, the live policy and the sessions' state stay.
\<close>

definition bookkeeping :: "world \<Rightarrow> world \<Rightarrow> bool" where
  "bookkeeping w w' \<longleftrightarrow> (\<exists>rd fs. w' = w\<lparr>w_redis := rd, w_faults := fs\<rparr>)"

lemma bookkeeping_refl: "bookkeeping w w"
proof -
  have "w = w\<lparr>w_redis := w_redis w, w_faults := w_faults w\<rparr>" by simp
  then show ?thesis unfolding bookkeeping_def by blast
qed

interpretation bookkeeping: step_relation bookkeeping
proof
  fix u v w :: world
  show "bookkeeping w w" by (rule bookkeeping_refl)
  show "bookkeeping u v \<Longrightarrow> bookkeeping v w \<Longrightarrow> bookkeeping u w"
    unfolding bookkeeping_def by (elim exE) (simp, blast)
qed

lemma quiet_bookkeeping: "stays quiet m \<Longrightarrow> stays bookkeeping m"
proof (erule stays_mono)
  fix w w' assume "quiet w w'"
  then obtain fs where w': "w' = w\<lparr>w_faults := fs\<rparr>" by (auto simp: quiet_def)
  have "w' = w\<lparr>w_redis := w_redis w, w_faults := fs\<rparr>" unfolding w' by simp
  then show "bookkeeping w w'" unfolding bookkeeping_def by blast
qed

lemma bookkeeping_fields:
  assumes "bookkeeping w w'"
  shows "w_engine w' = w_engine w" "w_audit w' = w_audit w" "w_approvals w' = w_approvals w"
    "w_baselines w' = w_baselines w" "history w' = history w" "w_snapshots w' = w_snapshots w"
    "w_versions w' = w_versions w" "w_clock w' = w_clock w"
  using assms by (auto simp: bookkeeping_def history_def)

lemma bookkeeping_faulty:
  assumes "stays bookkeeping m"
  shows "stays bookkeeping (faulty e m)"
proof (rule staysI)
  fix w r w' assume run: "faulty e m w = (r, w')"
  show "bookkeeping w w'"
  proof (cases "w_faults w")
    case Nil
    with run have "m w = (r, w')" by (simp add: faulty_def)
    with assms show ?thesis by (rule staysD)
  next
    case (Cons f fs)
    have 1: "bookkeeping w (w\<lparr>w_faults := fs\<rparr>)"
    proof -
      have "w\<lparr>w_faults := fs\<rparr> = w\<lparr>w_redis := w_redis w, w_faults := fs\<rparr>" by simp
      then show ?thesis unfolding bookkeeping_def by blast
    qed
    show ?thesis
    proof (cases f)
      case True
      with run Cons 1 show ?thesis by (simp add: faulty_def)
    next
      case False
      with run Cons have "m (w\<lparr>w_faults := fs\<rparr>) = (r, w')" by (simp add: faulty_def)
      with assms have "bookkeeping (w\<lparr>w_faults := fs\<rparr>) w'" by (rule staysD)
      with 1 show ?thesis by (rule bookkeeping.R_trans)
    qed
  qed
qed

lemma bookkeeping_put: "bookkeeping w (r_put k e w)"
proof -
  have "r_put k e w = w\<lparr>w_redis := (w_redis w)(k := e), w_faults := w_faults w\<rparr>" by (simp add: r_put_def)
  then show ?thesis unfolding bookkeeping_def by blast
qed

lemma bookkeeping_count_failure: "stays bookkeeping (count_failure E)"
proof -
  have "stays bookkeeping (r_incrby k n)" for k n
    unfolding r_incrby_def
    by (rule bookkeeping_faulty)
      (auto simp: stays_def bookkeeping_put bookkeeping_refl split: option.split rval.split)
  moreover have "stays bookkeeping (r_expire k n)" for k n
    unfolding r_expire_def
    by (rule bookkeeping_faulty) (auto simp: stays_def bookkeeping_put bookkeeping_refl split: option.split)
  ultimately show ?thesis
    unfolding count_failure_def bump_def r_incr_def Let_def
    by (intro bookkeeping.stays_all)
qed

lemma bookkeeping_resolve: "stays bookkeeping (resolve_identity_tracked E key en)"
  unfolding resolve_identity_tracked_def Let_def
  by (intro bookkeeping.stays_all bookkeeping_count_failure)

lemma resolve_identity_tracked_run:
  "fst (resolve_identity_tracked E key en w) = Inr (resolve_identity E key en)"
proof -
  obtain r w1 where c: "count_failure E w = (r, w1)" by (cases "count_failure E w")
  with count_failure_returns [of E w] have "r = Inr ()" by simp
  with c show ?thesis by (simp add: resolve_identity_tracked_def Let_def bnd_def)
qed

lemma require_admin_run:
  "\<exists>w'. bookkeeping w w' \<and> require_admin E key w = (Inr
     (case resolve_identity E key (w_engine w) of
        None \<Rightarrow> HttpError 401 ''invalid or missing API key''
      | Some i \<Rightarrow> if is_admin (w_engine w) i then Answer i else HttpError 403 ''admin identity required''), w')"
proof -
  let ?m = "resolve_identity_tracked E key (w_engine w)"
  obtain r w1 where m: "?m w = (r, w1)" by (cases "?m w")
  with resolve_identity_tracked_run [of E key "w_engine w" w] have r: "r = Inr (resolve_identity E key (w_engine w))"
    by simp
  from m have b: "bookkeeping w w1" by (rule staysD [OF bookkeeping_resolve])
  with m r show ?thesis
    by (intro exI [of _ w1])
      (simp add: require_admin_def the_engine_def bnd_run_Inr [of ?m] bookkeeping_fields split: option.split)
qed

text \<open>An endpoint that a caller without an administrator's key is refused by.\<close>

definition refused :: "'a reply step \<Rightarrow> world \<Rightarrow> bool" where
  "refused m w = (case m w of (Inr (HttpError code detail), w') \<Rightarrow> code \<in> {401, 403} \<and> bookkeeping w w' | _ \<Rightarrow> False)"

definition admin_key :: "ext \<Rightarrow> string option \<Rightarrow> engine \<Rightarrow> string \<Rightarrow> bool" where
  "admin_key E key en i \<longleftrightarrow> resolve_identity E key en = Some i \<and> is_admin en i"

lemma with_admin_run:
  "(\<exists>i w1. admin_key E key (w_engine w) i \<and> bookkeeping w w1 \<and> with_admin E key f w = f i w1)
   \<or> (\<forall>i. \<not> admin_key E key (w_engine w) i) \<and> refused (with_admin E key f) w"
proof -
  from require_admin_run [of w E key] obtain w1 where w1: "bookkeeping w w1"
    "require_admin E key w = (Inr
     (case resolve_identity E key (w_engine w) of
        None \<Rightarrow> HttpError 401 ''invalid or missing API key''
      | Some i \<Rightarrow> if is_admin (w_engine w) i then Answer i else HttpError 403 ''admin identity required''), w1)" by blast
  show ?thesis
  proof (cases "resolve_identity E key (w_engine w)")
    case None
    with w1 show ?thesis by (simp add: with_admin_def bnd_def refused_def admin_key_def)
  next
    case (Some i)
    with w1 show ?thesis
      by (cases "is_admin (w_engine w) i") (auto simp: with_admin_def bnd_def refused_def admin_key_def)
  qed
qed

lemma with_admin_refused: "\<forall>i. \<not> admin_key E key (w_engine w) i \<Longrightarrow> refused (with_admin E key f) w"
  using with_admin_run [of E key w f] by blast

lemma with_admin_cases:
  assumes "with_admin E key f w = (r, w')"
  obtains i w1 where "admin_key E key (w_engine w) i" "bookkeeping w w1" "f i w1 = (r, w')"
    | code detail where "r = Inr (HttpError code detail)" "bookkeeping w w'"
  using with_admin_run [of E key w f] assms
  by (auto simp: refused_def split: sum.splits reply.splits)

lemma attempt_run:
  "attempt m http rest w = (case m w of
     (Inr x, w1) \<Rightarrow> rest x w1
   | (Inl e, w1) \<Rightarrow> (case http e of
        None \<Rightarrow> (Inl e, w1) | Some (code, detail) \<Rightarrow> (Inr (HttpError code detail), w1)))"
  by (simp add: attempt_def bnd_def try_catch_def split: prod.split sum.split option.split)

lemma attempt_Answer:
  "attempt m http rest w = (Inr (Answer x), w') \<longleftrightarrow> (\<exists>y w1. m w = (Inr y, w1) \<and> rest y w1 = (Inr (Answer x), w'))"
  by (auto simp: attempt_run split: prod.splits sum.splits option.splits)

context step_relation
begin

lemma stays_attempt:
  assumes "stays R m" and "\<And>x. stays R (rest x)"
  shows "stays R (attempt m http rest)"
  unfolding attempt_def using assms by (intro stays_all)

end

section \<open>Rolling back\<close>

text \<open>What a rollback that activates nothing leaves: the live policy, the history, the snapshots.\<close>

definition unactivated :: "world \<Rightarrow> world \<Rightarrow> bool" where
  "unactivated w w' \<longleftrightarrow> w_engine w' = w_engine w \<and> history w' = history w \<and> w_snapshots w' = w_snapshots w"

interpretation unactivated: append_ok unactivated
  by unfold_locales (auto simp: unactivated_def history_def)

lemma bookkeeping_unactivated: "bookkeeping w w' \<Longrightarrow> unactivated w w'"
  by (simp add: unactivated_def bookkeeping_fields)

lemma unactivated_record_rollback: "stays unactivated (record_rollback en by)"
  unfolding record_rollback_def
  by (intro unactivated.blind_intros unactivated.stays_get_version unactivated.stays_db_commit)
    (simp add: unactivated_def history_def set_version_history)

lemma record_rollback_Inr:
  assumes "record_rollback en by w = (Inr u, w')"
  shows "(en_version en, en_content_hash en) \<in> set (history w)"
proof -
  from assms obtain row w1 where "get_version (en_version en) w = (Inr (Some row), w1)"
    "pv_content_hash row = en_content_hash en"
    by (auto simp: record_rollback_def bnd_Inr_iff split: option.splits if_splits)
  then have "row \<in> set (w_versions w)" "pv_version row = en_version en"
    by (auto dest!: get_version_Inr find_version_Some [OF sym])
  with \<open>pv_content_hash row = en_content_hash en\<close> show ?thesis
    by (auto simp: history_def image_iff intro!: bexI [of _ row])
qed

lemma load_snapshot_Inr:
  assumes "bnd (read_file path) (\<lambda>raw. lift_res (load_bytes E raw)) w = (Inr en, w')"
  shows "\<exists>raw. map_of (w_snapshots w) path = Some raw \<and> load_bytes E raw = Inr en"
  using assms by (auto simp: bnd_Inr_iff read_file_def quiet_fields dest!: faulty_Inr split: option.splits)

definition rollback_payload :: "engine \<Rightarrow> engine \<Rightarrow> (string \<times> json) list" where
  "rollback_payload old en =
     [(''old_version'', JInt (en_version old)), (''new_version'', JInt (en_version en)),
      (''content_hash'', JStr (en_content_hash en)), (''rollback'', JBool True)]"

text \<open>What an answered rollback has done.\<close>

definition rolled_back :: "ext \<Rightarrow> string option \<Rightarrow> int \<Rightarrow> world \<Rightarrow> decision \<Rightarrow> world \<Rightarrow> bool" where
  "rolled_back E key version w d w' \<longleftrightarrow> (\<exists>i raw en. admin_key E key (w_engine w) i
     \<and> map_of (w_snapshots w) (snapshot_path E version) = Some raw \<and> load_bytes E raw = Inr en
     \<and> (en_version en, en_content_hash en) \<in> set (history w)
     \<and> w_engine w' = en \<and> d_policy_version d = en_version en \<and> w_audit w' \<noteq> []
     \<and> records E POLICY_ACTIVATED i None None (rollback_payload (w_engine w) en) None (en_version (w_engine w))
         (last (w_audit w')))"

lemma rollback_run:
  assumes run: "rollback_policy E key version w = (r, w')"
  shows "(\<exists>d. r = Inr (Answer d) \<and> rolled_back E key version w d w' \<and> history w' = history w
      \<and> w_snapshots w' = w_snapshots w)
    \<or> (\<forall>d. r \<noteq> Inr (Answer d)) \<and> unactivated w w'"
  using run [unfolded rollback_policy_def]
proof (cases rule: with_admin_cases)
  case (2 code detail)
  then show ?thesis by (simp add: bookkeeping_unactivated)
next
  case (1 i w1)
  let ?path = "snapshot_path E version"
  let ?load = "bnd (read_file ?path) (\<lambda>raw. lift_res (load_bytes E raw))"
  have u1: "unactivated w w1" and e1: "w_engine w1 = w_engine w" and s1: "w_snapshots w1 = w_snapshots w"
    using 1(2) by (simp_all add: bookkeeping_unactivated bookkeeping_fields)
  show ?thesis
  proof (cases "map_of (w_snapshots w1) ?path")
    case None
    with 1(3) u1 show ?thesis by (auto simp: file_exists_def)
  next
    case (Some bytes)
    obtain r2 w2 where load: "?load w1 = (r2, w2)" by (cases "?load w1")
    have "stays unactivated ?load"
      unfolding read_file_def
      by (intro unactivated.blind_intros unactivated.stays_faulty)
        (simp add: stays_def unactivated.R_refl split: option.split)
    with load u1 have u2: "unactivated w w2" by (blast intro: staysD unactivated.R_trans)
    show ?thesis
    proof (cases r2)
      case (Inl e)
      with 1(3) Some load u2 show ?thesis by (auto simp: file_exists_def attempt_run)
    next
      case (Inr en)
      obtain r3 w3 where rec: "record_rollback en i w2 = (r3, w3)" by (cases "record_rollback en i w2")
      with u2 have u3: "unactivated w w3"
        by (blast intro: staysD unactivated_record_rollback unactivated.R_trans)
      show ?thesis
      proof (cases r3)
        case (Inl e)
        with 1(3) Some load \<open>r2 = Inr en\<close> rec u3 show ?thesis
          by (auto simp: file_exists_def attempt_run split: option.splits)
      next
        case (Inr u)
        let ?append = "audit_write E POLICY_ACTIVATED i None None (rollback_payload (w_engine w3) en) None"
        obtain r4 w4 where aw: "?append w3 = (r4, w4)" by (cases "?append w3")
        with u3 have u4: "unactivated w w4"
          by (blast intro: staysD unactivated.stays_audit_write unactivated.R_trans)
        from 1(3) Some load \<open>r2 = Inr en\<close> rec Inr have rest: "bnd ?append (\<lambda>seq. bnd (swap en) (\<lambda>_.
            ret (Answer (admin_decision en POLICY_ACTIVATED
              (''policy rolled back from v'' @ dec_int (en_version (w_engine w3)) @ '' to v''
                 @ dec_int (en_version en) @ '' by '' @ py_repr i) ''admin_rollback'' seq)))) w3 = (r, w')"
          by (simp add: file_exists_def attempt_run the_engine_def rollback_payload_def)
        show ?thesis
        proof (cases r4)
          case (Inl e)
          with rest aw u4 show ?thesis by (auto simp: bnd_def)
        next
          case (Inr seq)
          with rest aw have r: "\<exists>d. r = Inr (Answer d) \<and> d_policy_version d = en_version en"
            and w': "w' = w4\<lparr>w_engine := en\<rparr>"
            by (auto simp: bnd_def swap_def admin_decision_def make_decision_def)
          from audit_write_Inr [OF aw [unfolded Inr]] u3 have row: "w_audit w4 \<noteq> []"
            "records E POLICY_ACTIVATED i None None (rollback_payload (w_engine w) en) None
               (en_version (w_engine w)) (last (w_audit w4))"
            by (auto simp: unactivated_def)
          from load_snapshot_Inr [OF load [unfolded \<open>r2 = Inr en\<close>]] s1 obtain raw where
            "map_of (w_snapshots w) ?path = Some raw" "load_bytes E raw = Inr en" by auto
          moreover from record_rollback_Inr [OF rec [unfolded \<open>r3 = Inr u\<close>]] u2
          have "(en_version en, en_content_hash en) \<in> set (history w)" by (simp add: unactivated_def)
          ultimately show ?thesis using r row 1(1) u4 unfolding rolled_back_def w'
            by (auto simp: unactivated_def history_def)
        qed
      qed
    qed
  qed
qed

section \<open>Properties\<close>

text \<open>
  C16: Without an administrator's key every administration endpoint answers 401 or 403 and changes
  nothing but the counter of failed keys: no table, snapshot, policy, log row or session moves.
\<close>
theorem admin_required:
  assumes "\<forall>i. \<not> admin_key E key (w_engine w) i"
  shows "refused (approve_tool E key server_id tool_name) w \<and> refused (approve_call E key approval_id) w
    \<and> refused (rollback_policy E key version) w \<and> refused (get_decision E lax key seq) w
    \<and> refused (explain_decision E key xr) w \<and> refused (simulate_policy E key sr) w"
  unfolding approve_tool_def approve_call_def rollback_policy_def get_decision_def explain_decision_def
    simulate_policy_def
  by (intro conjI with_admin_refused assms)

theorem admin_required_witness: "refused (rollback_policy demo_files (Some ''stolen'') 1) demo_reloaded"
proof -
  have "resolve_identity demo_files (Some ''stolen'') (w_engine demo_reloaded) = None" by code_simp
  then have "\<forall>i. \<not> admin_key demo_files (Some ''stolen'') (w_engine demo_reloaded) i" by (simp add: admin_key_def)
  from admin_required [OF this] show ?thesis by blast
qed

text \<open>
  C17: A rollback activates a policy exactly when it answers: then an administrator asked, the
  policy is what the snapshot's bytes parse and validate to, its version is recorded with the
  hash of those bytes, and the newest log row is the POLICY_ACTIVATED record of the change by
  that administrator. In every other outcome the live policy stays. The recorded versions, their
  hashes and the snapshots never change.
\<close>
theorem rollback_only_recorded:
  assumes "rollback_policy E key version w = (r, w')"
  shows "(case r of Inr (Answer d) \<Rightarrow> rolled_back E key version w d w' | _ \<Rightarrow> w_engine w' = w_engine w)
    \<and> history w' = history w \<and> w_snapshots w' = w_snapshots w"
  using rollback_run [OF assms] by (auto simp: unactivated_def split: sum.split reply.split)

definition demo_rolled_back :: world where
  "demo_rolled_back = snd (rollback_policy demo_files (Some ''key'') 1 demo_reloaded)"

theorem rollback_only_recorded_witness:
  "en_version (w_engine demo_reloaded) = 2 \<and> en_version (w_engine demo_rolled_back) = 1
   \<and> history demo_rolled_back = [(1, ''one''), (2, ''two'')]"
proof -
  let ?m = "rollback_policy demo_files (Some ''key'') 1 demo_reloaded"
  have "(case fst ?m of Inr (Answer d) \<Rightarrow> d_policy_version d = 1 | _ \<Rightarrow> False)" by code_simp
  then obtain d where "fst ?m = Inr (Answer d)" "d_policy_version d = 1"
    by (cases "fst ?m") (auto split: reply.splits)
  then have run: "?m = (Inr (Answer d), demo_rolled_back)" and "d_policy_version d = 1"
    by (simp_all add: demo_rolled_back_def prod_eq_iff)
  with rollback_only_recorded [OF run] have "en_version (w_engine demo_rolled_back) = 1"
    "history demo_rolled_back = history demo_reloaded"
    by (auto simp: rolled_back_def)
  with demo_reloaded_run show ?thesis by simp
qed

lemma stays_with_admin:
  assumes "\<And>i. stays R (f i)" and "\<And>w w'. bookkeeping w w' \<Longrightarrow> R w w'"
    and "\<And>u v w. R u v \<Longrightarrow> R v w \<Longrightarrow> R u w"
  shows "stays R (with_admin E key f)"
proof (rule staysI)
  fix w r w' assume "with_admin E key f w = (r, w')"
  then show "R w w'"
    by (cases rule: with_admin_cases) (auto dest: staysD [OF assms(1)] intro: assms(2,3))
qed

lemma bookkeeping_with_admin: "(\<And>i. stays bookkeeping (f i)) \<Longrightarrow> stays bookkeeping (with_admin E key f)"
  by (rule stays_with_admin) (assumption | rule bookkeeping.R_trans)+

lemma bookkeeping_get_decision: "stays bookkeeping (get_decision E lax key seq)"
proof -
  have "stays bookkeeping (get_audit_row seq)"
    unfolding get_audit_row_def by (rule bookkeeping_faulty) (simp add: stays_def bookkeeping_refl)
  then show ?thesis
    unfolding get_decision_def
    by (intro bookkeeping_with_admin bookkeeping.stays_all bookkeeping.stays_attempt)
qed

lemma bookkeeping_explain_decision: "stays bookkeeping (explain_decision E key xr)"
  unfolding explain_decision_def the_engine_def
  by (intro bookkeeping_with_admin bookkeeping.stays_all quiet_bookkeeping explain_changes_nothing)

lemma bookkeeping_simulate_policy: "stays bookkeeping (simulate_policy E key sr)"
proof -
  have "stays quiet (simulate_historical F v x)" "stays quiet (simulate_compare F v v' x)" for F v v' x
    using simulations_quiet by blast+
  then show ?thesis
    unfolding simulate_policy_def
    by (intro bookkeeping_with_admin bookkeeping.stays_all bookkeeping.stays_attempt quiet_bookkeeping)
qed


section \<open>Gaps\<close>

text \<open>
  A rollback checks the version inside the snapshot, not the one it was asked for: with the bytes
  of revision 2 in the file of revision 1 a rollback to 1 succeeds and activates 2, which the
  simulator's loader refuses as tampered.
\<close>
theorem rollback_ignores_requested_version:
  "let w = demo_reloaded\<lparr>w_snapshots := AList.update (snapshot_path demo_files 1) ''two'' (w_snapshots demo_reloaded)\<rparr>
   in (case fst (rollback_policy demo_files (Some ''key'') 1 w) of
         Inr (Answer d) \<Rightarrow> d_policy_version d = 2 | _ \<Rightarrow> False)
      \<and> (case fst (load_version demo_files 1 w) of Inl (ActivationError s) \<Rightarrow> True | _ \<Rightarrow> False)"
  by code_simp

text \<open>
  A grant whose decay step cannot be counted stands, but the administrator is told it failed.
\<close>
definition demo_pending :: world where
  "demo_pending = snd (create_approval demo ''bot'' ''srv'' ''write'' ''h'' 1 demo_world)"

theorem granted_but_reported_failed:
  "case approve_call demo (Some ''key'') ''id0'' (demo_pending\<lparr>w_faults :=
      [False, False, False, False, False, False, False, True]\<rparr>) of
     (r, w') \<Rightarrow> r = Inl RedisError
       \<and> map_option ap_status (find_approval ''id0'' (w_approvals w')) = Some ''approved''"
  by code_simp

end
