(* ===== verification/Edge.thy ===== *)
theory Edge
  imports Sessions Admin
begin

text \<open>
  The MCP endpoint of \<open>main.py\<close>: the request body buffered for the signature check and replayed to
  the transport, the authentication of every request, the choice of its session. \<open>json.loads\<close> is
  a parameter, the transport that serves an admitted request is not modelled: \<open>Handed\<close> says which
  session gets it and what it will read. The lemmas: what the transport reads is what the client
  sent, a request is handed only to a session of the identity it authenticates as, and a refused
  one leaves the registry and the log as they were.
\<close>

section \<open>Buffering the body\<close>

text \<open>
  An event of the request stream: a part of the body (absent: empty; whether more follows) or an
  event of another type. After the last listed event the stream says \<open>http.disconnect\<close>.
\<close>

datatype http_event = HttpRequest "string option" bool | OtherEvent string

definition disconnect :: http_event where
  "disconnect = OtherEvent ''http.disconnect''"

definition body_part :: "string option \<Rightarrow> string" where
  "body_part b = (case b of None \<Rightarrow> '''' | Some s \<Rightarrow> s)"

text \<open>The loop: the events received, the parts of the body, the rest of the stream.\<close>

fun drain :: "http_event list \<Rightarrow> http_event list \<times> string list \<times> http_event list" where
  "drain [] = ([disconnect], [], [])"
| "drain (OtherEvent t # rest) = ([OtherEvent t], [], rest)"
| "drain (HttpRequest b more_body # rest) =
     (if \<not> more_body then ([HttpRequest b more_body], [body_part b], rest)
      else case drain rest of (events, chunks, rest') \<Rightarrow>
        (HttpRequest b more_body # events, body_part b # chunks, rest'))"

text \<open>A \<open>receive\<close> callable: the buffered events, then the stream.\<close>

type_synonym receive = "http_event list \<times> http_event list"

definition buffer_body :: "http_event list \<Rightarrow> string \<times> receive" where
  "buffer_body stream = (case drain stream of (events, chunks, rest) \<Rightarrow> (concat chunks, (events, rest)))"

fun next_event :: "receive \<Rightarrow> http_event \<times> receive" where
  "next_event (e # events, stream) = (e, (events, stream))"
| "next_event ([], e # stream) = (e, ([], stream))"
| "next_event ([], []) = (disconnect, ([], []))"

fun read_events :: "nat \<Rightarrow> receive \<Rightarrow> http_event list" where
  "read_events 0 r = []"
| "read_events (Suc n) r = (case next_event r of (e, r') \<Rightarrow> e # read_events n r')"

section \<open>The request\<close>

record http_request =
  rq_method :: string
  rq_path :: string
  rq_root_path :: string
  rq_headers :: "(string \<times> string) list"
  rq_stream :: "http_event list"

definition MCP_SESSION_ID_HEADER :: string where "MCP_SESSION_ID_HEADER = ''mcp-session-id''"

text \<open>Whether bytes are well-formed UTF-8.\<close>

fun utf8_ok :: "int list \<Rightarrow> bool" where
  "utf8_ok [] = True"
| "utf8_ok (a # bs) =
     (let cont = (\<lambda>x. 128 \<le> x \<and> x < (192 :: int)) in
      if a < 128 then utf8_ok bs
      else if 194 \<le> a \<and> a < 224 then (case bs of b # r \<Rightarrow> cont b \<and> utf8_ok r | _ \<Rightarrow> False)
      else if 224 \<le> a \<and> a < 240 then
        (case bs of b # c # r \<Rightarrow> cont b \<and> cont c \<and> (a = 224 \<longrightarrow> 160 \<le> b) \<and> (a = 237 \<longrightarrow> b < 160) \<and> utf8_ok r
         | _ \<Rightarrow> False)
      else if 240 \<le> a \<and> a < 245 then
        (case bs of b # c # d # r \<Rightarrow>
           cont b \<and> cont c \<and> cont d \<and> (a = 240 \<longrightarrow> 144 \<le> b) \<and> (a = 244 \<longrightarrow> b < 144) \<and> utf8_ok r
         | _ \<Rightarrow> False)
      else False)"

definition py_decode :: "string \<Rightarrow> string res" where
  "py_decode bytes =
     (if utf8_ok (map byte bytes) then Inr bytes else Inl (ValueError ''invalid utf-8''))"

text \<open>\<open>str.lower\<close> on a header name, which HTTP restricts to ASCII.\<close>

definition lower_char :: "char \<Rightarrow> char" where
  "lower_char c = (if 65 \<le> byte c \<and> byte c \<le> 90 then char_of (byte c + 32) else c)"

definition headers_of :: "(string \<times> string) list \<Rightarrow> (string \<times> string) list res" where
  "headers_of raw =
     res_bnd (res_map (\<lambda>(k, v).
        res_bnd (py_decode k) (\<lambda>k'. res_bnd (py_decode v) (\<lambda>v'. Inr (map lower_char k', v')))) raw)
     (\<lambda>kvs. Inr (dict_of kvs))"

definition remove_prefix :: "string \<Rightarrow> string \<Rightarrow> string" where
  "remove_prefix p s = (if take (length p) s = p then drop (length p) s else s)"

definition server_of :: "http_request \<Rightarrow> string" where
  "server_of rq = strip_by (\<lambda>c. c = CHR ''/'') (remove_prefix (rq_root_path rq) (rq_path rq))"

section \<open>Authentication\<close>

text \<open>\<open>json.loads\<close> with its \<open>ValueError\<close> caught.\<close>

definition parsed_body :: "(string \<Rightarrow> json res) \<Rightarrow> string \<Rightarrow> json option res" where
  "parsed_body loads body =
     (case loads body of
        Inr v \<Rightarrow> Inr (Some v)
      | Inl (ValueError s) \<Rightarrow> Inr None
      | Inl e \<Rightarrow> Inl e)"

definition signed_session_identity :: "engine \<Rightarrow> string option \<Rightarrow> string option hub_step" where
  "signed_session_identity en session_id =
     (case session_id of
        None \<Rightarrow> ret None
      | Some k \<Rightarrow>
          bnd (get_session k) (\<lambda>found.
          case found of
            None \<Rightarrow> ret None
          | Some s \<Rightarrow>
              let i = ic_identity_id (ss_interceptor s) in
              ret (case identity_of en i of
                     None \<Rightarrow> None
                   | Some x \<Rightarrow> if id_auth_mode x = Signed then Some i else None)))"

definition edge_identity ::
  "ext \<Rightarrow> (string \<Rightarrow> json res) \<Rightarrow> engine \<Rightarrow> http_request \<Rightarrow> (string \<times> string) list
     \<Rightarrow> (string option \<times> receive) hub_step"
where
  "edge_identity E loads en rq headers =
     (if map_of headers KEY_HEADER \<noteq> None then
        bnd (in_world (resolve_identity_tracked E (map_of headers KEY_HEADER) en)) (\<lambda>i.
        ret (i, ([], rq_stream rq)))
      else if rq_method rq = ''POST'' then
        (case buffer_body (rq_stream rq) of (body, replay) \<Rightarrow>
           bnd (lift_res (parsed_body loads body)) (\<lambda>message.
           bnd (case message of
                  Some (JObj d) \<Rightarrow> in_world (verify_signed_request_tracked E (JObj d) en)
                | _ \<Rightarrow> ret None) (\<lambda>i.
           ret (i, replay))))
      else
        bnd (signed_session_identity en (map_of headers MCP_SESSION_ID_HEADER)) (\<lambda>i.
        ret (i, ([], rq_stream rq))))"

section \<open>Sessions\<close>

definition edge_session ::
  "ext \<Rightarrow> http_request \<Rightarrow> string option \<Rightarrow> string \<Rightarrow> string \<Rightarrow> ((int \<times> string) + session) hub_step"
where
  "edge_session E rq session_id identity_id server_id =
     (case session_id of
        Some k \<Rightarrow>
          bnd (get_session k) (\<lambda>found. ret
            (case found of
               None \<Rightarrow> Inl (404, ''session not found'')
             | Some s \<Rightarrow>
                 if ic_identity_id (ss_interceptor s) \<noteq> identity_id
                 then Inl (401, ''key does not match session identity'')
                 else if ic_server_id (ss_interceptor s) \<noteq> server_id then Inl (404, ''session not found'')
                 else Inr s))
      | None \<Rightarrow>
          if rq_method rq = ''POST'' then
            try_catch (bnd (create_session E identity_id server_id) (\<lambda>s. ret (Inr s)))
              (\<lambda>e. ret (Inl (503, ''session could not be created'')))
          else ret (Inl (400, ''missing mcp-session-id header'')))"

datatype edge_reply = Handed session receive | Refused int string

definition edge_serve :: "http_request \<Rightarrow> receive \<Rightarrow> (int \<times> string) + session \<Rightarrow> edge_reply hub_step" where
  "edge_serve rq receive chosen =
     (case chosen of
        Inl (code, detail) \<Rightarrow> ret (Refused code detail)
      | Inr s \<Rightarrow>
          bnd (if rq_method rq = ''DELETE'' then teardown (ss_id s) else ret ()) (\<lambda>_.
          ret (Handed s receive)))"

definition mcp_endpoint :: "ext \<Rightarrow> (string \<Rightarrow> json res) \<Rightarrow> http_request \<Rightarrow> edge_reply hub_step" where
  "mcp_endpoint E loads rq =
     bnd (lift_res (headers_of (rq_headers rq))) (\<lambda>headers.
     bnd (in_world the_engine) (\<lambda>en.
     bnd (edge_identity E loads en rq headers) (\<lambda>(identity_id, receive).
     case identity_id of
       None \<Rightarrow> ret (Refused 401 ''invalid or missing API key or signature'')
     | Some i \<Rightarrow>
         if server_command en (server_of rq) = None then ret (Refused 404 ''unknown server'')
         else
           bnd (edge_session E rq (map_of headers MCP_SESSION_ID_HEADER) i (server_of rq))
             (edge_serve rq receive))))"

section \<open>Facts\<close>

lemma read_events_eq: "read_events n (events, stream) = take n (events @ stream @ replicate n disconnect)"
proof (induction n arbitrary: events stream)
  case (Suc n)
  have pad: "take n (xs @ replicate (Suc n) disconnect) = take n (xs @ replicate n disconnect)" for xs
    by (simp add: replicate_append_same [symmetric] del: replicate_Suc)
  show ?case
  proof (cases events)
    case (Cons e es)
    then show ?thesis using Suc pad [of "es @ stream"] by simp
  next
    case Nil
    show ?thesis
    proof (cases stream)
      case (Cons e es)
      then show ?thesis using Nil Suc pad [of es] by simp
    qed (use Nil Suc in simp)
  qed
qed simp

lemma drain_replays:
  "drain stream = (events, chunks, rest) \<Longrightarrow>
     events @ rest = stream \<or> events @ rest = stream @ [disconnect] \<and> rest = []"
  by (induction stream arbitrary: events chunks rest rule: drain.induct) (auto split: if_splits prod.splits)

lemma buffer_body_replays: "read_events n (snd (buffer_body stream)) = read_events n ([], stream)"
proof -
  obtain events chunks rest where d: "drain stream = (events, chunks, rest)" by (cases "drain stream")
  have "take n (stream @ disconnect # replicate n disconnect) = take n (stream @ replicate n disconnect)"
    by (simp add: take_append replicate_app_Cons_same flip: replicate_Suc)
  then have "take n ((stream @ [disconnect]) @ replicate n disconnect) = take n (stream @ replicate n disconnect)"
    by (simp only: append_assoc append.simps)
  moreover have "read_events n (snd (buffer_body stream)) = take n ((events @ rest) @ replicate n disconnect)"
    by (simp add: buffer_body_def d read_events_eq)
  ultimately show ?thesis using drain_replays [OF d] by (auto simp only: read_events_eq append.simps)
qed

text \<open>
  What \<open>edge_identity\<close> may change: the bookkeeping of the world. What identity it may find: the one
  the request's key, signature or signed session authenticates.
\<close>

definition hub_bookkeeping :: "hub \<Rightarrow> hub \<Rightarrow> bool" where
  "hub_bookkeeping h h' \<longleftrightarrow> (\<exists>w. bookkeeping (h_world h) w \<and> h' = h\<lparr>h_world := w\<rparr>)"

interpretation hub_bookkeeping: step_relation hub_bookkeeping
proof
  fix u v w :: hub
  have "u = u\<lparr>h_world := h_world u\<rparr>" by simp
  with bookkeeping_refl show "hub_bookkeeping u u" unfolding hub_bookkeeping_def by blast
  show "hub_bookkeeping u v \<Longrightarrow> hub_bookkeeping v w \<Longrightarrow> hub_bookkeeping u w"
    unfolding hub_bookkeeping_def by (elim exE conjE) (simp, blast intro: bookkeeping.R_trans)
qed

lemma hub_bookkeeping_in_world: "stays bookkeeping m \<Longrightarrow> stays hub_bookkeeping (in_world m)"
  by (rule staysI) (auto simp: hub_bookkeeping_def in_world_def split: prod.splits dest: staysD)

lemma bookkeeping_verify: "stays bookkeeping (verify_signed_request_tracked E message en)"
  unfolding verify_signed_request_tracked_def
  by (intro bookkeeping.stays_all bookkeeping_count_failure)

lemma verify_tracked_Inr:
  "verify_signed_request_tracked E message en w = (Inr i, w') \<Longrightarrow> verify_signed_request E message en = Inr i"
  by (auto simp: verify_signed_request_tracked_def bnd_Inr_iff)

definition authenticated ::
  "ext \<Rightarrow> (string \<Rightarrow> json res) \<Rightarrow> http_request \<Rightarrow> (string \<times> string) list \<Rightarrow> hub \<Rightarrow> string \<Rightarrow> bool"
where
  "authenticated E loads rq headers h i \<longleftrightarrow>
     (let en = w_engine (h_world h) in
      case map_of headers KEY_HEADER of
        Some key \<Rightarrow> resolve_identity E (Some key) en = Some i
      | None \<Rightarrow>
          if rq_method rq = ''POST'' then
            (\<exists>d. loads (fst (buffer_body (rq_stream rq))) = Inr (JObj d)
               \<and> verify_signed_request E (JObj d) en = Inr (Some i))
          else
            (\<exists>k s x. map_of headers MCP_SESSION_ID_HEADER = Some k \<and> map_of (h_sessions h) k = Some s
               \<and> ic_identity_id (ss_interceptor s) = i \<and> identity_of en i = Some x \<and> id_auth_mode x = Signed))"

lemma stays_signed_session: "stays hub_bookkeeping (signed_session_identity en session_id)"
  unfolding signed_session_identity_def get_session_def by (intro hub_bookkeeping.stays_all)

lemma stays_edge_identity: "stays hub_bookkeeping (edge_identity E loads en rq headers)"
  unfolding edge_identity_def
  by (cases "buffer_body (rq_stream rq)")
    (auto intro!: hub_bookkeeping.stays_all hub_bookkeeping_in_world bookkeeping_resolve bookkeeping_verify
      stays_signed_session split: json.split)

lemma edge_identity_Inr:
  assumes "edge_identity E loads (w_engine (h_world h)) rq headers h = (Inr (Some i, receive), h')"
  shows "authenticated E loads rq headers h i
    \<and> (\<forall>n. read_events n receive = read_events n ([], rq_stream rq))"
proof (cases "map_of headers KEY_HEADER")
  case (Some key)
  obtain r w where m: "resolve_identity_tracked E (Some key) (w_engine (h_world h)) (h_world h) = (r, w)"
    by fastforce
  with resolve_identity_tracked_run [of E "Some key" "w_engine (h_world h)" "h_world h"]
  have "r = Inr (resolve_identity E (Some key) (w_engine (h_world h)))" by simp
  with Some assms m show ?thesis
    by (auto simp: edge_identity_def in_world_def bnd_def authenticated_def)
next
  case none: None
  show ?thesis
  proof (cases "rq_method rq = ''POST''")
    case True
    obtain body replay where b: "buffer_body (rq_stream rq) = (body, replay)"
      by (cases "buffer_body (rq_stream rq)")
    from assms none True b obtain message where "parsed_body loads body = Inr message"
      and id: "(case message of
                  Some (JObj d) \<Rightarrow> in_world (verify_signed_request_tracked E (JObj d) (w_engine (h_world h)))
                | _ \<Rightarrow> ret None) h = (Inr (Some i), h')" and rcv: "receive = replay"
      by (auto simp: edge_identity_def bnd_Inr_iff)
    from id obtain d where "message = Some (JObj d)"
      and v: "verify_signed_request E (JObj d) (w_engine (h_world h)) = Inr (Some i)"
      by (auto simp: in_world_def split: option.splits json.splits prod.splits dest: verify_tracked_Inr)
    moreover from this \<open>parsed_body loads body = Inr message\<close> have "loads body = Inr (JObj d)"
      by (auto simp: parsed_body_def split: sum.splits exc.splits)
    moreover have "\<forall>n. read_events n receive = read_events n ([], rq_stream rq)"
      using buffer_body_replays [of _ "rq_stream rq"] b rcv by simp
    ultimately show ?thesis using none True b by (auto simp: authenticated_def)
  next
    case False
    with assms none show ?thesis
      by (auto simp: edge_identity_def bnd_Inr_iff authenticated_def signed_session_identity_def
          get_session_def Let_def split: option.splits if_splits)
  qed
qed

lemma edge_session_Inl:
  assumes "edge_session E rq session_id i v h = (Inr (Inl (code, detail)), h')"
  shows "if code = 503 then rq_method rq = ''POST'' \<and> session_id = None
    else (code = 400 \<or> code = 401 \<or> code = 404) \<and> h' = h"
  using assms
  by (auto simp: edge_session_def get_session_def try_catch_Inr_iff bnd_Inr_iff split: option.splits if_splits)

text \<open>The session an admitted request is handed to.\<close>

definition chosen_session ::
  "ext \<Rightarrow> http_request \<Rightarrow> string option \<Rightarrow> string \<Rightarrow> hub \<Rightarrow> session \<Rightarrow> hub \<Rightarrow> bool"
where
  "chosen_session E rq session_id i h s h' \<longleftrightarrow>
     ic_identity_id (ss_interceptor s) = i \<and> ic_server_id (ss_interceptor s) = server_of rq
     \<and> (case session_id of
          Some k \<Rightarrow> map_of (h_sessions h) k = Some s
        | None \<Rightarrow> rq_method rq = ''POST'' \<and> h_sessions h' = h_sessions h @ [(ss_id s, s)]
            \<and> records E SESSION_START i (Some (server_of rq)) None [(''session_id'', JStr (ss_id s))] None
                (en_version (w_engine (h_world h))) (last (w_audit (h_world h'))))"

lemma edge_session_Inr:
  assumes run: "edge_session E rq session_id i (server_of rq) h = (Inr (Inr s), h')"
    and fresh: "map_of (h_sessions h) (x_uuid E (w_uuids (h_world h))) = None"
  shows "chosen_session E rq session_id i h s h'"
proof (cases session_id)
  case (Some k)
  with run show ?thesis
    by (auto simp: edge_session_def get_session_def chosen_session_def split: option.splits if_splits)
next
  case None
  with run have post: "rq_method rq = ''POST''" and cr: "create_session E i (server_of rq) h = (Inr s, h')"
    by (auto simp: edge_session_def try_catch_Inr_iff bnd_Inr_iff split: if_splits)
  from create_session_run [OF cr fresh] None post show ?thesis
    by (auto simp: chosen_session_def update_new [OF fresh])
qed

lemma edge_serve_Handed:
  "edge_serve rq receive chosen h = (Inr (Handed s receive'), h') \<Longrightarrow>
     chosen = Inr s \<and> receive' = receive
     \<and> (if rq_method rq = ''DELETE'' then teardown (ss_id s) h = (Inr (), h') else h' = h)"
  by (auto simp: edge_serve_def bnd_Inr_iff split: sum.splits if_splits)

lemma edge_serve_Refused:
  "edge_serve rq receive chosen h = (Inr (Refused code detail), h') \<Longrightarrow> chosen = Inl (code, detail) \<and> h' = h"
  by (auto simp: edge_serve_def bnd_Inr_iff split: sum.splits if_splits)

lemma mcp_endpoint_run:
  assumes "mcp_endpoint E loads rq h = (r, h')"
  shows "(\<exists>e. r = Inl e \<and> hub_bookkeeping h h')
    \<or> r = Inr (Refused 401 ''invalid or missing API key or signature'') \<and> hub_bookkeeping h h'
    \<or> (\<exists>headers i receive h1. headers_of (rq_headers rq) = Inr headers \<and> hub_bookkeeping h h1
        \<and> authenticated E loads rq headers h i \<and> (\<forall>n. read_events n receive = read_events n ([], rq_stream rq))
        \<and> (if server_command (w_engine (h_world h)) (server_of rq) = None
           then r = Inr (Refused 404 ''unknown server'') \<and> h' = h1
           else bnd (edge_session E rq (map_of headers MCP_SESSION_ID_HEADER) i (server_of rq))
             (edge_serve rq receive) h1 = (r, h')))"
proof (cases "headers_of (rq_headers rq)")
  case (Inl e)
  with assms show ?thesis by (auto simp: mcp_endpoint_def bnd_def intro: hub_bookkeeping.R_refl)
next
  case (Inr headers)
  let ?id = "edge_identity E loads (w_engine (h_world h)) rq headers"
  obtain r1 h1 where id: "?id h = (r1, h1)" by (cases "?id h")
  then have b: "hub_bookkeeping h h1" by (rule staysD [OF stays_edge_identity])
  have pre: "bnd (in_world the_engine) f h = f (w_engine (h_world h)) h" for f :: "engine \<Rightarrow> edge_reply hub_step"
    by (simp add: bnd_def in_world_def the_engine_def)
  show ?thesis
  proof (cases r1)
    case (Inl e)
    with assms Inr id b show ?thesis
      by (auto simp: mcp_endpoint_def pre bnd_run_Inl [of ?id, OF id [unfolded Inl]] bnd_def [of "lift_res x" for x])
  next
    case ok: (Inr p)
    obtain who receive where p: "p = (who, receive)" by (cases p)
    note step = bnd_run_Inr [of ?id, OF id [unfolded ok p]]
    show ?thesis
    proof (cases who)
      case None
      with assms Inr b show ?thesis by (simp add: mcp_endpoint_def pre step bnd_def [of "lift_res x" for x])
    next
      case (Some i)
      with id ok p have a: "authenticated E loads rq headers h i"
        "\<forall>n. read_events n receive = read_events n ([], rq_stream rq)"
        using edge_identity_Inr [of E loads h rq headers i receive h1] by simp_all
      from assms Inr Some have "(if server_command (w_engine (h_world h)) (server_of rq) = None
           then r = Inr (Refused 404 ''unknown server'') \<and> h' = h1
           else bnd (edge_session E rq (map_of headers MCP_SESSION_ID_HEADER) i (server_of rq))
             (edge_serve rq receive) h1 = (r, h'))"
        by (auto simp: mcp_endpoint_def pre step bnd_def [of "lift_res x" for x])
      with Inr b a show ?thesis by blast
    qed
  qed
qed

text \<open>The registry through the endpoint.\<close>

lemma hub_bookkeeping_keeps: "hub_bookkeeping h h' \<Longrightarrow> keeps (hub_ok E) h h'"
  by (auto simp: hub_bookkeeping_def keeps_def bookkeeping_fields log_grows_def intro!: hub_ok_grows)

lemma edge_session_keeps:
  assumes run: "edge_session E rq session_id i v h = (r, h')"
    and fresh: "map_of (h_sessions h) (x_uuid E (w_uuids (h_world h))) = None"
  shows "keeps (hub_ok E) h h'"
proof (cases "session_id = None \<and> rq_method rq = ''POST''")
  case True
  obtain r1 h1 where cr: "create_session E i v h = (r1, h1)" by (cases "create_session E i v h")
  with run True have "h' = h1"
    by (auto simp: edge_session_def try_catch_def bnd_def split: sum.splits)
  with create_session_keeps [OF cr _ fresh] show ?thesis by (simp add: keeps_def)
next
  case False
  with run have "h' = h" by (auto simp: edge_session_def get_session_def split: option.splits)
  then show ?thesis by (simp add: keeps_def)
qed

lemma mcp_endpoint_keeps:
  assumes run: "mcp_endpoint E loads rq h = (r, h')"
    and fresh: "map_of (h_sessions h) (x_uuid E (w_uuids (h_world h))) = None"
  shows "keeps (hub_ok E) h h'"
  using mcp_endpoint_run [OF run]
proof (elim disjE exE conjE)
  fix headers i receive h1
  assume b: "hub_bookkeeping h h1"
    and rest: "if server_command (w_engine (h_world h)) (server_of rq) = None
           then r = Inr (Refused 404 ''unknown server'') \<and> h' = h1
           else bnd (edge_session E rq (map_of headers MCP_SESSION_ID_HEADER) i (server_of rq))
             (edge_serve rq receive) h1 = (r, h')"
  let ?m = "edge_session E rq (map_of headers MCP_SESSION_ID_HEADER) i (server_of rq)"
  from b have fresh1: "map_of (h_sessions h1) (x_uuid E (w_uuids (h_world h1))) = None"
    using fresh by (auto simp: hub_bookkeeping_def bookkeeping_def)
  have "keeps (hub_ok E) h1 h'"
  proof (cases "server_command (w_engine (h_world h)) (server_of rq) = None")
    case True
    with rest show ?thesis by (simp add: keeps.R_refl)
  next
    case False
    then have rest: "bnd ?m (edge_serve rq receive) h1 = (r, h')" using rest by (simp only: if_False)
    obtain r2 h2 where es: "?m h1 = (r2, h2)" by (cases "?m h1")
    have serve: "stays (keeps (hub_ok E)) (edge_serve rq receive chosen)" for chosen
      unfolding edge_serve_def by (intro keeps.stays_all teardown_keeps)
    show ?thesis
    proof (cases r2)
      case (Inl e)
      with rest es edge_session_keeps [OF es fresh1] show ?thesis by (simp add: bnd_def)
    next
      case (Inr chosen)
      with rest es have "edge_serve rq receive chosen h2 = (r, h')" by (simp add: bnd_def)
      with serve edge_session_keeps [OF es fresh1] show ?thesis by (blast intro: staysD keeps.R_trans)
    qed
  qed
  with hub_bookkeeping_keeps [OF b] show ?thesis by (rule keeps.R_trans)
qed (auto intro: hub_bookkeeping_keeps)

section \<open>Properties\<close>

text \<open>
  Buffering a body loses nothing: read event by event, the replayed stream is the client's
  stream to any length, and the body is the concatenation of its parts up to the last one.
\<close>
theorem buffered_body_replayed:
  "read_events n (snd (buffer_body stream)) = read_events n ([], stream)
   \<and> fst (buffer_body (map (\<lambda>b. HttpRequest (Some b) True) bs @ HttpRequest (Some c) False # rest))
      = concat bs @ c"
proof -
  have "drain (map (\<lambda>b. HttpRequest (Some b) True) bs @ HttpRequest (Some c) False # rest)
      = (map (\<lambda>b. HttpRequest (Some b) True) bs @ [HttpRequest (Some c) False], bs @ [c], rest)"
    by (induction bs) (simp_all add: body_part_def)
  then show ?thesis by (simp add: buffer_body_replays) (simp add: buffer_body_def)
qed

text \<open>
  C9: A request reaches a transport only as its own: its key, its signature or (for a stream or a
  close) its signed session authenticated an identity, the server is registered, the session
  belongs to exactly that identity and server, being registered under the request's session id
  or, for a POST without one, newly created and recorded; and the transport reads the client's
  stream unchanged.
\<close>
theorem handed_only_to_owner:
  assumes "mcp_endpoint E loads rq h = (Inr (Handed s receive), h')"
    and "map_of (h_sessions h) (x_uuid E (w_uuids (h_world h))) = None"
  shows "\<exists>headers i. headers_of (rq_headers rq) = Inr headers \<and> authenticated E loads rq headers h i
    \<and> server_command (w_engine (h_world h)) (server_of rq) \<noteq> None
    \<and> (\<exists>h1. chosen_session E rq (map_of headers MCP_SESSION_ID_HEADER) i h s h1
         \<and> (if rq_method rq = ''DELETE'' then teardown (ss_id s) h1 = (Inr (), h') else h' = h1))
    \<and> (\<forall>n. read_events n receive = read_events n ([], rq_stream rq))"
proof -
  from mcp_endpoint_run [OF assms(1)] obtain headers i receive1 h1 where
    1: "headers_of (rq_headers rq) = Inr headers" "hub_bookkeeping h h1"
      "authenticated E loads rq headers h i" "\<forall>n. read_events n receive1 = read_events n ([], rq_stream rq)"
      "server_command (w_engine (h_world h)) (server_of rq) \<noteq> None"
    and run: "bnd (edge_session E rq (map_of headers MCP_SESSION_ID_HEADER) i (server_of rq))
             (edge_serve rq receive1) h1 = (Inr (Handed s receive), h')"
    by (auto split: if_splits)
  from 1(2) obtain w where w: "bookkeeping (h_world h) w" "h1 = h\<lparr>h_world := w\<rparr>"
    by (auto simp: hub_bookkeeping_def)
  then have same: "w_engine (h_world h1) = w_engine (h_world h)" "w_uuids (h_world h1) = w_uuids (h_world h)"
    "h_sessions h1 = h_sessions h"
    by (auto simp: bookkeeping_def)
  from run obtain h2 where es: "edge_session E rq (map_of headers MCP_SESSION_ID_HEADER) i (server_of rq) h1
      = (Inr (Inr s), h2)" and rcv: "receive1 = receive"
    and "if rq_method rq = ''DELETE'' then teardown (ss_id s) h2 = (Inr (), h') else h' = h2"
    by (auto simp: bnd_Inr_iff dest!: edge_serve_Handed)
  moreover have "chosen_session E rq (map_of headers MCP_SESSION_ID_HEADER) i h s h2"
    using edge_session_Inr [OF es] assms(2)
    by (cases "map_of headers MCP_SESSION_ID_HEADER") (simp_all add: same chosen_session_def)
  ultimately show ?thesis using 1 rcv by blast
qed

definition demo_request :: http_request where
  "demo_request = \<lparr>rq_method = ''GET'', rq_path = ''/mcp/srv'', rq_root_path = ''/mcp'',
     rq_headers = [(''X-PortunusMCP-Key'', ''key''), (''Mcp-Session-Id'', ''id0'')], rq_stream = []\<rparr>"

definition demo_loads :: "string \<Rightarrow> json res" where
  "demo_loads body = Inl (ValueError ''not JSON'')"

theorem handed_only_to_owner_witness:
  "\<exists>s receive h'. mcp_endpoint demo demo_loads demo_request demo_live = (Inr (Handed s receive), h')
     \<and> ic_identity_id (ss_interceptor s) = ''ops'' \<and> map_of (h_sessions demo_live) ''id0'' = Some s"
proof -
  let ?m = "mcp_endpoint demo demo_loads demo_request demo_live"
  have "(case fst ?m of Inr (Handed s receive) \<Rightarrow> True | _ \<Rightarrow> False)" by code_simp
  then obtain s receive where run: "?m = (Inr (Handed s receive), snd ?m)"
    by (cases ?m) (auto split: sum.splits edge_reply.splits)
  have "map_of (h_sessions demo_live) (x_uuid demo (w_uuids (h_world demo_live))) = None" by code_simp
  from handed_only_to_owner [OF run this] obtain headers i h1 where
    h: "headers_of (rq_headers demo_request) = Inr headers" "authenticated demo demo_loads demo_request headers demo_live i"
      "chosen_session demo demo_request (map_of headers MCP_SESSION_ID_HEADER) i demo_live s h1" by blast
  have "headers_of (rq_headers demo_request) = Inr [(KEY_HEADER, ''key''), (MCP_SESSION_ID_HEADER, ''id0'')]"
    by code_simp
  with h(1) have hd: "headers = [(KEY_HEADER, ''key''), (MCP_SESSION_ID_HEADER, ''id0'')]" by simp
  have "resolve_identity demo (Some ''key'') (w_engine (h_world demo_live)) = Some ''ops''" by code_simp
  with h(2) hd have "i = ''ops''" by (simp add: authenticated_def)
  with h(3) hd run show ?thesis
    by (intro exI [of _ s] exI [of _ receive] exI [of _ "snd ?m"])
      (simp add: chosen_session_def KEY_HEADER_def MCP_SESSION_ID_HEADER_def)
qed


definition demo_probe :: http_request where
  "demo_probe = demo_request\<lparr>rq_path := ''/mcp/other'', rq_headers := [(KEY_HEADER, ''stolen'')]\<rparr>"


text \<open>
  The registry stays sound through every request, every message of either side, sweeps,
  teardowns and shutdown, whatever fails on the way: session ids and subprocesses are never
  shared, every registered session has its SESSION_START row in the log, and no subprocess runs
  outside the registry.
\<close>
theorem registry_invariant:
  assumes "map_of (h_sessions h) (x_uuid E (w_uuids (h_world h))) = None"
  shows "keeps (hub_ok E) h (snd (mcp_endpoint E loads rq h)) \<and> keeps (hub_ok E) h (snd (create_session E i v h))
    \<and> stays (keeps (hub_ok E)) (teardown k) \<and> stays (keeps (hub_ok E)) sweep_once
    \<and> stays (keeps (hub_ok E)) shutdown_all \<and> stays (keeps (hub_ok E)) (client_to_upstream E s message)
    \<and> stays (keeps (hub_ok E)) (upstream_to_client E s message)"
proof (intro conjI teardown_keeps sweep_once_keeps shutdown_all_keeps client_to_upstream_keeps
    upstream_to_client_keeps)
  show "keeps (hub_ok E) h (snd (mcp_endpoint E loads rq h))"
    by (rule mcp_endpoint_keeps [OF prod.collapse [symmetric] assms])
  show "keeps (hub_ok E) h (snd (create_session E i v h))"
    using create_session_keeps [OF prod.collapse [symmetric] _ assms] by (simp add: keeps_def)
qed

theorem registry_invariant_witness: "hub_ok demo (snd (create_session demo ''bot'' ''srv'' demo_live))"
proof -
  have "map_of (h_sessions demo_live) (x_uuid demo (w_uuids (h_world demo_live))) = None" by code_simp
  from registry_invariant [OF this, THEN conjunct2, THEN conjunct1] demo_live_ok
  show ?thesis unfolding keeps_def by blast
qed

end
