(* ===== verification/Gateway.thy ===== *)
theory Gateway
  imports Edge
begin

text \<open>
  The running gateway as a state machine over all its components: a step is one request at the
  edge, one message of either side of a session, one administrative request, a reload, a sweep, a
  pass of the verifier, or something the surroundings do (time passing, an edited policy file, an
  exiting subprocess, stores that begin or cease to fail). Any step may interleave with any other.
  The lemmas: what every step leaves intact, and what holds of every reachable state.
\<close>

section \<open>Steps\<close>

text \<open>
  The answer or exception of a handler is dropped: the frameworks send it on, or log it. The id
  drawn for a new session is not in use.
\<close>

inductive gateway_step :: "ext \<Rightarrow> (string \<Rightarrow> json res) \<Rightarrow> (json \<Rightarrow> risk_factor res) \<Rightarrow> hub \<Rightarrow> hub \<Rightarrow> bool"
  for E loads lax
where
  edge: "map_of (h_sessions h) (x_uuid E (w_uuids (h_world h))) = None \<Longrightarrow> mcp_endpoint E loads rq h = (r, h') \<Longrightarrow>
    gateway_step E loads lax h h'"
| client: "(k, s) \<in> set (h_sessions h) \<Longrightarrow> client_to_upstream E s message h = (r', h') \<Longrightarrow>
    gateway_step E loads lax h h'"
| upstream: "(k, s) \<in> set (h_sessions h) \<Longrightarrow> upstream_to_client E s message h = (r'', h') \<Longrightarrow>
    gateway_step E loads lax h h'"
| stream_end: "teardown k h = (u, h') \<Longrightarrow> gateway_step E loads lax h h'"
| sweep: "sweep_once h = (u, h') \<Longrightarrow> gateway_step E loads lax h h'"
| tool_approval: "in_world (approve_tool E key v t) h = (a, h') \<Longrightarrow> gateway_step E loads lax h h'"
| call_approval: "in_world (approve_call E key aid) h = (a, h') \<Longrightarrow> gateway_step E loads lax h h'"
| rollback: "in_world (rollback_policy E key n) h = (a, h') \<Longrightarrow> gateway_step E loads lax h h'"
| decision_read: "in_world (get_decision E lax key n) h = (a, h') \<Longrightarrow> gateway_step E loads lax h h'"
| explanation: "in_world (explain_decision E key xr) h = (a, h') \<Longrightarrow> gateway_step E loads lax h h'"
| simulation: "in_world (simulate_policy E key sr) h = (b, h') \<Longrightarrow> gateway_step E loads lax h h'"
| reload: "in_world (reload_policy E) h = (u, h') \<Longrightarrow> gateway_step E loads lax h h'"
| verification: "in_world (verify_increment E) h = (c, h') \<Longrightarrow> gateway_step E loads lax h h'"
| time: "0 \<le> d \<Longrightarrow>
    gateway_step E loads lax h (h\<lparr>h_world := (h_world h)\<lparr>w_clock := w_clock (h_world h) + d\<rparr>\<rparr>)"
| policy_edit: "gateway_step E loads lax h (h\<lparr>h_world := (h_world h)\<lparr>w_policy_bytes := raw\<rparr>\<rparr>)"
| surroundings: "gateway_step E loads lax h
    (h\<lparr>h_world := (h_world h)\<lparr>w_faults := fs, w_races := rc, w_replies := rp\<rparr>\<rparr>)"
| exit: "process_of p h = Running \<Longrightarrow> gateway_step E loads lax h (set_process p Exited h)"

text \<open>Where a run starts: a start-up that succeeded, no session yet and no subprocess.\<close>

definition gateway_start :: "ext \<Rightarrow> hub \<Rightarrow> bool" where
  "gateway_start E h \<longleftrightarrow> (\<exists>w. snapshots_match E w \<and> startup E w = (Inr (), h_world h))
     \<and> h_sessions h = [] \<and> h_processes h = []"

section \<open>What a step leaves intact\<close>

text \<open>The live policy is recorded, under the hash of its bytes.\<close>

definition live_recorded :: "world \<Rightarrow> bool" where
  "live_recorded w \<longleftrightarrow> (en_version (w_engine w), en_content_hash (w_engine w)) \<in> set (history w)"

text \<open>
  The log only grows, recorded versions never change, approvals move along their lifecycle, and
  a recorded live policy stays one or gives way to one.
\<close>

definition evolves :: "ext \<Rightarrow> world \<Rightarrow> world \<Rightarrow> bool" where
  "evolves E w w' \<longleftrightarrow> log_grows w w' \<and> recorded_safely E w w' \<and> ap_evolves w w' \<and> keeps live_recorded w w'"

lemma evolves_same:
  "w_audit w' = w_audit w \<Longrightarrow> w_versions w' = w_versions w \<Longrightarrow> w_snapshots w' = w_snapshots w \<Longrightarrow>
   w_approvals w' = w_approvals w \<Longrightarrow> w_engine w' = w_engine w \<Longrightarrow> evolves E w w'"
  by (simp add: evolves_def log_grows_def recorded_safely_same ap_evolves_same keeps_def live_recorded_def history_def)

lemma stays_evolves:
  "stays log_grows m \<Longrightarrow> stays (recorded_safely E) m \<Longrightarrow> stays ap_evolves m \<Longrightarrow> stays (keeps live_recorded) m \<Longrightarrow>
   stays (evolves E) m"
  by (simp add: stays_def evolves_def)

interpretation log_grows: tables_ok log_grows
  by unfold_locales (simp_all add: log_grows_def)

interpretation recorded_safely: tables_ok "recorded_safely E" for E
  by unfold_locales (simp_all add: recorded_safely_same)

interpretation live_recorded: tables_ok "keeps live_recorded"
  by unfold_locales (simp_all add: keeps_def live_recorded_def history_def)

interpretation evolves: messages_ok "evolves E" for E
proof
  show "evolves E w w" for w by (rule evolves_same) simp_all
  show "evolves E u v \<Longrightarrow> evolves E v w \<Longrightarrow> evolves E u w" for u v w
    unfolding evolves_def
    by (elim conjE, intro conjI)
      (erule (1) log_grows.R_trans, erule (1) recorded_safely_trans, erule (1) ap_evolves_trans, erule (1) keeps.R_trans)
  show "evolves E w (w\<lparr>w_audit := w_audit w @ [row], w_next_seq := q\<rparr>)" for w row q
    unfolding evolves_def
    by (intro conjI log_grows.R_append recorded_safely.R_append ap_evolves.R_append live_recorded.R_append)
  show "stays (evolves E) (redeem_approval a i s t h)" for a i s t h
    by (intro stays_evolves log_grows.redeem_approval_ok recorded_safely.redeem_approval_ok
        live_recorded.redeem_approval_ok redeem_approval_evolves)
  show "stays (evolves E) (create_approval F i s t h n)" for F i s t h n
    by (intro stays_evolves log_grows.create_approval_ok recorded_safely.create_approval_ok
        live_recorded.create_approval_ok create_approval_evolves)
qed (rule evolves_same; simp)+

lemma quiet_evolves_all: "stays quiet m \<Longrightarrow> stays (evolves E) m"
  by (erule stays_mono) (auto simp: quiet_fields intro: evolves_same)

lemma bookkeeping_evolves: "bookkeeping w w' \<Longrightarrow> evolves E w w'"
  by (rule evolves_same) (simp_all add: bookkeeping_fields)

lemma bookkeeping_evolves_all: "stays bookkeeping m \<Longrightarrow> stays (evolves E) m"
  by (erule stays_mono) (rule bookkeeping_evolves)

lemma evolves_with_admin: "(\<And>i. stays (evolves E) (f i)) \<Longrightarrow> stays (evolves E) (with_admin F key f)"
  by (rule stays_with_admin) (assumption | rule bookkeeping_evolves evolves.R_trans)+

text \<open>The administrative operations, the reload and the verifier.\<close>

context baselines_ok
begin

lemma stays_approve_drift: "stays R (approve_drift E s t by)"
proof -
  have "stays R (case x of Some (c # cs) \<Rightarrow> ret y | _ \<Rightarrow> n)" if "stays R n" for x :: "string option" and y n
    using that by (auto intro: stays_ret split: option.split list.split)
  then show ?thesis
    unfolding approve_drift_def baseline_of_def drift_write_def
    by (intro append_intros stays_db_commit R_baselines)
qed

end

context tables_ok
begin

lemma stays_approve_approval: "stays R (approve_approval E aid by)"
  unfolding approve_approval_def locked_def set_approval_def
  by (intro append_intros stays_db_commit R_approvals)

lemma stays_expire_stale: "stays R (expire_stale E)"
  unfolding expire_stale_def by (intro append_intros stays_db_commit R_approvals)

end

lemma evolves_approve_approval: "stays (evolves E) (approve_approval F aid by)"
  by (intro stays_evolves log_grows.stays_approve_approval recorded_safely.stays_approve_approval
      live_recorded.stays_approve_approval approve_approval_evolves)

lemma evolves_approve_tool: "stays (evolves E) (approve_tool F key s t)"
  unfolding approve_tool_def
  by (intro evolves_with_admin evolves.stays_attempt evolves.append_intros evolves.stays_approve_drift)

lemma evolves_approve_call: "stays (evolves E) (approve_call F key aid)"
  unfolding approve_call_def apply_decay_def Let_def
  by (intro evolves_with_admin evolves.stays_attempt evolves.append_intros evolves_approve_approval)

lemma evolves_verify_increment: "stays (evolves E) (verify_increment F)"
  unfolding verify_increment_def load_anchor_def end_pass_def
  by (intro evolves.append_intros evolves.stays_db_commit) (rule evolves_same; simp)

text \<open>Relations that leave the versions, the snapshots and the live policy free.\<close>

locale policies_ok = append_ok R for R :: "world \<Rightarrow> world \<Rightarrow> bool" +
  assumes R_versions: "R w (w\<lparr>w_versions := v\<rparr>)"
    and R_snapshots: "R w (w\<lparr>w_snapshots := ss\<rparr>)"
    and R_engine: "R w (w\<lparr>w_engine := en\<rparr>)"
begin

lemma stays_swap: "stays R (swap en)"
  by (simp add: swap_def stays_def R_engine)

lemma stays_read_file: "stays R (read_file path)"
  unfolding read_file_def by (rule stays_faulty) (simp add: stays_def R_refl split: option.split)

lemma stays_write_snapshot: "stays R (write_snapshot E en)"
  unfolding write_snapshot_def write_file_def file_exists_def Let_def
  by (intro append_intros stays_faulty stays_read_file) (simp add: stays_def R_snapshots)

lemma stays_record_activation: "stays R (record_activation E en by)"
  unfolding record_activation_def add_version_def
  by (intro append_intros stays_get_version stays_max_version stays_write_snapshot stays_db_commit R_versions)

lemma stays_record_rollback: "stays R (record_rollback en by)"
  unfolding record_rollback_def by (intro append_intros stays_get_version stays_db_commit R_versions)

lemma stays_reload_policy: "stays R (reload_policy E)"
  unfolding reload_policy_def
  by (intro append_intros stays_load_candidate stays_record_activation stays_swap)

lemma stays_rollback_policy:
  assumes "\<And>w w'. bookkeeping w w' \<Longrightarrow> R w w'"
  shows "stays R (rollback_policy E key n)"
  unfolding rollback_policy_def file_exists_def
  by (rule stays_with_admin)
    (intro append_intros stays_attempt stays_read_file stays_record_rollback stays_swap
      | rule assms R_trans, assumption+)+

end

interpretation log_grows: policies_ok log_grows
  by unfold_locales (simp_all add: log_grows_def)

interpretation ap_evolves: policies_ok ap_evolves
  by unfold_locales (simp_all add: ap_evolves_same)

lemma rollback_policy_safely: "stays (recorded_safely E) (rollback_policy F key n)"
proof -
  have "stays (recorded_safely E) (read_file path)" for path
    unfolding read_file_def
    by (rule recorded_safely.stays_faulty) (simp add: stays_def recorded_safely.R_refl split: option.split)
  then show ?thesis
    unfolding rollback_policy_def file_exists_def
    by (intro stays_with_admin recorded_safely.append_intros recorded_safely.stays_attempt record_rollback_safely
        swap_safely) (auto simp: recorded_safely_same bookkeeping_fields intro: recorded_safely_trans)
qed

lemma evolves_rollback_policy: "stays (evolves E) (rollback_policy F key n)"
proof (intro stays_evolves rollback_policy_safely log_grows.stays_rollback_policy ap_evolves.stays_rollback_policy)
  show "stays (keeps live_recorded) (rollback_policy F key n)"
  proof (rule staysI)
    fix w r w' assume "rollback_policy F key n w = (r, w')"
    from rollback_run [OF this] show "keeps live_recorded w w'"
      by (auto simp: keeps_def live_recorded_def rolled_back_def unactivated_def)
  qed
qed (simp_all add: log_grows_def ap_evolves_same bookkeeping_fields)

lemma evolves_reload_policy: "stays (evolves E) (reload_policy E)"
proof (intro stays_evolves reload_policy_safely log_grows.stays_reload_policy ap_evolves.stays_reload_policy)
  show "stays (keeps live_recorded) (reload_policy E)"
  proof (rule staysI)
    fix w r w' assume run: "reload_policy E w = (r, w')"
    with reload_policy_safely have "recorded_safely E w w'" by (rule staysD)
    then have grows: "set (history w) \<subseteq> set (history w')" by (auto simp: recorded_safely_def versions_evolve_def)
    from run show "keeps live_recorded w w'"
    proof (cases rule: reload_policy_cases)
      case kept
      with grows show ?thesis by (auto simp: keeps_def live_recorded_def)
    next
      case (swapped en w1 new w2)
      from swapped(1) have "engine_hash_ok E en" by (auto dest: load_candidate_hash)
      from record_activation_run [OF swapped(2) this, of new] have "activation_recorded en new w1 w2" by simp
      with swapped(4,5) show ?thesis by (cases new) (auto simp: keeps_def live_recorded_def activation_recorded_def)
    qed
  qed
qed

text \<open>The same of the hub: its world evolves, whatever happens to sessions and subprocesses.\<close>

definition hub_evolves :: "ext \<Rightarrow> hub \<Rightarrow> hub \<Rightarrow> bool" where
  "hub_evolves E h h' \<longleftrightarrow> evolves E (h_world h) (h_world h')"

interpretation hub_evolves: step_relation "hub_evolves E" for E
proof
  show "hub_evolves E h h" for h by (simp add: hub_evolves_def evolves.R_refl)
  show "hub_evolves E u v \<Longrightarrow> hub_evolves E v w \<Longrightarrow> hub_evolves E u w" for u v w
    unfolding hub_evolves_def by (rule evolves.R_trans)
qed

lemma in_world_evolves: "stays (evolves E) m \<Longrightarrow> stays (hub_evolves E) (in_world m)"
  by (rule staysI) (auto simp: hub_evolves_def in_world_def split: prod.splits dest: staysD)

lemma modify_evolves: "(\<And>h. h_world (f h) = h_world h) \<Longrightarrow> stays (hub_evolves E) (modify f)"
  by (simp add: stays_def hub_evolves_def evolves.R_refl)

lemma spawn_evolves: "stays (hub_evolves E) (spawn command)"
proof (rule staysI)
  fix h r h' assume "spawn command h = (r, h')"
  from spawn_run [OF this] obtain w where "quiet (h_world h) w" "h_world h' = w" by auto
  then show "hub_evolves E h h'" by (simp add: hub_evolves_def evolves_same quiet_fields)
qed

lemma stop_process_evolves: "stays (hub_evolves E) (stop_process pid)"
proof (rule staysI)
  fix h r h' assume "stop_process pid h = (r, h')"
  with stop_process_run [of pid h] obtain st where "h' = set_process pid st h" by auto
  then show "hub_evolves E h h'" by (simp add: hub_evolves_def set_process_def evolves.R_refl)
qed

lemma touch_evolves: "stays (hub_evolves E) (touch F k)"
  unfolding touch_def by (intro in_world_evolves evolves.append_intros)

lemma teardown_evolves: "stays (hub_evolves E) (teardown k)"
  unfolding teardown_def get_session_def
  by (intro hub_evolves.stays_all modify_evolves stop_process_evolves in_world_evolves evolves.append_intros) simp

lemma create_session_evolves: "stays (hub_evolves E) (create_session F i v)"
  unfolding create_session_def register_def Let_def
  by (intro hub_evolves.stays_all modify_evolves spawn_evolves touch_evolves in_world_evolves evolves.append_intros)
    simp_all

lemma sweep_once_evolves: "stays (hub_evolves E) sweep_once"
  unfolding sweep_once_def sweep_session_def r_exists_def
  by (intro hub_evolves.stays_all teardown_evolves in_world_evolves evolves.stays_faulty evolves.append_intros)

lemma client_to_upstream_evolves: "stays (hub_evolves E) (client_to_upstream F s message)"
  unfolding client_to_upstream_def or_teardown_def
  by (intro hub_evolves.stays_all touch_evolves teardown_evolves in_world_evolves evolves.stays_on_client_message)

lemma upstream_to_client_evolves: "stays (hub_evolves E) (upstream_to_client F s message)"
  unfolding upstream_to_client_def or_teardown_def
  by (intro hub_evolves.stays_all teardown_evolves in_world_evolves evolves.stays_on_upstream_message)

lemma edge_identity_evolves: "stays (hub_evolves E) (edge_identity F loads en rq headers)"
  using stays_edge_identity by (rule stays_mono) (auto simp: hub_evolves_def hub_bookkeeping_def bookkeeping_evolves)

lemma mcp_endpoint_evolves: "stays (hub_evolves E) (mcp_endpoint F loads rq)"
proof -
  have session: "stays (hub_evolves E) (edge_session F rq k i v)" for k i v
    unfolding edge_session_def get_session_def
    by (intro hub_evolves.stays_all create_session_evolves)
  have serve: "stays (hub_evolves E) (edge_serve rq receive chosen)" for receive chosen
    unfolding edge_serve_def by (intro hub_evolves.stays_all teardown_evolves)
  show ?thesis
    unfolding mcp_endpoint_def
    by (intro hub_evolves.stays_all in_world_evolves evolves.stays_the_engine edge_identity_evolves session serve)
qed

section \<open>Reachable states\<close>

text \<open>One step keeps the registry sound and lets the world evolve.\<close>

definition sound_step :: "ext \<Rightarrow> hub \<Rightarrow> hub \<Rightarrow> bool" where
  "sound_step E h h' \<longleftrightarrow> hub_evolves E h h' \<and> keeps (hub_ok E) h h'"

lemma sound_stepI: "stays (hub_evolves E) m \<Longrightarrow> stays (keeps (hub_ok E)) m \<Longrightarrow> m h = (r, h') \<Longrightarrow> sound_step E h h'"
  unfolding sound_step_def by (intro conjI) (erule (1) staysD)+

lemma sound_in_world:
  assumes "stays (evolves E) m" and "in_world m h = (r, h')"
  shows "sound_step E h h'"
proof -
  have "stays log_grows m" using assms(1) by (rule stays_mono) (simp add: evolves_def)
  from sound_stepI [OF in_world_evolves [OF assms(1)] in_world_keeps [OF this] assms(2)] show ?thesis .
qed

lemma sound_world: "evolves E (h_world h) w \<Longrightarrow> sound_step E h (h\<lparr>h_world := w\<rparr>)"
  by (simp add: sound_step_def hub_evolves_def keeps_def hub_ok_grows evolves_def)

lemma gateway_step_sound: "gateway_step E loads lax h h' \<Longrightarrow> sound_step E h h'"
proof (induction rule: gateway_step.induct)
  case (edge h rq r h')
  with mcp_endpoint_keeps [OF edge(2,1)] staysD [OF mcp_endpoint_evolves edge(2)] show ?case
    by (simp add: sound_step_def)
next
  case (client k s h message r h')
  then show ?case by (intro sound_stepI [OF client_to_upstream_evolves client_to_upstream_keeps])
next
  case (upstream k s h message r h')
  then show ?case by (intro sound_stepI [OF upstream_to_client_evolves upstream_to_client_keeps])
next
  case (stream_end k h u h')
  then show ?case by (intro sound_stepI [OF teardown_evolves teardown_keeps])
next
  case (sweep h u h')
  then show ?case by (intro sound_stepI [OF sweep_once_evolves sweep_once_keeps])
next
  case (tool_approval key v t h a h')
  then show ?case by (rule sound_in_world [OF evolves_approve_tool])
next
  case (call_approval key aid h a h')
  then show ?case by (rule sound_in_world [OF evolves_approve_call])
next
  case (rollback key n h a h')
  then show ?case by (rule sound_in_world [OF evolves_rollback_policy])
next
  case (decision_read key n h a h')
  then show ?case by (rule sound_in_world [OF bookkeeping_evolves_all [OF bookkeeping_get_decision]])
next
  case (explanation key xr h a h')
  then show ?case by (rule sound_in_world [OF bookkeeping_evolves_all [OF bookkeeping_explain_decision]])
next
  case (simulation key sr h b h')
  then show ?case by (rule sound_in_world [OF bookkeeping_evolves_all [OF bookkeeping_simulate_policy]])
next
  case (reload h u h')
  then show ?case by (rule sound_in_world [OF evolves_reload_policy])
next
  case (verification h c h')
  then show ?case by (rule sound_in_world [OF evolves_verify_increment])
next
  case (exit p h)
  have "h_processes h ! i = Running" if "i < length (h_processes h)" "(h_processes h)[p := Exited] ! i = Running" for i
    using still_running [OF that] by simp
  then have "hub_ok E h \<Longrightarrow> hub_ok E (set_process p Exited h)"
    by (simp add: hub_ok_def pids_def session_ok_def set_process_def)
  then show ?case by (simp add: sound_step_def keeps_def hub_evolves_def set_process_def evolves.R_refl)
qed (rule sound_world, rule evolves_same; simp)+

lemma gateway_run_sound: "(gateway_step E loads lax)\<^sup>*\<^sup>* h h' \<Longrightarrow> sound_step E h h'"
proof (induction rule: rtranclp_induct)
  case base
  show ?case by (simp add: sound_step_def hub_evolves.R_refl keeps.R_refl)
next
  case (step v w)
  from gateway_step_sound [OF step.hyps(2)] step.IH show ?case
    unfolding sound_step_def by (blast intro: hub_evolves.R_trans keeps.R_trans)
qed

lemma gateway_start_ok:
  assumes "gateway_start E h"
  shows "hub_ok E h \<and> live_recorded (h_world h) \<and> snapshots_match E (h_world h)"
proof -
  from assms obtain w where w: "snapshots_match E w" "startup E w = (Inr (), h_world h)" "h_sessions h = []"
    "h_processes h = []" by (auto simp: gateway_start_def)
  then have "hub_ok E h" by (simp add: hub_ok_def pids_def)
  moreover from started_policy_recorded [OF w(2)] obtain raw en where
    "load_bytes E raw = Inr en" "w_engine (h_world h) = en" "(en_version en, x_sha256 E raw) \<in> set (history (h_world h))"
    by blast
  then have "live_recorded (h_world h)"
    using load_bytes_hash [of E raw en] by (simp add: live_recorded_def engine_hash_ok_def)
  moreover have "snapshots_match E (h_world h)"
    using staysD [OF startup_safely w(2)] w(1) by (simp add: recorded_safely_def keeps_def)
  ultimately show ?thesis by blast
qed

section \<open>Properties\<close>

text \<open>
  C10: In every state the gateway can reach from a start-up, whatever requests, messages, reloads,
  rollbacks, sweeps and failures come in whatever order: session ids and subprocesses are never
  shared, every session has its SESSION_START row, no subprocess runs outside the registry, and the
  live policy is a recorded version whose snapshot on disk hashes to the recorded hash.
\<close>
theorem gateway_invariant:
  assumes "gateway_start E h0" and "(gateway_step E loads lax)\<^sup>*\<^sup>* h0 h"
  shows "hub_ok E h
    \<and> (en_version (w_engine (h_world h)), en_content_hash (w_engine (h_world h))) \<in> set (history (h_world h))
    \<and> (\<exists>bytes. map_of (w_snapshots (h_world h)) (snapshot_path E (en_version (w_engine (h_world h)))) = Some bytes
         \<and> x_sha256 E bytes = en_content_hash (w_engine (h_world h)))"
proof -
  note start = gateway_start_ok [OF assms(1)] and run = gateway_run_sound [OF assms(2)]
  from start run have ok: "hub_ok E h" "live_recorded (h_world h)" "snapshots_match E (h_world h)"
    by (auto simp: sound_step_def keeps_def hub_evolves_def evolves_def recorded_safely_def)
  from ok(2,3) show ?thesis using ok(1) by (auto simp: live_recorded_def snapshots_match_def)
qed

text \<open>
  C11: No run of the gateway rewrites what it recorded: between any two states of a run the audit log
  has only been appended to, no recorded policy version changed its hash and no snapshot its bytes,
  new versions exceed all recorded ones, and every approval has only moved along its lifecycle.
\<close>
theorem gateway_never_rewrites:
  assumes "(gateway_step E loads lax)\<^sup>*\<^sup>* h h'"
  shows "log_grows (h_world h) (h_world h') \<and> versions_evolve (h_world h) (h_world h')
    \<and> ap_evolves (h_world h) (h_world h')"
  using gateway_run_sound [OF assms]
  by (simp add: sound_step_def hub_evolves_def evolves_def recorded_safely_def)

text \<open>
  C12: An approval is spent for good: once a call has redeemed it, no run of the gateway leads to a
  state in which redeeming it again, for whatever call, ends otherwise than in a refusal as a replay.
\<close>
theorem approval_spent_for_good:
  assumes "redeem_approval aid i s t args w = (Inr None, h_world h)"
    and "(gateway_step E loads lax)\<^sup>*\<^sup>* h h'"
    and "redeem_approval aid i2 s2 t2 args2 (h_world h') = (Inr r, w')"
  shows "r = Some (DENY_REPLAY, ''approval has already been used'')"
proof -
  from gateway_run_sound [OF assms(2)] have "ap_evolves (h_world h) (h_world h')"
    by (simp add: sound_step_def hub_evolves_def evolves_def)
  from approval_one_time [OF assms(1) this assms(3)] show ?thesis .
qed

section \<open>Two runs\<close>

text \<open>A start-up and a client's session; a start-up, an edited policy file and a reload.\<close>

definition demo_run_start :: hub where
  "demo_run_start = \<lparr>h_world = demo_started, h_sessions = [], h_processes = [], h_stubborn = (\<lambda>_. False)\<rparr>"

definition demo_initialize :: http_request where
  "demo_initialize = demo_request\<lparr>rq_method := ''POST'', rq_headers := [(KEY_HEADER, ''key'')]\<rparr>"

definition demo_joined :: hub where
  "demo_joined = snd (mcp_endpoint demo_files demo_loads demo_initialize demo_run_start)"

definition demo_edited :: hub where
  "demo_edited = demo_run_start\<lparr>h_world := demo_started\<lparr>w_policy_bytes := Some ''two''\<rparr>\<rparr>"

definition demo_moved :: hub where
  "demo_moved = demo_run_start\<lparr>h_world := demo_reloaded\<rparr>"

lemma demo_run_joined: "(gateway_step demo_files demo_loads lax)\<^sup>*\<^sup>* demo_run_start demo_joined"
proof -
  have "map_of (h_sessions demo_run_start) (x_uuid demo_files (w_uuids (h_world demo_run_start))) = None"
    by (simp add: demo_run_start_def)
  then have "gateway_step demo_files demo_loads lax demo_run_start demo_joined"
    unfolding demo_joined_def by (rule gateway_step.edge [OF _ prod.collapse [symmetric]])
  then show ?thesis by (rule r_into_rtranclp)
qed

lemma demo_run_moved: "(gateway_step demo_files demo_loads lax)\<^sup>*\<^sup>* demo_run_start demo_moved"
proof -
  let ?step = "gateway_step demo_files demo_loads lax"
  have "?step demo_run_start (demo_run_start\<lparr>h_world := (h_world demo_run_start)\<lparr>w_policy_bytes := Some ''two''\<rparr>\<rparr>)"
    by (rule gateway_step.policy_edit)
  then have 1: "?step demo_run_start demo_edited" by (simp add: demo_edited_def demo_run_start_def)
  have "in_world (reload_policy demo_files) demo_edited
      = (fst (reload_policy demo_files (h_world demo_edited)), demo_moved)"
    by (simp add: in_world_def demo_edited_def demo_moved_def demo_reloaded_def split_beta)
  then have "?step demo_edited demo_moved" by (rule gateway_step.reload)
  with r_into_rtranclp [of ?step, OF 1] show ?thesis by (rule rtranclp.rtrancl_into_rtrancl)
qed

lemma demo_run_started: "gateway_start demo_files demo_run_start"
proof -
  have "snapshots_match demo_files demo_boot"
    by (simp add: snapshots_match_def history_def demo_boot_def demo_world_def)
  with demo_started_run show ?thesis by (auto simp: gateway_start_def demo_run_start_def)
qed

theorem gateway_invariant_witness:
  "hub_ok demo_files demo_joined \<and> map fst (h_sessions demo_joined) = [''id0'']
   \<and> (1, en_content_hash (w_engine (h_world demo_joined))) \<in> set (history (h_world demo_joined))"
proof -
  have "(case mcp_endpoint demo_files demo_loads demo_initialize demo_run_start of (r, h) \<Rightarrow>
      map fst (h_sessions h) = [''id0''] \<and> en_version (w_engine (h_world h)) = 1)"
    by code_simp
  then have "map fst (h_sessions demo_joined) = [''id0'']" "en_version (w_engine (h_world demo_joined)) = 1"
    by (simp_all add: demo_joined_def split_beta)
  with gateway_invariant [OF demo_run_started demo_run_joined] show ?thesis by auto
qed

theorem gateway_never_rewrites_witness:
  "log_grows demo_started demo_reloaded \<and> history demo_started = [(1, ''one'')]
   \<and> history demo_reloaded = [(1, ''one''), (2, ''two'')]"
  using gateway_never_rewrites [OF demo_run_moved] demo_started_run demo_reloaded_run
  by (simp add: demo_run_start_def demo_moved_def)

definition demo_spent :: hub where
  "demo_spent = \<lparr>h_world = snd (redeem_approval ''id0'' ''bot'' ''srv'' ''write'' ''h'' demo_approved),
     h_sessions = [], h_processes = [], h_stubborn = (\<lambda>_. False)\<rparr>"

definition demo_minute_later :: hub where
  "demo_minute_later = demo_spent\<lparr>h_world := (h_world demo_spent)\<lparr>w_clock := w_clock (h_world demo_spent) + 60\<rparr>\<rparr>"

theorem approval_spent_for_good_witness:
  "fst (redeem_approval ''id0'' ''bot'' ''srv'' ''write'' ''h'' (h_world demo_minute_later))
   = Inr (Some (DENY_REPLAY, ''approval has already been used''))"
proof -
  let ?m = "redeem_approval ''id0'' ''bot'' ''srv'' ''write'' ''h''"
  have "fst (?m demo_approved) = Inr None" by code_simp
  then have first: "?m demo_approved = (Inr None, h_world demo_spent)" by (simp add: demo_spent_def prod_eq_iff)
  have "gateway_step demo demo_loads (\<lambda>v. Inl TypeError) demo_spent demo_minute_later"
    unfolding demo_minute_later_def by (rule gateway_step.time) simp
  note run = r_into_rtranclp [of "gateway_step demo demo_loads (\<lambda>v. Inl TypeError)", OF this]
  have "isl (fst (?m (h_world demo_minute_later))) = False" by code_simp
  then obtain r where r: "fst (?m (h_world demo_minute_later)) = Inr r"
    by (cases "fst (?m (h_world demo_minute_later))") auto
  then have "?m (h_world demo_minute_later) = (Inr r, snd (?m (h_world demo_minute_later)))" by (simp add: prod_eq_iff)
  from approval_spent_for_good [OF first run this] show ?thesis using r by simp
qed

end
