(* ===== verification/Interleaving.thy ===== *)
theory Interleaving
  imports Guarantees Gateway
begin

text \<open>
  A tools/call while the rest of the gateway goes on: the call gives way between its stages, and
  other sessions, administrators, reloads and the clock move the state in between. The lemmas: when
  nothing happens in between it is the call of theory Interceptor, and what a forwarded call has
  passed whatever happens in between.
\<close>

section \<open>The call with its pauses\<close>

text \<open>
  Each stage awaits its stores or the upstream. \<open>env n\<close> is what the others make of the state during
  the pause after stage n. The engine is read again after a pause where the code reads it again.
\<close>

definition meanwhile :: "(world \<Rightarrow> world) \<Rightarrow> unit step" where
  "meanwhile f = modify f"

text \<open>The matched rules are written down before the audit writer waits for its lock and its stores.\<close>

definition allow_amid ::
  "ext \<Rightarrow> interceptor \<Rightarrow> call \<Rightarrow> string option \<Rightarrow> string option
     \<Rightarrow> (int \<times> risk_factor list) option \<Rightarrow> (nat \<Rightarrow> world \<Rightarrow> world) \<Rightarrow> unit verdict step"
where
  "allow_amid E S c approval_id challenge_id scored env =
     bnd the_engine (\<lambda>en.
     bnd (meanwhile (env 7)) (\<lambda>_.
     bnd (try_catch
            (bnd (call_event E S c ALLOW (allow_payload en c approval_id challenge_id scored)
                    (map_option fst scored)) (\<lambda>seq. ret True))
            (\<lambda>e. ret False)) (\<lambda>recorded.
     if \<not> recorded then
       stop (bnd (pop_pending S (cl_id c)) (\<lambda>_.
         ret (rpc_error (cl_id c) AUDIT_UNAVAILABLE_CODE ''audit log unavailable; call denied'' None)))
     else bnd (count_call S c ALLOW) (\<lambda>_. ret (Go ())))))"

definition granted_call_amid ::
  "ext \<Rightarrow> interceptor \<Rightarrow> call \<Rightarrow> identity option \<Rightarrow> server_grant \<Rightarrow> (nat \<Rightarrow> world \<Rightarrow> world) \<Rightarrow> unit verdict step"
where
  "granted_call_amid E S c identity grant env =
     (let conditions = g_compiled grant in
      bnd (if conditions \<noteq> [] then abac_attributes S c else ret []) (\<lambda>abac_attrs.
      proceed (enforce_conditions E S c (filter (\<lambda>x. \<not> references_risk x) conditions) abac_attrs None None) (\<lambda>_.
      bnd (meanwhile (env 2)) (\<lambda>_.
      proceed (drift_stage E S c) (\<lambda>_.
      bnd (meanwhile (env 3)) (\<lambda>_.
      proceed (step_up_stage E S c identity) (\<lambda>challenge_id.
      bnd (meanwhile (env 4)) (\<lambda>_.
      bnd (lift_res (meta_text E (cl_meta c) APPROVAL_META_KEY)) (\<lambda>approval_id.
      proceed (decide_stage E S c approval_id conditions abac_attrs (challenge_id \<noteq> None)) (\<lambda>scored.
      bnd (meanwhile (env 5)) (\<lambda>_.
      proceed (validation_stage E S c) (\<lambda>_.
      bnd (meanwhile (env 6)) (\<lambda>_.
      allow_amid E S c approval_id challenge_id scored env)))))))))))))"

definition authorize_call_amid ::
  "ext \<Rightarrow> interceptor \<Rightarrow> rpc_id \<Rightarrow> (string \<times> json) list option \<Rightarrow> (nat \<Rightarrow> world \<Rightarrow> world) \<Rightarrow> outgoing step"
where
  "authorize_call_amid E S rid params env =
     (let c = call_of E rid params in
      bnd the_engine (\<lambda>en.
      let identity = identity_of en (ic_identity_id S) in
      bnd (proceed (replay_stage E S c identity) (\<lambda>_.
           bnd (meanwhile (env 1)) (\<lambda>_.
           bnd the_engine (\<lambda>en.
           case matching_grant en (Some (ic_identity_id S)) (ic_server_id S) (cl_tool c) of
             None \<Rightarrow> stop (deny_rbac E S c)
           | Some grant \<Rightarrow> granted_call_amid E S c identity grant env)))) (\<lambda>v.
      case v of
        Stop out \<Rightarrow> ret out
      | Go _ \<Rightarrow> ret (Forward (Request rid ''tools/call'' (strip_gateway_meta params))))))"

definition tools_call_amid ::
  "ext \<Rightarrow> interceptor \<Rightarrow> rpc_id \<Rightarrow> (string \<times> json) list option \<Rightarrow> (nat \<Rightarrow> world \<Rightarrow> world) \<Rightarrow> outgoing step"
where
  "tools_call_amid E S rid params env =
     bnd (set_pending S rid ''tools/call'') (\<lambda>_.
     ensure (authorize_call_amid E S rid params env) (emit RequestLatency))"

lemma meanwhile_nothing [simp]: "bnd (meanwhile (\<lambda>w. w)) f = f ()"
  by (simp add: meanwhile_def bnd_def fun_eq_iff)

lemma allow_nothing: "allow_amid E S c a ch scored (\<lambda>n w. w) = allow_stage E S c a ch scored"
  by (simp add: allow_amid_def allow_stage_def)

lemma granted_call_nothing: "granted_call_amid E S c identity g (\<lambda>n w. w) = granted_call E S c identity g"
  unfolding granted_call_amid_def granted_call_def meanwhile_nothing allow_nothing ..

text \<open>
  Handling a call in one go is the special case in which nothing happens during its pauses.
\<close>
theorem undisturbed_call:
  "tools_call_amid E S rid params (\<lambda>n w. w) = on_client_message E S (Request rid ''tools/call'' params)"
  unfolding tools_call_amid_def authorize_call_amid_def meanwhile_nothing granted_call_nothing
  by (simp add: on_client_message_def authorize_call_def)

section \<open>The stages of a forwarded call\<close>

text \<open>What runs of the gateway can make of the state during a pause.\<close>

definition gateway_makes ::
  "ext \<Rightarrow> (string \<Rightarrow> json res) \<Rightarrow> (json \<Rightarrow> risk_factor res) \<Rightarrow> (nat \<Rightarrow> world \<Rightarrow> world) \<Rightarrow> bool"
where
  "gateway_makes E loads lax env \<longleftrightarrow>
     (\<forall>n w. \<exists>h h'. h_world h = w \<and> h_world h' = env n w \<and> (gateway_step E loads lax)\<^sup>*\<^sup>* h h')"

lemma gateway_makes_evolves: "gateway_makes E loads lax env \<Longrightarrow> evolves E w (env n w)"
  unfolding gateway_makes_def
  by (metis gateway_run_sound sound_step_def hub_evolves_def)

lemma meanwhile_Inr [simp]: "meanwhile f w = (Inr u, w') \<longleftrightarrow> w' = f w"
  by (auto simp: meanwhile_def)

lemma granted_call_amid_safe: "yields (safe (cl_id c)) (granted_call_amid E S c identity g env)"
  unfolding granted_call_amid_def drift_stage_def step_up_stage_def decide_stage_def approval_stage_def
    risk_stage_def validation_stage_def deny_validation_def allow_amid_def Let_def
  by (intro safe_intros enforce_safe risk_terminal_refuses refusal_unavailable) simp_all

lemma call_stages_amid_safe:
  "yields (safe (cl_id c)) (proceed (replay_stage E S c identity) (\<lambda>_.
     bnd (meanwhile (env 1)) (\<lambda>_.
     bnd the_engine (\<lambda>en.
     case matching_grant en (Some (ic_identity_id S)) (ic_server_id S) (cl_tool c) of
       None \<Rightarrow> stop (deny_rbac E S c)
     | Some grant \<Rightarrow> granted_call_amid E S c identity grant env))))"
  unfolding replay_stage_def deny_rbac_def by (intro safe_intros granted_call_amid_safe)

lemma authorize_call_amid_Forward:
  assumes "authorize_call_amid E S rid params env w = (Inr (Forward m), w')"
  shows "\<exists>w1 g. replay_stage E S (call_of E rid params) (identity_of (w_engine w) (ic_identity_id S)) w
        = (Inr (Go ()), w1)
    \<and> matching_grant (w_engine (env 1 w1)) (Some (ic_identity_id S)) (ic_server_id S)
        (cl_tool (call_of E rid params)) = Some g
    \<and> granted_call_amid E S (call_of E rid params) (identity_of (w_engine w) (ic_identity_id S)) g env (env 1 w1)
        = (Inr (Go ()), w')"
proof -
  let ?c = "call_of E rid params" and ?x = "identity_of (w_engine w) (ic_identity_id S)"
  let ?k = "\<lambda>en. case matching_grant en (Some (ic_identity_id S)) (ic_server_id S) (cl_tool ?c) of
         None \<Rightarrow> stop (deny_rbac E S ?c) | Some grant \<Rightarrow> granted_call_amid E S ?c ?x grant env"
  from assms obtain v w1 where
    run: "proceed (replay_stage E S ?c ?x) (\<lambda>_. bnd (meanwhile (env 1)) (\<lambda>_. bnd the_engine ?k)) w = (Inr v, w1)"
    and out: "(case v of Stop out \<Rightarrow> ret out
      | Go (_ :: unit) \<Rightarrow> ret (Forward (Request rid ''tools/call'' (strip_gateway_meta params)))) w1
        = (Inr (Forward m), w')"
    unfolding authorize_call_amid_def Let_def bnd_Inr_iff the_engine_def gets_run by auto
  have rid: "cl_id ?c = rid" by (simp add: call_of_def)
  from run have "safe rid v" using call_stages_amid_safe [of ?c E S ?x env] unfolding yields_def rid by blast
  with out have "v = Go ()" and "w' = w1" by (cases v, auto)+
  with run obtain w2 where "replay_stage E S ?c ?x w = (Inr (Go ()), w2)"
    and "?k (w_engine (env 1 w2)) (env 1 w2) = (Inr (Go ()), w')"
    by (auto simp: proceed_Go the_engine_def bnd_Inr_iff)
  then show ?thesis by (auto split: option.splits)
qed

lemma allow_amid_Go:
  assumes "allow_amid E S c a ch scored env w = (Inr (Go u), w')"
  shows "\<exists>seq w1. call_event E S c ALLOW (allow_payload (w_engine w) c a ch scored)
      (map_option fst scored) (env 7 w) = (Inr seq, w1)
    \<and> w_audit w' = w_audit w1 \<and> w_approvals w' = w_approvals w1"
  using assms
  by (auto simp: allow_amid_def the_engine_def count_call_def emit_def bnd_Inr_iff try_ret_Inr
      split: if_splits)

lemma granted_call_amid_Go:
  assumes "granted_call_amid E S c identity g env w = (Inr (Go ()), w')"
  shows "\<exists>attrs ch ap scored w3 w4 w5 w6.
    (g_compiled g = [] \<or> attributes_in (w_engine w) (w_clock w) S c = Inr attrs) \<and> conditions_hold g attrs
    \<and> is_blocked (ic_server_id S) (cl_tool c) (env 2 w) = (Inr False, w3)
    \<and> step_up_stage E S c identity (env 3 w3) = (Inr (Go ch), w4)
    \<and> meta_text E (cl_meta c) APPROVAL_META_KEY = Inr ap
    \<and> decide_stage E S c ap (g_compiled g) attrs (ch \<noteq> None) (env 4 w4) = (Inr (Go scored), w5)
    \<and> validation_stage E S c (env 5 w5) = (Inr (Go ()), w6)
    \<and> allow_amid E S c ap ch scored env (env 6 w6) = (Inr (Go ()), w')"
proof -
  from assms obtain attrs w1 w2 w3 ch w4 ap scored w5 w6 where
    1: "(if g_compiled g \<noteq> [] then abac_attributes S c else ret []) w = (Inr attrs, w1)" and
    2: "enforce_conditions E S c (filter (\<lambda>x. \<not> references_risk x) (g_compiled g)) attrs None None w1
          = (Inr (Go ()), w2)" and
    3: "drift_stage E S c (env 2 w2) = (Inr (Go ()), w3)" and
    4: "step_up_stage E S c identity (env 3 w3) = (Inr (Go ch), w4)"
      "meta_text E (cl_meta c) APPROVAL_META_KEY = Inr ap"
      "decide_stage E S c ap (g_compiled g) attrs (ch \<noteq> None) (env 4 w4) = (Inr (Go scored), w5)"
      "validation_stage E S c (env 5 w5) = (Inr (Go ()), w6)"
      "allow_amid E S c ap ch scored env (env 6 w6) = (Inr (Go ()), w')"
    unfolding granted_call_amid_def Let_def bnd_Inr_iff proceed_Go lift_res_run meanwhile_Inr by auto
  from 1 have a: "g_compiled g = [] \<or> attributes_in (w_engine w) (w_clock w) S c = Inr attrs" and "w1 = w"
    by (auto simp: abac_attributes_run split: if_splits)
  with enforce_conditions_Go [OF 2] have "w2 = w" and "conditions_hold g attrs"
    by (auto simp: conditions_hold_def)
  with a 3 4 drift_stage_Go show ?thesis by blast
qed

lemma evolves_meanwhile: "gateway_makes E loads lax env \<Longrightarrow> stays (evolves E) (meanwhile (env n))"
  unfolding meanwhile_def by (intro staysI) (auto dest: gateway_makes_evolves)

lemma approval_stage_used:
  assumes "decide_stage E S c (Some a) conditions attrs verified w = (Inr (Go scored), w1)" and "evolves E w1 w2"
  shows "\<exists>row. find_approval a (w_approvals w2) = Some row \<and> ap_consumed row \<and> ap_status row = ''approved''
    \<and> ap_identity_id row = ic_identity_id S \<and> ap_server_id row = ic_server_id S \<and> ap_tool_name row = cl_tool c
    \<and> arguments_hash E (cl_arguments c) = Inr (ap_arguments_hash row)"
proof -
  from assms(1) have "approval_stage E S c a w = (Inr (Go ()), w1)" by (auto simp: decide_stage_def proceed_Go)
  from approval_stage_Go [OF this] obtain h where "arguments_hash E (cl_arguments c) = Inr h"
    "redeem_approval a (ic_identity_id S) (ic_server_id S) (cl_tool c) h w = (Inr None, w1)" by blast
  with redeemed_stays_used [OF this(2)] assms(2) show ?thesis by (auto simp: evolves_def)
qed

lemma scored_below_approval:
  assumes "decide_stage E S c None conditions attrs verified w = (Inr (Go scored), w1)"
  shows "\<exists>k fs. scored = Some (k, fs) \<and> k < RISK_APPROVAL_MIN \<and> (k < RISK_CHALLENGE_MIN \<or> verified)
    \<and> (\<forall>x \<in> set conditions. references_risk x \<longrightarrow>
         evaluate x (AList.update ''risk.score'' (AInt k) attrs) = Inr (True, []))"
proof -
  from assms obtain k fs where "scored = Some (k, fs)"
    "risk_stage E S c conditions attrs verified w = (Inr (Go (k, fs)), w1)"
    by (auto simp: decide_stage_def proceed_Go)
  with risk_stage_Go [OF this(2)] show ?thesis
    by (auto simp: threshold_outcome_def RISK_APPROVAL_MIN_def RISK_CHALLENGE_MIN_def split: if_splits)
qed

text \<open>
  How the call was decided: its approval is used up, for exactly this call, or its score is in an
  admissible band and passed the conditions on it.
\<close>

definition decided_amid ::
  "ext \<Rightarrow> interceptor \<Rightarrow> call \<Rightarrow> server_grant \<Rightarrow> attrs \<Rightarrow> string option \<Rightarrow> string option
     \<Rightarrow> (int \<times> risk_factor list) option \<Rightarrow> world \<Rightarrow> bool"
where
  "decided_amid E S c g attrs ap ch scored w' \<longleftrightarrow> (case ap of
     Some a \<Rightarrow> \<exists>used. find_approval a (w_approvals w') = Some used \<and> ap_consumed used
       \<and> ap_status used = ''approved'' \<and> ap_identity_id used = ic_identity_id S
       \<and> ap_server_id used = ic_server_id S \<and> ap_tool_name used = cl_tool c
       \<and> arguments_hash E (cl_arguments c) = Inr (ap_arguments_hash used)
   | None \<Rightarrow> \<exists>k fs. scored = Some (k, fs) \<and> k < RISK_APPROVAL_MIN \<and> (k < RISK_CHALLENGE_MIN \<or> ch \<noteq> None)
       \<and> (\<forall>x \<in> set (g_compiled g). references_risk x \<longrightarrow>
            evaluate x (AList.update ''risk.score'' (AInt k) attrs) = Inr (True, [])))"

lemma disturbed_stages:
  assumes makes: "gateway_makes E loads lax env"
    and run: "tools_call_amid E S rid params env w = (Inr (Forward m), w')" and c: "c = call_of E rid params"
  obtains g attrs ap ch scored w1 w3 verified w5 w6 w7 where
    "matching_grant (w_engine (env 1 w1)) (Some (ic_identity_id S)) (ic_server_id S) (cl_tool c) = Some g"
    "g_compiled g = [] \<or> attributes_in (w_engine (env 1 w1)) (w_clock (env 1 w1)) S c = Inr attrs"
    "conditions_hold g attrs" "is_blocked (ic_server_id S) (cl_tool c) (env 2 (env 1 w1)) = (Inr False, w3)"
    "meta_text E (cl_meta c) APPROVAL_META_KEY = Inr ap"
    "decide_stage E S c ap (g_compiled g) attrs (ch \<noteq> None) verified = (Inr (Go scored), w5)"
    "validation_stage E S c (env 5 w5) = (Inr (Go ()), w6)"
    "allow_amid E S c ap ch scored env (env 6 w6) = (Inr (Go ()), w7)" "w_audit w' = w_audit w7"
    "evolves E w (env 1 w1)" "evolves E (env 2 (env 1 w1)) (env 5 w5)" "evolves E (env 5 w5) (env 6 w6)"
    "evolves E w5 w'" "evolves E w w'"
proof -
  note amid = gateway_makes_evolves [OF makes] and trans = evolves.R_trans
  obtain w0 w7 where w0: "w0 = w\<lparr>w_pending := (w_pending w)((ic_session_id S, rid) := Some ''tools/call'')\<rparr>"
    and auth: "authorize_call_amid E S rid params env w0 = (Inr (Forward m), w7)"
    and w': "w' = w7\<lparr>w_metrics := w_metrics w7 @ [RequestLatency]\<rparr>"
    using run by (auto simp: tools_call_amid_def set_pending_def ensure_def emit_def split: prod.splits)
  from authorize_call_amid_Forward [OF auth, folded c] obtain w1 g where
    1: "replay_stage E S c (identity_of (w_engine w0) (ic_identity_id S)) w0 = (Inr (Go ()), w1)"
      "matching_grant (w_engine (env 1 w1)) (Some (ic_identity_id S)) (ic_server_id S) (cl_tool c) = Some g"
      "granted_call_amid E S c (identity_of (w_engine w0) (ic_identity_id S)) g env (env 1 w1) = (Inr (Go ()), w7)"
    by blast
  from granted_call_amid_Go [OF 1(3)] obtain attrs ch ap scored w3 w4 w5 w6 where
    2: "g_compiled g = [] \<or> attributes_in (w_engine (env 1 w1)) (w_clock (env 1 w1)) S c = Inr attrs"
      "conditions_hold g attrs" "is_blocked (ic_server_id S) (cl_tool c) (env 2 (env 1 w1)) = (Inr False, w3)"
      "step_up_stage E S c (identity_of (w_engine w0) (ic_identity_id S)) (env 3 w3) = (Inr (Go ch), w4)"
      "meta_text E (cl_meta c) APPROVAL_META_KEY = Inr ap"
      "decide_stage E S c ap (g_compiled g) attrs (ch \<noteq> None) (env 4 w4) = (Inr (Go scored), w5)"
      "validation_stage E S c (env 5 w5) = (Inr (Go ()), w6)"
      "allow_amid E S c ap ch scored env (env 6 w6) = (Inr (Go ()), w7)" by blast
  have a: "evolves E w w0" "evolves E w7 w'" by (simp_all add: w0 w' evolves.R_pending evolves.R_metrics)
  have b: "evolves E w (env 1 w1)"
    using staysD [OF evolves.stays_replay_stage 1(1)] a(1) amid trans by meson
  have d: "evolves E (env 2 (env 1 w1)) (env 4 w4)"
    using staysD [OF evolves.stays_is_blocked 2(3)] staysD [OF evolves.stays_step_up_stage 2(4)] amid trans by meson
  then have e: "evolves E (env 2 (env 1 w1)) (env 5 w5)"
    using staysD [OF evolves.stays_decide_stage 2(6)] amid trans by meson
  have f: "evolves E (env 5 w5) (env 6 w6)" using staysD [OF evolves.stays_validation_stage 2(7)] amid trans by blast
  have "stays (evolves E) (allow_amid E S c ap ch scored env)"
    unfolding allow_amid_def by (intro evolves.stage_intros evolves_meanwhile [OF makes])
  from staysD [OF this 2(8)] a(2) f have z: "evolves E (env 5 w5) w'" using trans by blast
  with amid trans have h: "evolves E w5 w'" by blast
  from b e z amid trans have "evolves E w w'" by meson
  with that 1(2) 2(1-3,5-8) b e f h show ?thesis by (simp add: w')
qed

lemma allow_amid_recorded:
  assumes "allow_amid E S c ap ch scored env w = (Inr (Go ()), w')"
  shows "\<exists>rows row. w_audit w' = w_audit (env 7 w) @ rows @ [row]
    \<and> records E ALLOW (ic_identity_id S) (Some (ic_server_id S)) (Some (cl_tool c))
        (allow_payload (w_engine w) c ap ch scored) (map_option fst scored) (en_version (w_engine (env 7 w))) row"
proof -
  from allow_amid_Go [OF assms] obtain seq w1 where
    "audit_write E ALLOW (ic_identity_id S) (Some (ic_server_id S)) (Some (cl_tool c))
       (allow_payload (w_engine w) c ap ch scored) (map_option fst scored) (env 7 w) = (Inr seq, w1)"
    "w_audit w' = w_audit w1" by (auto simp: call_event_def)
  with audit_write_Inr [OF this(1)] show ?thesis by auto
qed

section \<open>Properties\<close>


section \<open>A reload during a call\<close>

text \<open>
  The operator installs a policy without the caller while the audit writer of a call waits: a file
  with version 2 and one identity, reloaded in the last pause.
\<close>

definition demo_revoking :: ext where
  "demo_revoking = demo\<lparr>x_read_policy := (\<lambda>raw.
     if raw = ''two'' then Inr (demo_policy\<lparr>p_version := 2, p_identities := [demo_bot]\<rparr>)
     else Inl (ValueError ''invalid policy''))\<rparr>"

definition demo_reload_last :: "nat \<Rightarrow> world \<Rightarrow> world" where
  "demo_reload_last n w = (if n = 7 then snd (reload_policy demo_revoking w) else w)"

definition demo_amid :: "outgoing res \<times> world" where
  "demo_amid = tools_call_amid demo_revoking demo_interceptor (IdInt 1) demo_params demo_reload_last
     (demo_ready\<lparr>w_policy_bytes := Some ''two''\<rparr>)"

lemma demo_reload_last_makes: "gateway_makes demo_revoking loads lax demo_reload_last"
  unfolding gateway_makes_def
proof (intro allI)
  fix n :: nat and w :: world
  let ?h = "\<lparr>h_world = w, h_sessions = [], h_processes = [], h_stubborn = (\<lambda>_. False)\<rparr>"
  let ?h' = "?h\<lparr>h_world := snd (reload_policy demo_revoking w)\<rparr>"
  have "in_world (reload_policy demo_revoking) ?h = (fst (reload_policy demo_revoking w), ?h')"
    by (simp add: in_world_def split_beta)
  then have step: "gateway_step demo_revoking loads lax ?h ?h'" by (rule gateway_step.reload)
  show "\<exists>h h'. h_world h = w \<and> h_world h' = demo_reload_last n w
      \<and> (gateway_step demo_revoking loads lax)\<^sup>*\<^sup>* h h'"
  proof (cases "n = 7")
    case True
    then show ?thesis using r_into_rtranclp [of "gateway_step demo_revoking loads lax", OF step]
      by (intro exI [of _ ?h] exI [of _ ?h']) (simp add: demo_reload_last_def)
  next
    case False
    then show ?thesis by (intro exI [of _ ?h] exI [of _ ?h]) (simp add: demo_reload_last_def)
  qed
qed

lemma demo_amid_run:
  "\<exists>m. demo_amid = (Inr (Forward m), snd demo_amid) \<and> en_version (w_engine (snd demo_amid)) = 2
     \<and> matching_grant (w_engine (snd demo_amid)) (Some ''ops'') ''srv'' ''read'' = None
     \<and> ar_event_type (last (w_audit (snd demo_amid))) = ''ALLOW''
     \<and> ar_policy_version (last (w_audit (snd demo_amid))) = 2
     \<and> py_get (ar_payload (last (w_audit (snd demo_amid)))) ''matched_rules'' = Inr (JList [JStr ''policy-v1:rbac''])"
proof -
  have eval: "(case demo_amid of (r, w) \<Rightarrow> (case r of
      Inr (Forward m) \<Rightarrow> en_version (w_engine w) = 2
        \<and> matching_grant (w_engine w) (Some ''ops'') ''srv'' ''read'' = None
        \<and> (case last (w_audit w) of row \<Rightarrow> ar_event_type row = ''ALLOW'' \<and> ar_policy_version row = 2
            \<and> py_get (ar_payload row) ''matched_rules'' = Inr (JList [JStr ''policy-v1:rbac'']))
    | _ \<Rightarrow> False))"
    by code_simp
  obtain r w where run: "demo_amid = (r, w)" by (cases demo_amid)
  note eval = eval [unfolded run prod.case]
  then obtain m where "r = Inr (Forward m)" by (auto split: sum.splits outgoing.splits)
  with eval show ?thesis unfolding run by simp
qed


text \<open>
  A grant withdrawn during a call does not stop it, and its record then mixes two policies: the call
  is forwarded under a live policy that does not know the caller, in a row of version 2 whose matched
  rule is one of version 1.
\<close>
theorem revoked_call_forwarded:
  "(\<exists>m. fst demo_amid = Inr (Forward m))
   \<and> matching_grant (w_engine (snd demo_amid)) (Some ''ops'') ''srv'' ''read'' = None
   \<and> ar_policy_version (last (w_audit (snd demo_amid))) = 2
   \<and> py_get (ar_payload (last (w_audit (snd demo_amid)))) ''matched_rules'' = Inr (JList [JStr ''policy-v1:rbac''])"
  using demo_amid_run by (metis fst_conv)

end
