(* ===== verification/DemoScript.thy ===== *)
theory DemoScript
  imports Operations
begin

text \<open>
  The demonstration client (\<open>scripts/run_demo.py\<close>) as far as it computes: the credentials and the
  policy it writes, the signed requests it builds, replays and forges, what it reads from the
  gateway's answers, its waiting loops and its receipts. What it prints is left out. The lemmas: the
  gateway accepts a request signed this way and refuses the forged copy, and the policy it writes
  is valid and grants what the demonstration tells.
\<close>

section \<open>Credentials and policy\<close>

definition mint_key :: "string \<Rightarrow> string" where
  "mint_key rnd32 = b64encode rnd32"

definition SIGNED_SECRET_ENV_NAME :: string where
  "SIGNED_SECRET_ENV_NAME = ''PORTUNUSMCP_DEMO_SIGNING_SECRET''"

text \<open>
  The document as the policy loader reads it back: fields left out have their defaults. The keys are
  those of \<open>developer\<close> and \<open>ops-admin\<close>.
\<close>

definition demo_bearer :: "ext \<Rightarrow> string \<Rightarrow> string \<Rightarrow> bool \<Rightarrow> server_grant \<Rightarrow> identity" where
  "demo_bearer E name key admin grant =
     \<lparr>id_id = name, id_auth_mode = Bearer, id_api_key_hash = Some (''sha256:'' @ x_sha256 E key),
      id_key_id = None, id_signing_secret_env = None, id_totp_secret_env = None, id_admin = admin,
      id_allowed_servers = [grant], id_attributes = [], id_signing_secret = [], id_totp_secret = []\<rparr>"

definition demo_grant :: "string \<Rightarrow> string list \<Rightarrow> server_grant" where
  "demo_grant server_id tools =
     \<lparr>g_server_id = server_id, g_allowed_tools = tools, g_denied_tools = [], g_conditions = [], g_compiled = []\<rparr>"

definition demo_agent :: "string \<Rightarrow> identity" where
  "demo_agent ci_key_id =
     \<lparr>id_id = ''ci-agent'', id_auth_mode = Signed, id_api_key_hash = None, id_key_id = Some ci_key_id,
      id_signing_secret_env = Some SIGNED_SECRET_ENV_NAME, id_totp_secret_env = None, id_admin = False,
      id_allowed_servers = [demo_grant ''default'' [''read_inbox'']], id_attributes = [],
      id_signing_secret = [], id_totp_secret = []\<rparr>"

text \<open>\<open>developer_tools or [...]\<close>.\<close>

definition demo_tools :: "string list option \<Rightarrow> string list" where
  "demo_tools developer_tools =
     (case developer_tools of Some (t # ts) \<Rightarrow> t # ts | _ \<Rightarrow> [''send_email'', ''read_inbox''])"

definition write_policy ::
  "ext \<Rightarrow> string \<Rightarrow> string \<Rightarrow> string \<Rightarrow> int \<Rightarrow> string list option \<Rightarrow> policy_file"
where
  "write_policy E developer_key ops_key ci_key_id version developer_tools =
     \<lparr>p_version = version,
      p_servers = [(''default'', ''python sample_target/rogue_server.py'' @ '' --state /rogue-state/state.json'')],
      p_identities =
        [demo_bearer E ''developer'' developer_key False
           (demo_grant ''default'' (demo_tools developer_tools)),
         demo_bearer E ''ops-admin'' ops_key True (demo_grant ''*'' [''*'']),
         demo_agent ci_key_id],
      p_risk = \<lparr>tool_sensitivity = [], protected_repos = []\<rparr>\<rparr>"

section \<open>Signed requests\<close>

text \<open>The uuid and the clock of the client; \<open>secret\<close> never travels.\<close>

definition signed_meta ::
  "ext \<Rightarrow> string \<Rightarrow> string \<Rightarrow> string \<Rightarrow> json \<Rightarrow> json \<Rightarrow> (string \<times> json) list step"
where
  "signed_meta E key_id secret method tool arguments =
     bnd (fresh_uuid E) (\<lambda>nonce.
     bnd now (\<lambda>t.
     let timestamp = JInt \<lfloor>t\<rfloor> in
     bnd (lift_res (sign_request E secret (JStr nonce) timestamp method tool arguments)) (\<lambda>signature.
     ret [(NONCE_META_KEY, JStr nonce), (TIMESTAMP_META_KEY, timestamp), (KEY_ID_META_KEY, JStr key_id),
          (SIGNATURE_META_KEY, JStr signature)])))"

definition initialize_request :: "ext \<Rightarrow> string \<Rightarrow> string \<Rightarrow> string \<Rightarrow> json step" where
  "initialize_request E protocol_version ci_key_id ci_secret =
     bnd (signed_meta E ci_key_id ci_secret ''initialize'' JNull JNull) (\<lambda>meta.
     ret (JObj [(''jsonrpc'', JStr ''2.0''), (''id'', JInt 1), (''method'', JStr ''initialize''),
       (''params'', JObj [(''protocolVersion'', JStr protocol_version), (''capabilities'', JObj []),
          (''clientInfo'', JObj [(''name'', JStr ''ci-agent''), (''version'', JStr ''0'')]),
          (''_meta'', JObj meta)])]))"

definition initialized_notice :: "ext \<Rightarrow> string \<Rightarrow> string \<Rightarrow> json step" where
  "initialized_notice E ci_key_id ci_secret =
     bnd (signed_meta E ci_key_id ci_secret ''notifications/initialized'' JNull JNull) (\<lambda>meta.
     ret (JObj [(''jsonrpc'', JStr ''2.0''), (''method'', JStr ''notifications/initialized''),
       (''params'', JObj [(''_meta'', JObj meta)])]))"

definition read_inbox_call :: "ext \<Rightarrow> string \<Rightarrow> string \<Rightarrow> json step" where
  "read_inbox_call E ci_key_id ci_secret =
     bnd (signed_meta E ci_key_id ci_secret ''tools/call'' (JStr ''read_inbox'') (JObj [])) (\<lambda>meta.
     ret (JObj [(''jsonrpc'', JStr ''2.0''), (''id'', JInt 2), (''method'', JStr ''tools/call''),
       (''params'', JObj [(''name'', JStr ''read_inbox''), (''arguments'', JObj []), (''_meta'', JObj meta)])]))"

text \<open>\<open>v[k] = f(v[k])\<close>.\<close>

definition at_key :: "string \<Rightarrow> (json \<Rightarrow> json) \<Rightarrow> json \<Rightarrow> json" where
  "at_key k f v = (case v of
     JObj d \<Rightarrow> (case map_of d k of None \<Rightarrow> v | Some x \<Rightarrow> JObj (AList.update k (f x) d))
   | _ \<Rightarrow> v)"

text \<open>The captured call with a nonce and a timestamp of the attacker's.\<close>

definition forge :: "string \<Rightarrow> int \<Rightarrow> json \<Rightarrow> json" where
  "forge nonce timestamp call = at_key ''params'' (at_key ''_meta'' (\<lambda>meta.
     at_key TIMESTAMP_META_KEY (\<lambda>_. JInt timestamp) (at_key NONCE_META_KEY (\<lambda>_. JStr nonce) meta))) call"

section \<open>Answers\<close>

text \<open>\<open>str.splitlines\<close>.\<close>

definition line_break :: "string \<Rightarrow> bool" where
  "line_break c \<longleftrightarrow> c \<in> set [[CHR 0x0A], [CHR 0x0D], [CHR 0x0B], [CHR 0x0C], [CHR 0x1C], [CHR 0x1D], [CHR 0x1E],
     [CHR 0xC2, CHR 0x85], [CHR 0xE2, CHR 0x80, CHR 0xA8], [CHR 0xE2, CHR 0x80, CHR 0xA9]]"

fun lines_from :: "string \<Rightarrow> string list \<Rightarrow> string list" where
  "lines_from cur [] = (if cur = [] then [] else [cur])"
| "lines_from cur [c] = (if line_break c then [cur] else [cur @ c])"
| "lines_from cur (c # d # cs) =
     (if c = [CHR 0x0D] \<and> d = [CHR 0x0A] then cur # lines_from [] cs
      else if line_break c then cur # lines_from [] (d # cs)
      else lines_from (cur @ c) (d # cs))"

definition splitlines :: "string \<Rightarrow> string list" where
  "splitlines s = lines_from [] (code_points s)"

fun last_data :: "(string \<Rightarrow> json res) \<Rightarrow> json option \<Rightarrow> string list \<Rightarrow> json option res" where
  "last_data loads payload [] = Inr payload"
| "last_data loads payload (line # lines) =
     (if take 6 line = ''data: '' then
        res_bnd (loads (drop 6 line)) (\<lambda>v. last_data loads (Some v) lines)
      else last_data loads payload lines)"

definition sse_json :: "(string \<Rightarrow> json res) \<Rightarrow> string \<Rightarrow> string \<Rightarrow> json res" where
  "sse_json loads content_type body =
     (if take (length ''application/json'') content_type = ''application/json'' then loads body
      else res_bnd (last_data loads None (splitlines body)) (\<lambda>payload.
        case payload of None \<Rightarrow> Inl (OtherError ''AssertionError'') | Some v \<Rightarrow> Inr v))"

text \<open>
  The checks of the replay beat: the exit message, without the answer it quotes, None when the
  demonstration goes on.
\<close>

definition first_allowed :: "json \<Rightarrow> bool res" where
  "first_allowed first = py_in ''result'' first"

definition replay_denied :: "json \<Rightarrow> bool res" where
  "replay_denied replayed =
     res_bnd (py_get_default replayed ''error'' (JObj [])) (\<lambda>error.
     res_bnd (py_get_default error ''data'' (JObj [])) (\<lambda>decision.
     res_bnd (py_get decision ''event_type'') (\<lambda>v. Inr (v = JStr ''DENY_REPLAY''))))"

definition replay_beat :: "json \<Rightarrow> json \<Rightarrow> int \<Rightarrow> string option res" where
  "replay_beat first replayed forged_status =
     res_bnd (first_allowed first) (\<lambda>allowed.
       if \<not> allowed then Inr (Some ''expected the signed call to be allowed'')
       else res_bnd (replay_denied replayed) (\<lambda>denied.
         if \<not> denied then Inr (Some (''expected DENY_REPLAY '' @ EM_DASH @ '' identical nonce should never execute twice''))
         else if forged_status \<noteq> 401
         then Inr (Some (''expected 401 for a forged nonce, got '' @ dec_int forged_status))
         else Inr None))"

section \<open>Waiting, resetting, receipts\<close>

text \<open>The status of the n-th poll; None when the request failed. At most 240 polls.\<close>

definition wait_for_gateway :: "(nat \<Rightarrow> int option) \<Rightarrow> bool" where
  "wait_for_gateway status = list_ex (\<lambda>n. case status n of None \<Rightarrow> False | Some s \<Rightarrow> s \<noteq> 401) [0..<240]"

definition wait_for_draft :: "(nat \<Rightarrow> int) \<Rightarrow> bool" where
  "wait_for_draft status = list_ex (\<lambda>n. status n = 200) [0..<240]"

definition clear_risk_counters :: "unit step" where
  "clear_risk_counters = delete_keys ''risk:''"

definition demo_reset :: "ext \<Rightarrow> unit step" where
  "demo_reset E = try_catch (reset_dev_state E True) (\<lambda>e.
     case e of
       OtherError s \<Rightarrow> if take 12 s = ''ResetError: '' then raise (OtherError (''SystemExit: '' @ drop 12 s)) else raise e
     | _ \<Rightarrow> raise e)"

definition RECEIPT_EVENTS :: "string list" where
  "RECEIPT_EVENTS = [''TOOLS_LIST'', ''DRIFT_CRITICAL'', ''DENY_DRIFT'', ''APPROVED'', ''DENY_REPLAY'', ''POLICY_ACTIVATED'']"

definition receipt_detail :: "json \<Rightarrow> (string \<times> json) list res" where
  "receipt_detail payload = (case payload of
     JObj d \<Rightarrow> Inr (filter (\<lambda>(k, v). k \<in> set [''served_tools'', ''pruned_tools'', ''severity'', ''reason'', ''new_hash'',
       ''old_version'', ''new_version'']) d)
   | _ \<Rightarrow> Inl AttributeError)"

definition audit_receipts :: "(int \<times> string \<times> string \<times> (string \<times> json) list) list step" where
  "audit_receipts =
     bnd (db_read RECEIPT_EVENTS (\<lambda>w.
       sort_key ar_seq (filter (\<lambda>r. ar_event_type r \<in> set RECEIPT_EVENTS) (w_audit w)))) (\<lambda>rows.
     lift_res (res_map (\<lambda>r. res_bnd (receipt_detail (ar_payload r)) (\<lambda>detail.
       Inr (ar_seq r, ar_event_type r, ar_identity_id r, detail))) rows))"

section \<open>Facts\<close>

lemma signed_meta_Inr:
  assumes "signed_meta E key_id secret method tool arguments w = (Inr meta, w')"
  shows "\<exists>sig. meta = [(NONCE_META_KEY, JStr (x_uuid E (w_uuids w))), (TIMESTAMP_META_KEY, JInt \<lfloor>w_clock w\<rfloor>),
      (KEY_ID_META_KEY, JStr key_id), (SIGNATURE_META_KEY, JStr sig)]
    \<and> sign_request E secret (JStr (x_uuid E (w_uuids w))) (JInt \<lfloor>w_clock w\<rfloor>) method tool arguments = Inr sig
    \<and> w' = w\<lparr>w_uuids := Suc (w_uuids w)\<rparr>"
  using assms
  by (auto simp: signed_meta_def fresh_uuid_def now_def bnd_Inr_iff Let_def)

lemmas meta_keys = NONCE_META_KEY_def TIMESTAMP_META_KEY_def KEY_ID_META_KEY_def SIGNATURE_META_KEY_def

text \<open>A request as the gateway reads it: a method and parameters with the meta member last.\<close>

definition signed_message :: "string \<Rightarrow> (string \<times> json) list \<Rightarrow> (string \<times> json) list \<Rightarrow> json" where
  "signed_message method params meta = JObj [(''jsonrpc'', JStr ''2.0''), (''id'', JInt 2), (''method'', JStr method),
     (''params'', JObj (params @ [(''_meta'', JObj meta)]))]"

lemma verify_signed_message:
  assumes "map_of params ''_meta'' = None" and "nonce \<noteq> JNull" and "timestamp \<noteq> JNull"
  shows "verify_signed_request E (signed_message m params [(NONCE_META_KEY, nonce), (TIMESTAMP_META_KEY, timestamp),
      (KEY_ID_META_KEY, JStr k), (SIGNATURE_META_KEY, JStr sig)]) en
    = check_signature E en (JObj (params @ [(''_meta'', JObj [(NONCE_META_KEY, nonce), (TIMESTAMP_META_KEY, timestamp),
      (KEY_ID_META_KEY, JStr k), (SIGNATURE_META_KEY, JStr sig)])])) m k sig nonce timestamp"
  using assms
  by (simp add: verify_signed_request_def signed_message_def meta_keys map_add_def py_or_def is_dict_def)

lemma forge_signed_message:
  assumes "map_of params ''_meta'' = None"
  shows "forge nonce timestamp (signed_message m params [(NONCE_META_KEY, n), (TIMESTAMP_META_KEY, t),
      (KEY_ID_META_KEY, k), (SIGNATURE_META_KEY, sig)])
    = signed_message m params [(NONCE_META_KEY, JStr nonce), (TIMESTAMP_META_KEY, JInt timestamp),
      (KEY_ID_META_KEY, k), (SIGNATURE_META_KEY, sig)]"
  using assms by (simp add: forge_def signed_message_def at_key_def update_last map_add_def meta_keys)

lemma covered_meta:
  "map_of params ''_meta'' = None \<Longrightarrow> covered (JObj (params @ [(''_meta'', v)])) m = covered (JObj params) m"
  by (simp add: covered_def map_add_def split: option.split)

text \<open>What validation makes of the policy: the secret of the agent is filled in.\<close>

definition demo_valid :: "policy_file \<Rightarrow> string \<Rightarrow> policy_file" where
  "demo_valid p secret = p\<lparr>p_identities := map (\<lambda>i. if id_auth_mode i = Signed then i\<lparr>id_signing_secret := secret\<rparr> else i)
     (p_identities p)\<rparr>"

lemmas demo_defs = write_policy_def demo_bearer_def demo_agent_def demo_grant_def

lemma env_name_nonempty [simp]: "SIGNED_SECRET_ENV_NAME \<noteq> []"
  by (simp add: SIGNED_SECRET_ENV_NAME_def)

lemma demo_validated:
  assumes "environ SIGNED_SECRET_ENV_NAME = Some secret" and "secret \<noteq> []" and "ci_key_id \<noteq> []"
  shows "validate_policy parse environ (write_policy E dk ok ci_key_id v tools)
    = Inr (demo_valid (write_policy E dk ok ci_key_id v tools) secret)"
  using assms
  by (simp add: validate_policy_def validate_identity_def compile_conditions_def check_auth_fields_def check_signing_def
    check_totp_def given_def check_servers_def grant_registered_def demo_valid_def demo_defs)

lemma demo_identity_of:
  "identity_of (make_engine (demo_valid (write_policy E dk ok ci v tools) secret) h r) i =
     (if i = ''developer'' then Some (demo_bearer E ''developer'' dk False (demo_grant ''default'' (demo_tools tools)))
      else if i = ''ops-admin'' then Some (demo_bearer E ''ops-admin'' ok True (demo_grant ''*'' [''*'']))
      else if i = ''ci-agent'' then Some ((demo_agent ci)\<lparr>id_signing_secret := secret\<rparr>)
      else None)"
  by (auto simp: identity_of_def make_engine_def map_of_dict_of demo_valid_def write_policy_def demo_bearer_def demo_agent_def)

lemma demo_allowed:
  "is_allowed (make_engine (demo_valid (write_policy E dk ok ci v tools) secret) h r) (Some i) s t \<longleftrightarrow>
     (i = ''developer'' \<and> s = ''default'' \<and> (t \<in> set (demo_tools tools) \<or> ''*'' \<in> set (demo_tools tools)))
     \<or> i = ''ops-admin'' \<or> (i = ''ci-agent'' \<and> s = ''default'' \<and> t = ''read_inbox'')"
  by (simp add: is_allowed_def matching_grant_def demo_identity_of demo_bearer_def demo_agent_def demo_grant_def)

lemma demo_keys:
  "identity_for_key_hash (make_engine (demo_valid (write_policy E dk ok ci v tools) secret) h r) kh =
     (if kh = ''sha256:'' @ x_sha256 E ok then Some ''ops-admin''
      else if kh = ''sha256:'' @ x_sha256 E dk then Some ''developer'' else None)"
  "ci \<noteq> [] \<Longrightarrow> identity_for_key_id (make_engine (demo_valid (write_policy E dk ok ci v tools) secret) h r) ci = Some ''ci-agent''"
  by (simp_all add: identity_for_key_hash_def identity_for_key_id_def make_engine_def map_of_dict_of demo_valid_def
    demo_defs given_def)

lemma demo_admin_version:
  "is_admin (make_engine (demo_valid (write_policy E dk ok ci v tools) secret) h r) i \<longleftrightarrow> i = ''ops-admin''"
  "en_version (make_engine (demo_valid (write_policy E dk ok ci v tools) secret) h r) = v"
  by (simp add: is_admin_def demo_identity_of demo_bearer_def demo_agent_def)
    (simp add: en_version_def make_engine_def demo_valid_def write_policy_def)

lemmas demo_engine_lookups = demo_identity_of demo_allowed demo_keys demo_admin_version resolve_identity_def given_def

section \<open>Properties\<close>

text \<open>
  C36: What a signed client sends, the gateway accepts: a request whose meta member the client built
  with an identity's key id and secret is authenticated as that identity, whatever the method, the
  parameters and the moment.
\<close>
theorem signed_client_accepted:
  assumes "signed_meta E k (id_signing_secret x) m tool arguments w = (Inr meta, w')"
    and "identity_for_key_id en k = Some i" and "identity_of en i = Some x" and "id_auth_mode x = Signed"
    and "covered (JObj params) m = Inr (tool, arguments)" and "map_of params ''_meta'' = None"
    and ascii: "\<And>c. is_ascii (x_hmac_sha256 E (id_signing_secret x) c)"
  shows "verify_signed_request E (signed_message m params meta) en = Inr (Some i)"
proof -
  from signed_meta_Inr [OF assms(1)] obtain n t sig where
    meta: "meta = [(NONCE_META_KEY, JStr n), (TIMESTAMP_META_KEY, JInt t), (KEY_ID_META_KEY, JStr k),
      (SIGNATURE_META_KEY, JStr sig)]" and
    sig: "sign_request E (id_signing_secret x) (JStr n) (JInt t) m tool arguments = Inr sig" by blast
  from sig have "is_ascii sig" using ascii by (auto simp: sign_request_def res_bnd_Inr_iff)
  with sig assms(2-6) show ?thesis
    unfolding meta by (simp add: verify_signed_message check_signature_def covered_meta compare_digest_def)
qed

definition demo_hex :: ext where
  "demo_hex = demo\<lparr>x_hmac_sha256 := (\<lambda>k m. filter (\<lambda>c. is_ascii [c]) (k @ m)),
     x_uuid := (\<lambda>n. ''12345678123456781234567812345678'')\<rparr>"

definition demo_meta :: "(string \<times> json) list" where
  "demo_meta = (case fst (signed_meta demo_hex ''bot-key'' ''s3cret'' ''tools/call'' (JStr ''read'') (JObj []) demo_world) of
     Inr m \<Rightarrow> m | Inl e \<Rightarrow> [])"

lemma demo_meta_run:
  "signed_meta demo_hex ''bot-key'' (id_signing_secret demo_bot) ''tools/call'' (JStr ''read'') (JObj []) demo_world
     = (Inr demo_meta, snd (signed_meta demo_hex ''bot-key'' ''s3cret'' ''tools/call'' (JStr ''read'') (JObj []) demo_world))"
proof -
  have "isl (fst (signed_meta demo_hex ''bot-key'' ''s3cret'' ''tools/call'' (JStr ''read'') (JObj []) demo_world)) = False"
    by code_simp
  then show ?thesis by (auto simp: prod_eq_iff demo_meta_def demo_bot_def split: sum.splits)
qed

lemma demo_bot_keys:
  "identity_for_key_id demo_engine ''bot-key'' = Some ''bot''" "identity_of demo_engine ''bot'' = Some demo_bot"
  by code_simp+

theorem signed_client_accepted_witness:
  "verify_signed_request demo_hex (signed_message ''tools/call'' [(''name'', JStr ''read''), (''arguments'', JObj [])]
     demo_meta) demo_engine = Inr (Some ''bot'')"
proof (rule signed_client_accepted [OF demo_meta_run demo_bot_keys])
  show "id_auth_mode demo_bot = Signed" by (simp add: demo_bot_def)
  show "is_ascii (x_hmac_sha256 demo_hex (id_signing_secret demo_bot) c)" for c
    by (auto simp: demo_hex_def demo_bot_def is_ascii_def list_all_iff)
qed (simp_all add: covered_def)

text \<open>
  A captured request is worth nothing with another nonce or timestamp: where that changes the
  canonical form and the HMAC has no collisions, the forged copy authenticates nobody.
\<close>
theorem forged_request_refused:
  assumes "signed_meta E k (id_signing_secret x) m tool arguments w = (Inr meta, w')"
    and "identity_for_key_id en k = Some i" and "identity_of en i = Some x"
    and "covered (JObj params) m = Inr (tool, arguments)" and "map_of params ''_meta'' = None"
    and canon: "x_canon E (signature_document (JStr nonce) (JInt timestamp) m tool arguments)
      \<noteq> x_canon E (signature_document (JStr (x_uuid E (w_uuids w))) (JInt \<lfloor>w_clock w\<rfloor>) m tool arguments)"
    and hmac: "\<And>c c'. x_hmac_sha256 E (id_signing_secret x) c = x_hmac_sha256 E (id_signing_secret x) c' \<Longrightarrow> c = c'"
  shows "verify_signed_request E (forge nonce timestamp (signed_message m params meta)) en \<noteq> Inr (Some j)"
proof
  assume acc: "verify_signed_request E (forge nonce timestamp (signed_message m params meta)) en = Inr (Some j)"
  from signed_meta_Inr [OF assms(1)] obtain sig where
    meta: "meta = [(NONCE_META_KEY, JStr (x_uuid E (w_uuids w))), (TIMESTAMP_META_KEY, JInt \<lfloor>w_clock w\<rfloor>),
      (KEY_ID_META_KEY, JStr k), (SIGNATURE_META_KEY, JStr sig)]" and
    sig: "sign_request E (id_signing_secret x) (JStr (x_uuid E (w_uuids w))) (JInt \<lfloor>w_clock w\<rfloor>) m tool arguments
      = Inr sig" by blast
  from acc have "check_signature E en (JObj (params @ [(''_meta'', JObj [(NONCE_META_KEY, JStr nonce),
      (TIMESTAMP_META_KEY, JInt timestamp), (KEY_ID_META_KEY, JStr k), (SIGNATURE_META_KEY, JStr sig)])])) m k sig
      (JStr nonce) (JInt timestamp) = Inr (Some j)"
    unfolding meta forge_signed_message [OF assms(5)]
    by (simp add: verify_signed_message [OF assms(5)])
  from check_signature_Some [OF this] assms(2-4) have
    "sign_request E (id_signing_secret x) (JStr nonce) (JInt timestamp) m tool arguments = Inr sig"
    by (auto simp: covered_meta [OF assms(5)])
  with sig hmac canon show False
    by (auto simp: sign_request_def canon_def res_bnd_Inr_iff split: option.splits)
qed

theorem forged_request_refused_witness:
  "verify_signed_request demo (forge ''other'' 388800 (signed_message ''tools/list'' []
     (case fst (signed_meta demo ''bot-key'' ''s3cret'' ''tools/list'' JNull JNull demo_world) of Inr m \<Rightarrow> m | Inl e \<Rightarrow> [])))
     demo_engine \<noteq> Inr (Some ''bot'')"
proof -
  let ?m = "signed_meta demo ''bot-key'' ''s3cret'' ''tools/list'' JNull JNull demo_world"
  have "isl (fst ?m) = False" by code_simp
  then obtain meta where meta: "fst ?m = Inr meta" by (cases "fst ?m") auto
  then have run: "signed_meta demo ''bot-key'' (id_signing_secret demo_bot) ''tools/list'' JNull JNull demo_world
      = (Inr meta, snd ?m)" by (simp add: prod_eq_iff demo_bot_def)
  have doc: "x_canon demo (signature_document (JStr ''other'') (JInt 388800) ''tools/list'' JNull JNull)
      \<noteq> x_canon demo (signature_document (JStr (x_uuid demo (w_uuids demo_world))) (JInt \<lfloor>w_clock demo_world\<rfloor>)
          ''tools/list'' JNull JNull)" by code_simp
  have cov: "covered (JObj []) ''tools/list'' = Inr (JNull, JNull)" "map_of [] ''_meta'' = (None :: json option)"
    by (simp_all add: covered_def)
  have hmac: "x_hmac_sha256 demo (id_signing_secret demo_bot) c = x_hmac_sha256 demo (id_signing_secret demo_bot) c'
      \<Longrightarrow> c = c'" for c c' by (simp add: demo_def)
  show ?thesis unfolding meta sum.case
    by (rule forged_request_refused [OF run demo_bot_keys cov doc hmac])
qed

text \<open>
  The policy the script writes is what the demonstration tells: the loader accepts it once the
  secret is in the environment; of the three identities \<open>developer\<close> may call the tools it was
  given on the default server and nothing else, \<open>ops-admin\<close> everything everywhere and alone the
  administrative endpoints, \<open>ci-agent\<close> the inbox; the two keys and the key id, when they hash
  apart, resolve to their owners, and the signed agent verifies with the secret of the environment.
\<close>
theorem demo_policy_as_told:
  assumes "environ SIGNED_SECRET_ENV_NAME = Some secret" and "secret \<noteq> []" and "ci_key_id \<noteq> []"
    and "developer_key \<noteq> []" and "ops_key \<noteq> []" and "x_sha256 E developer_key \<noteq> x_sha256 E ops_key"
  shows "\<exists>p. validate_policy parse environ (write_policy E developer_key ops_key ci_key_id version tools) = Inr p
    \<and> (let en = make_engine p content_hash raw in
        en_version en = version
        \<and> (\<forall>s t. is_allowed en (Some ''developer'') s t \<longleftrightarrow>
              s = ''default'' \<and> (t \<in> set (demo_tools tools) \<or> ''*'' \<in> set (demo_tools tools)))
        \<and> (\<forall>s t. is_allowed en (Some ''ops-admin'') s t)
        \<and> (\<forall>s t. is_allowed en (Some ''ci-agent'') s t \<longleftrightarrow> s = ''default'' \<and> t = ''read_inbox'')
        \<and> (\<forall>i. i \<notin> {''developer'', ''ops-admin'', ''ci-agent''} \<longrightarrow> (\<forall>s t. \<not> is_allowed en (Some i) s t))
        \<and> (\<forall>i. is_admin en i \<longleftrightarrow> i = ''ops-admin'')
        \<and> resolve_identity E (Some developer_key) en = Some ''developer''
        \<and> resolve_identity E (Some ops_key) en = Some ''ops-admin''
        \<and> identity_for_key_id en ci_key_id = Some ''ci-agent''
        \<and> map_option id_signing_secret (identity_of en ''ci-agent'') = Some secret)"
  using assms
  by (intro exI [of _ "demo_valid (write_policy E developer_key ops_key ci_key_id version tools) secret"])
    (auto simp: demo_validated demo_engine_lookups Let_def)

theorem demo_policy_as_told_witness:
  "\<exists>p. validate_policy demo_parse (\<lambda>v. Some ''s3cret'') (write_policy demo ''key'' ''ops'' ''kid_7'' 2 (Some [''read_inbox'']))
      = Inr p
    \<and> is_allowed (make_engine p ''h'' ''r'') (Some ''developer'') ''default'' ''read_inbox''
    \<and> \<not> is_allowed (make_engine p ''h'' ''r'') (Some ''developer'') ''default'' ''send_email''"
proof -
  have "x_sha256 demo ''key'' \<noteq> x_sha256 demo ''ops''" by (simp add: demo_def)
  from demo_policy_as_told [of "\<lambda>v. Some ''s3cret''" "''s3cret''" "''kid_7''" "''key''" "''ops''" demo demo_parse 2
      "Some [''read_inbox'']" "''h''" "''r''", OF _ _ _ _ _ this]
  show ?thesis by (auto simp: Let_def demo_tools_def)
qed

end
