(* ===== verification/Migrations.thy ===== *)
theory Migrations
  imports PyData
begin

text \<open>
  The database schema: the tables of \<open>services/gateway/db.py\<close> as the ORM declares them, the
  revisions of \<open>alembic/versions\<close> as operations on a database with its rows, and the migration
  run of \<open>alembic/env.py\<close>. The lemmas: every revision undoes itself, a refused revision changes
  nothing, and the revisions together build the tables the ORM expects.
\<close>

section \<open>Tables and operations\<close>

datatype col_type = BigInteger | Integer | SmallInteger | CHAR_n nat | LargeBinary | DateTime | Text | JSONB | Boolean

text \<open>Server-side defaults: none, \<open>now()\<close>, or a constant.\<close>

datatype server_default = NoDefault | Now | Constant json

record column =
  c_name :: string
  c_type :: col_type
  c_nullable :: bool
  c_primary :: bool
  c_default :: server_default

definition col :: "string \<Rightarrow> col_type \<Rightarrow> column" where
  "col name t = \<lparr>c_name = name, c_type = t, c_nullable = False, c_primary = False, c_default = NoDefault\<rparr>"

definition null_col :: "string \<Rightarrow> col_type \<Rightarrow> column" where
  "null_col name t = (col name t)\<lparr>c_nullable := True\<rparr>"

definition key_col :: "string \<Rightarrow> col_type \<Rightarrow> column" where
  "key_col name t = (col name t)\<lparr>c_primary := True\<rparr>"

definition default_col :: "string \<Rightarrow> col_type \<Rightarrow> server_default \<Rightarrow> column" where
  "default_col name t d = (col name t)\<lparr>c_default := d\<rparr>"

text \<open>A row gives each column of its table, in order, a value; None is SQL's NULL.\<close>

type_synonym table_row = "(string \<times> json option) list"

record db_table =
  t_columns :: "column list"
  t_rows :: "table_row list"

text \<open>The tables in order of creation, and the indexes: name, table, columns.\<close>

record database =
  d_tables :: "(string \<times> db_table) list"
  d_indexes :: "(string \<times> string \<times> string list) list"

definition relations :: "database \<Rightarrow> string set" where
  "relations d = set (map fst (d_tables d)) \<union> set (map fst (d_indexes d))"

definition create_table :: "string \<Rightarrow> column list \<Rightarrow> database \<Rightarrow> database res" where
  "create_table name cols d =
     (if name \<in> relations d then Inl DatabaseError
      else Inr (d\<lparr>d_tables := d_tables d @ [(name, \<lparr>t_columns = cols, t_rows = []\<rparr>)]\<rparr>))"

text \<open>Dropping a table drops its indexes.\<close>

definition drop_table :: "string \<Rightarrow> database \<Rightarrow> database res" where
  "drop_table name d =
     (if name \<notin> set (map fst (d_tables d)) then Inl DatabaseError
      else Inr (d\<lparr>d_tables := filter (\<lambda>e. fst e \<noteq> name) (d_tables d),
                  d_indexes := filter (\<lambda>i. fst (snd i) \<noteq> name) (d_indexes d)\<rparr>))"

definition create_index :: "string \<Rightarrow> string \<Rightarrow> string list \<Rightarrow> database \<Rightarrow> database res" where
  "create_index name table_name cols d =
     (case map_of (d_tables d) table_name of
        None \<Rightarrow> Inl DatabaseError
      | Some t \<Rightarrow>
          if name \<in> relations d \<or> \<not> set cols \<subseteq> set (map c_name (t_columns t)) then Inl DatabaseError
          else Inr (d\<lparr>d_indexes := d_indexes d @ [(name, table_name, cols)]\<rparr>))"

definition drop_index :: "string \<Rightarrow> database \<Rightarrow> database res" where
  "drop_index name d =
     (if name \<notin> set (map fst (d_indexes d)) then Inl DatabaseError
      else Inr (d\<lparr>d_indexes := filter (\<lambda>i. fst i \<noteq> name) (d_indexes d)\<rparr>))"

text \<open>Changing one table: an error when it is missing or the change is refused.\<close>

fun alter_in :: "string \<Rightarrow> (db_table \<Rightarrow> db_table res) \<Rightarrow> (string \<times> db_table) list \<Rightarrow> (string \<times> db_table) list res" where
  "alter_in name f [] = Inl DatabaseError"
| "alter_in name f ((n, t) # ts) =
     (if n = name then res_bnd (f t) (\<lambda>u. Inr ((n, u) # ts))
      else res_bnd (alter_in name f ts) (\<lambda>us. Inr ((n, t) # us)))"

definition alter_table :: "string \<Rightarrow> (db_table \<Rightarrow> db_table res) \<Rightarrow> database \<Rightarrow> database res" where
  "alter_table name f d = res_bnd (alter_in name f (d_tables d)) (\<lambda>ts. Inr (d\<lparr>d_tables := ts\<rparr>))"

text \<open>The value a default gives the rows already there; \<open>t\<close> is the time of the statement.\<close>

definition default_value :: "json \<Rightarrow> server_default \<Rightarrow> json option" where
  "default_value t d = (case d of NoDefault \<Rightarrow> None | Now \<Rightarrow> Some t | Constant v \<Rightarrow> Some v)"

definition add_column :: "json \<Rightarrow> string \<Rightarrow> column \<Rightarrow> database \<Rightarrow> database res" where
  "add_column t name c = alter_table name (\<lambda>tab.
     if c_name c \<in> set (map c_name (t_columns tab)) then Inl DatabaseError
     else if \<not> c_nullable c \<and> default_value t (c_default c) = None \<and> t_rows tab \<noteq> [] then Inl DatabaseError
     else Inr \<lparr>t_columns = t_columns tab @ [c],
               t_rows = map (\<lambda>r. r @ [(c_name c, default_value t (c_default c))]) (t_rows tab)\<rparr>)"

text \<open>Dropping a column drops the indexes over it.\<close>

definition drop_column :: "string \<Rightarrow> string \<Rightarrow> database \<Rightarrow> database res" where
  "drop_column name c d =
     res_bnd (alter_table name (\<lambda>tab.
       if c \<notin> set (map c_name (t_columns tab)) then Inl DatabaseError
       else Inr \<lparr>t_columns = filter (\<lambda>k. c_name k \<noteq> c) (t_columns tab),
                 t_rows = map (filter (\<lambda>e. fst e \<noteq> c)) (t_rows tab)\<rparr>) d) (\<lambda>e.
     Inr (e\<lparr>d_indexes := filter (\<lambda>i. \<not> (fst (snd i) = name \<and> c \<in> set (snd (snd i)))) (d_indexes e)\<rparr>))"

text \<open>\<open>SET NOT NULL\<close> is refused over a NULL.\<close>

definition set_nullable :: "string \<Rightarrow> bool \<Rightarrow> column \<Rightarrow> column" where
  "set_nullable c nullable k = (if c_name k = c then k\<lparr>c_nullable := nullable\<rparr> else k)"

definition alter_nullable :: "string \<Rightarrow> string \<Rightarrow> bool \<Rightarrow> database \<Rightarrow> database res" where
  "alter_nullable name c nullable = alter_table name (\<lambda>tab.
     if c \<notin> set (map c_name (t_columns tab)) then Inl DatabaseError
     else if \<not> nullable \<and> list_ex (\<lambda>r. (c, None) \<in> set r) (t_rows tab) then Inl DatabaseError
     else Inr (tab\<lparr>t_columns := map (set_nullable c nullable) (t_columns tab)\<rparr>))"

section \<open>Revisions\<close>

definition upgrade_0001 :: "json \<Rightarrow> database \<Rightarrow> database res" where
  "upgrade_0001 t d =
     res_bnd (create_table ''audit_log''
       [key_col ''seq'' BigInteger, col ''prev_hash'' (CHAR_n 64), col ''curr_hash'' (CHAR_n 64),
        null_col ''signature'' LargeBinary, default_col ''timestamp'' DateTime Now, col ''identity_id'' Text,
        null_col ''server_id'' Text, null_col ''tool_name'' Text, col ''policy_version'' Integer,
        col ''event_type'' Text, null_col ''risk_score'' SmallInteger, col ''payload'' JSONB,
        null_col ''latency_ms'' Integer] d) (\<lambda>d.
     res_bnd (create_index ''idx_audit_identity'' ''audit_log'' [''identity_id'', ''timestamp''] d) (\<lambda>d.
     res_bnd (create_index ''idx_audit_event'' ''audit_log'' [''event_type'', ''timestamp''] d) (\<lambda>d.
     res_bnd (create_index ''idx_audit_policy_version'' ''audit_log'' [''policy_version''] d) (\<lambda>d.
     create_table ''policy_versions''
       [key_col ''version'' Integer, col ''content_hash'' (CHAR_n 64), default_col ''activated_at'' DateTime Now,
        col ''activated_by'' Text] d))))"

definition downgrade_0001 :: "database \<Rightarrow> database res" where
  "downgrade_0001 d =
     res_bnd (drop_table ''policy_versions'' d) (\<lambda>d.
     res_bnd (drop_index ''idx_audit_policy_version'' d) (\<lambda>d.
     res_bnd (drop_index ''idx_audit_event'' d) (\<lambda>d.
     res_bnd (drop_index ''idx_audit_identity'' d) (\<lambda>d.
     drop_table ''audit_log'' d))))"

definition upgrade_0002 :: "json \<Rightarrow> database \<Rightarrow> database res" where
  "upgrade_0002 t = create_table ''tool_baselines''
     [key_col ''server_id'' Text, key_col ''tool_name'' Text, col ''approved_schema'' JSONB,
      col ''approved_hash'' (CHAR_n 64), default_col ''approved_at'' DateTime Now,
      default_col ''blocked'' Boolean (Constant (JBool False)), null_col ''observed_schema'' JSONB,
      null_col ''observed_hash'' (CHAR_n 64)]"

definition downgrade_0002 :: "database \<Rightarrow> database res" where
  "downgrade_0002 = drop_table ''tool_baselines''"

definition upgrade_0003 :: "json \<Rightarrow> database \<Rightarrow> database res" where
  "upgrade_0003 t d =
     res_bnd (alter_nullable ''audit_log'' ''signature'' False d) (\<lambda>d.
     create_table ''audit_verifier_checkpoint''
       [key_col ''id'' Integer, col ''last_verified_seq'' BigInteger, default_col ''updated_at'' DateTime Now] d)"

definition downgrade_0003 :: "database \<Rightarrow> database res" where
  "downgrade_0003 d =
     res_bnd (drop_table ''audit_verifier_checkpoint'' d) (alter_nullable ''audit_log'' ''signature'' True)"

definition upgrade_0004 :: "json \<Rightarrow> database \<Rightarrow> database res" where
  "upgrade_0004 t d =
     res_bnd (create_table ''approvals''
       [key_col ''approval_id'' Text, col ''audit_id'' BigInteger, col ''identity_id'' Text, col ''tool_name'' Text,
        col ''arguments_hash'' (CHAR_n 64), default_col ''created_at'' DateTime Now, col ''expires_at'' DateTime,
        default_col ''status'' Text (Constant (JStr ''pending'')), null_col ''approved_by'' Text,
        null_col ''approved_at'' DateTime, default_col ''consumed'' Boolean (Constant (JBool False))] d) (\<lambda>d.
     create_index ''idx_approvals_status_expiry'' ''approvals'' [''status'', ''expires_at''] d)"

definition downgrade_0004 :: "database \<Rightarrow> database res" where
  "downgrade_0004 = drop_table ''approvals''"

definition upgrade_0005 :: "json \<Rightarrow> database \<Rightarrow> database res" where
  "upgrade_0005 t = add_column t ''approvals'' (default_col ''server_id'' Text (Constant (JStr ''default'')))"

definition downgrade_0005 :: "database \<Rightarrow> database res" where
  "downgrade_0005 = drop_column ''approvals'' ''server_id''"

definition upgrade_0006 :: "json \<Rightarrow> database \<Rightarrow> database res" where
  "upgrade_0006 t = add_column t ''tool_baselines'' (default_col ''suspicious'' Boolean (Constant (JBool False)))"

definition downgrade_0006 :: "database \<Rightarrow> database res" where
  "downgrade_0006 = drop_column ''tool_baselines'' ''suspicious''"

text \<open>A revision with the one it follows, its upgrade and its downgrade.\<close>

type_synonym revision =
  "string \<times> string option \<times> (json \<Rightarrow> database \<Rightarrow> database res) \<times> (database \<Rightarrow> database res)"

definition REVISIONS :: "revision list" where
  "REVISIONS =
     [(''0001'', None, upgrade_0001, downgrade_0001),
      (''0002'', Some ''0001'', upgrade_0002, downgrade_0002),
      (''0003'', Some ''0002'', upgrade_0003, downgrade_0003),
      (''0004'', Some ''0003'', upgrade_0004, downgrade_0004),
      (''0005'', Some ''0004'', upgrade_0005, downgrade_0005),
      (''0006'', Some ''0005'', upgrade_0006, downgrade_0006)]"

text \<open>\<open>alembic\<close> chooses the steps; \<open>env.py\<close> runs them in one transaction.\<close>

fun run_steps :: "(database \<Rightarrow> database res) list \<Rightarrow> database \<Rightarrow> database res" where
  "run_steps [] d = Inr d"
| "run_steps (f # fs) d = res_bnd (f d) (run_steps fs)"

definition do_run_migrations :: "(database \<Rightarrow> database res) list \<Rightarrow> database \<Rightarrow> unit res \<times> database" where
  "do_run_migrations steps d = (case run_steps steps d of Inl e \<Rightarrow> (Inl e, d) | Inr e \<Rightarrow> (Inr (), e))"

definition upgrades :: "json \<Rightarrow> (database \<Rightarrow> database res) list" where
  "upgrades t = map (\<lambda>(rev, down_rev, up, down). up t) REVISIONS"

section \<open>The tables of the ORM\<close>

definition AuditLog_table :: "column list" where
  "AuditLog_table =
     [key_col ''seq'' BigInteger, col ''prev_hash'' (CHAR_n 64), col ''curr_hash'' (CHAR_n 64),
      col ''signature'' LargeBinary, default_col ''timestamp'' DateTime Now, col ''identity_id'' Text,
      null_col ''server_id'' Text, null_col ''tool_name'' Text, col ''policy_version'' Integer,
      col ''event_type'' Text, null_col ''risk_score'' SmallInteger, col ''payload'' JSONB,
      null_col ''latency_ms'' Integer]"

definition ToolBaseline_table :: "column list" where
  "ToolBaseline_table =
     [key_col ''server_id'' Text, key_col ''tool_name'' Text, col ''approved_schema'' JSONB,
      col ''approved_hash'' (CHAR_n 64), default_col ''approved_at'' DateTime Now, col ''blocked'' Boolean,
      null_col ''observed_schema'' JSONB, null_col ''observed_hash'' (CHAR_n 64),
      default_col ''suspicious'' Boolean (Constant (JBool False))]"

definition Approval_table :: "column list" where
  "Approval_table =
     [key_col ''approval_id'' Text, col ''audit_id'' BigInteger, col ''identity_id'' Text,
      default_col ''server_id'' Text (Constant (JStr ''default'')), col ''tool_name'' Text,
      col ''arguments_hash'' (CHAR_n 64), default_col ''created_at'' DateTime Now, col ''expires_at'' DateTime,
      col ''status'' Text, null_col ''approved_by'' Text, null_col ''approved_at'' DateTime, col ''consumed'' Boolean]"

definition VerifierCheckpoint_table :: "column list" where
  "VerifierCheckpoint_table =
     [key_col ''id'' Integer, col ''last_verified_seq'' BigInteger, default_col ''updated_at'' DateTime Now]"

definition PolicyVersion_table :: "column list" where
  "PolicyVersion_table =
     [key_col ''version'' Integer, col ''content_hash'' (CHAR_n 64), default_col ''activated_at'' DateTime Now,
      col ''activated_by'' Text]"

definition metadata_tables :: "(string \<times> column list) list" where
  "metadata_tables =
     [(''audit_log'', AuditLog_table), (''tool_baselines'', ToolBaseline_table), (''approvals'', Approval_table),
      (''audit_verifier_checkpoint'', VerifierCheckpoint_table), (''policy_versions'', PolicyVersion_table)]"

definition metadata_indexes :: "(string \<times> string \<times> string list) list" where
  "metadata_indexes =
     [(''idx_audit_identity'', ''audit_log'', [''identity_id'', ''timestamp'']),
      (''idx_audit_event'', ''audit_log'', [''event_type'', ''timestamp'']),
      (''idx_audit_policy_version'', ''audit_log'', [''policy_version'']),
      (''idx_approvals_status_expiry'', ''approvals'', [''status'', ''expires_at''])]"

section \<open>Facts\<close>

text \<open>A database as the server keeps it: names are unique, rows have their columns, indexes their table.\<close>

definition rows_ok :: "db_table \<Rightarrow> bool" where
  "rows_ok tab \<longleftrightarrow> (\<forall>r \<in> set (t_rows tab). map fst r = map c_name (t_columns tab))"

definition index_ok :: "(string \<times> db_table) list \<Rightarrow> string \<times> string list \<Rightarrow> bool" where
  "index_ok ts i \<longleftrightarrow> fst i \<in> fst ` set ts
     \<and> (\<forall>tab. (fst i, tab) \<in> set ts \<longrightarrow> set (snd i) \<subseteq> c_name ` set (t_columns tab))"

definition wf_db :: "database \<Rightarrow> bool" where
  "wf_db d \<longleftrightarrow> distinct (map fst (d_tables d)) \<and> (\<forall>p \<in> set (d_tables d). rows_ok (snd p))
     \<and> (\<forall>i \<in> set (d_indexes d). index_ok (d_tables d) (snd i))"

lemma filter_new: "n \<notin> set (map fst ts) \<Longrightarrow> filter (\<lambda>e. fst e \<noteq> n) ts = ts"
  by (induction ts) auto

lemma index_ok_append: "index_ok ts i \<Longrightarrow> n \<notin> fst ` set ts \<Longrightarrow> index_ok (ts @ [(n, t)]) i"
  by (auto simp: index_ok_def)

lemma create_table_undone:
  assumes "wf_db d" and "create_table n cols d = Inr e"
  shows "drop_table n e = Inr d" and "wf_db e"
proof -
  from assms(2) have e: "e = d\<lparr>d_tables := d_tables d @ [(n, \<lparr>t_columns = cols, t_rows = []\<rparr>)]\<rparr>"
    and new: "n \<notin> set (map fst (d_tables d))"
    by (auto simp: create_table_def relations_def split: if_splits)
  have "fst (snd i) \<noteq> n" if "i \<in> set (d_indexes d)" for i
    using that assms(1) new by (auto simp: wf_db_def index_ok_def)
  then have "filter (\<lambda>i. fst (snd i) \<noteq> n) (d_indexes d) = d_indexes d" by (simp add: filter_id_conv)
  then show "drop_table n e = Inr d" by (simp add: e drop_table_def filter_new [OF new])
  have "rows_ok \<lparr>t_columns = cols, t_rows = []\<rparr>" by (simp add: rows_ok_def)
  with assms(1) new show "wf_db e" by (auto simp: wf_db_def e intro: index_ok_append)
qed

lemma create_index_undone:
  assumes "wf_db d" and "create_index n t cols d = Inr e"
  shows "drop_index n e = Inr d" and "wf_db e"
proof -
  from assms(2) obtain tab where e: "e = d\<lparr>d_indexes := d_indexes d @ [(n, t, cols)]\<rparr>"
    and tab: "map_of (d_tables d) t = Some tab" "set cols \<subseteq> set (map c_name (t_columns tab))"
    and new: "n \<notin> set (map fst (d_indexes d))"
    by (auto simp: create_index_def relations_def split: option.splits if_splits)
  show "drop_index n e = Inr d" using filter_new [OF new] by (simp add: e drop_index_def)
  have "u = tab" if "(t, u) \<in> set (d_tables d)" for u using that tab(1) assms(1) by (simp add: wf_db_def)
  then have "index_ok (d_tables d) (t, cols)"
    using tab(2) image_eqI [OF _ map_of_SomeD [OF tab(1)], of t fst] by (simp add: index_ok_def) metis
  then show "wf_db e" using assms(1) by (simp add: wf_db_def e)
qed

lemma alter_undone:
  "alter_in n f ts = Inr us \<Longrightarrow> (\<And>t u. (n, t) \<in> set ts \<Longrightarrow> f t = Inr u \<Longrightarrow> g u = Inr t) \<Longrightarrow>
     alter_in n g us = Inr ts"
  by (induction ts arbitrary: us) (auto simp: res_bnd_Inr_iff split: if_splits)

lemma alter_table_undone:
  assumes "alter_table n f d = Inr e" and "\<And>t u. (n, t) \<in> set (d_tables d) \<Longrightarrow> f t = Inr u \<Longrightarrow> g u = Inr t"
  shows "alter_table n g e = Inr d"
proof -
  from assms(1) obtain us where us: "alter_in n f (d_tables d) = Inr us" and e: "e = d\<lparr>d_tables := us\<rparr>"
    by (auto simp: alter_table_def res_bnd_Inr_iff)
  have "alter_in n g us = Inr (d_tables d)" by (rule alter_undone [OF us assms(2)])
  then show ?thesis by (simp add: e alter_table_def)
qed

lemma alter_in_at: "alter_in n f ts = Inr us \<Longrightarrow> \<exists>t u. (n, t) \<in> set ts \<and> f t = Inr u"
  by (induction n f ts arbitrary: us rule: alter_in.induct) (fastforce simp: res_bnd_Inr_iff split: if_splits)+

lemma alter_table_at: "alter_table n f d = Inr e \<Longrightarrow> \<exists>t u. (n, t) \<in> set (d_tables d) \<and> f t = Inr u"
  using alter_in_at by (fastforce simp: alter_table_def res_bnd_Inr_iff)

lemma alter_table_indexes: "alter_table n f d = Inr e \<Longrightarrow> d_indexes e = d_indexes d"
  by (auto simp: alter_table_def res_bnd_Inr_iff)

lemma row_without: "c \<notin> set (map fst r) \<Longrightarrow> filter (\<lambda>e. fst e \<noteq> c) (r @ [(c, v)]) = r"
  by (simp add: filter_new)

lemma add_column_undone:
  assumes "wf_db d" and "add_column t n c d = Inr e"
  shows "drop_column n (c_name c) e = Inr d"
proof -
  from alter_table_at [OF assms(2) [unfolded add_column_def]] obtain tab where
    tab: "(n, tab) \<in> set (d_tables d)" "c_name c \<notin> set (map c_name (t_columns tab))"
    by (auto split: if_splits)
  from assms(1) have rows: "map fst r = map c_name (t_columns u)"
    if "(n, u) \<in> set (d_tables d)" "r \<in> set (t_rows u)" for u r
    using that by (auto simp: wf_db_def rows_ok_def)
  have fresh: "filter (\<lambda>k. c_name k \<noteq> c_name c) (t_columns u @ [c]) = t_columns u
      \<and> map (filter (\<lambda>e. fst e \<noteq> c_name c)) (map (\<lambda>r. r @ [(c_name c, default_value t (c_default c))]) (t_rows u)) = t_rows u"
    if u: "(n, u) \<in> set (d_tables d)" "c_name c \<notin> set (map c_name (t_columns u))" for u
  proof
    show "filter (\<lambda>k. c_name k \<noteq> c_name c) (t_columns u @ [c]) = t_columns u"
      using u(2) by (simp add: filter_id_conv) (metis image_eqI)
    have "c_name c \<notin> set (map fst r)" if "r \<in> set (t_rows u)" for r
      using u(2) rows [OF u(1) that] by simp
    then show "map (filter (\<lambda>e. fst e \<noteq> c_name c)) (map (\<lambda>r. r @ [(c_name c, default_value t (c_default c))]) (t_rows u))
        = t_rows u"
      unfolding map_map by (intro map_idI) (simp only: o_apply row_without not_False_eq_True)
  qed
  have "alter_table n (\<lambda>tab.
       if c_name c \<notin> set (map c_name (t_columns tab)) then Inl DatabaseError
       else Inr \<lparr>t_columns = filter (\<lambda>k. c_name k \<noteq> c_name c) (t_columns tab),
                 t_rows = map (filter (\<lambda>e. fst e \<noteq> c_name c)) (t_rows tab)\<rparr>) e = Inr d"
    using fresh by (intro alter_table_undone [OF assms(2) [unfolded add_column_def]]) (auto split: if_splits)
  moreover have "filter (\<lambda>i. \<not> (fst (snd i) = n \<and> c_name c \<in> set (snd (snd i)))) (d_indexes d) = d_indexes d"
  proof -
    have "index_ok (d_tables d) (snd i)" if "i \<in> set (d_indexes d)" for i using that assms(1) by (simp add: wf_db_def)
    then have "\<not> (fst (snd i) = n \<and> c_name c \<in> set (snd (snd i)))" if "i \<in> set (d_indexes d)" for i
      using that tab by (fastforce simp: index_ok_def)
    then show ?thesis by (simp add: filter_id_conv)
  qed
  ultimately show ?thesis by (simp add: drop_column_def)
qed

text \<open>Relaxing a column again after it was made \<open>NOT NULL\<close>.\<close>

definition nullable_in :: "string \<Rightarrow> string \<Rightarrow> database \<Rightarrow> bool" where
  "nullable_in n c d \<longleftrightarrow>
     (\<forall>tab. (n, tab) \<in> set (d_tables d) \<longrightarrow> (\<forall>k \<in> set (t_columns tab). c_name k = c \<longrightarrow> c_nullable k))"

lemma set_nullable_name [simp]: "c_name (set_nullable c b k) = c_name k"
  by (simp add: set_nullable_def)

lemma alter_nullable_undone:
  assumes "nullable_in n c d" and "alter_nullable n c False d = Inr e"
  shows "alter_nullable n c True e = Inr d"
proof -
  have relaxed: "map (set_nullable c True) (map (set_nullable c False) (t_columns u)) = t_columns u"
    if "(n, u) \<in> set (d_tables d)" for u
    using assms(1) that by (auto simp: nullable_in_def set_nullable_def intro!: map_idI)
  have names: "set (map c_name (map (set_nullable c b) ks)) = set (map c_name ks)" for b ks
    by (simp add: image_image)
  show ?thesis
    unfolding alter_nullable_def
    by (rule alter_table_undone [OF assms(2) [unfolded alter_nullable_def]])
      (use relaxed in \<open>auto simp del: map_map set_map simp: names split: if_splits\<close>)
qed

lemma alter_in_refused: "map_of ts n = Some t \<Longrightarrow> f t = Inl x \<Longrightarrow> alter_in n f ts = Inl x"
  by (induction n f ts rule: alter_in.induct) (auto split: if_splits)

lemma alter_in_set:
  "alter_in n f ts = Inr us \<Longrightarrow> map fst us = map fst ts
     \<and> (\<forall>p \<in> set us. p \<in> set ts \<or> (\<exists>t. (n, t) \<in> set ts \<and> fst p = n \<and> f t = Inr (snd p)))"
  by (induction n f ts arbitrary: us rule: alter_in.induct) (fastforce simp: res_bnd_Inr_iff split: if_splits)+

lemma wf_alter_nullable:
  assumes "wf_db d" and "alter_nullable n c b d = Inr e"
  shows "wf_db e"
proof -
  let ?f = "\<lambda>tab. if c \<notin> set (map c_name (t_columns tab)) then Inl DatabaseError
     else if \<not> b \<and> list_ex (\<lambda>r. (c, None) \<in> set r) (t_rows tab) then Inl DatabaseError
     else Inr (tab\<lparr>t_columns := map (set_nullable c b) (t_columns tab)\<rparr>)"
  from assms(2) obtain us where us: "alter_in n ?f (d_tables d) = Inr us" and e: "e = d\<lparr>d_tables := us\<rparr>"
    by (auto simp: alter_nullable_def alter_table_def res_bnd_Inr_iff)
  have f: "t_rows u = t_rows t \<and> map c_name (t_columns u) = map c_name (t_columns t)" if "?f t = Inr u" for t u
    using that by (auto split: if_splits)
  have names: "map fst us = map fst (d_tables d)" using alter_in_set [OF us] by blast
  have all: "\<exists>q \<in> set (d_tables d). fst q = fst p \<and> t_rows (snd p) = t_rows (snd q)
      \<and> map c_name (t_columns (snd p)) = map c_name (t_columns (snd q))" if "p \<in> set us" for p
    using alter_in_set [OF us] that f by (metis fst_conv snd_conv)
  have "rows_ok (snd p)" if "p \<in> set us" for p
    using all [OF that] assms(1) by (fastforce simp: wf_db_def rows_ok_def)
  moreover have "index_ok us i" if "index_ok (d_tables d) i" for i
    unfolding index_ok_def
  proof (intro conjI allI impI)
    show "fst i \<in> fst ` set us" using that arg_cong [OF names, of set] by (simp add: index_ok_def)
    show "set (snd i) \<subseteq> c_name ` set (t_columns tab)" if tab: "(fst i, tab) \<in> set us" for tab
    proof -
      from all [OF tab] obtain u where "(fst i, u) \<in> set (d_tables d)"
        and "map c_name (t_columns tab) = map c_name (t_columns u)" by auto
      with \<open>index_ok (d_tables d) i\<close> show ?thesis by (metis index_ok_def set_map)
    qed
  qed
  ultimately show ?thesis using assms(1) by (simp add: wf_db_def e names)
qed

text \<open>Each revision with its downgrade.\<close>

lemma undo_0001:
  assumes "wf_db d" and "upgrade_0001 t d = Inr e"
  shows "downgrade_0001 e = Inr d"
proof -
  from assms(2) obtain d1 d2 d3 d4 cs cs' where
    s: "create_table ''audit_log'' cs d = Inr d1"
      "create_index ''idx_audit_identity'' ''audit_log'' [''identity_id'', ''timestamp''] d1 = Inr d2"
      "create_index ''idx_audit_event'' ''audit_log'' [''event_type'', ''timestamp''] d2 = Inr d3"
      "create_index ''idx_audit_policy_version'' ''audit_log'' [''policy_version''] d3 = Inr d4"
      "create_table ''policy_versions'' cs' d4 = Inr e"
    unfolding upgrade_0001_def res_bnd_Inr_iff by blast
  note u1 = create_table_undone [OF assms(1) s(1)]
  note u2 = create_index_undone [OF u1(2) s(2)]
  note u3 = create_index_undone [OF u2(2) s(3)]
  note u4 = create_index_undone [OF u3(2) s(4)]
  note u5 = create_table_undone [OF u4(2) s(5)]
  show ?thesis by (simp add: downgrade_0001_def u1 u2 u3 u4 u5)
qed

lemma undo_0002: "wf_db d \<Longrightarrow> upgrade_0002 t d = Inr e \<Longrightarrow> downgrade_0002 e = Inr d"
  unfolding upgrade_0002_def downgrade_0002_def by (rule create_table_undone)

lemma undo_0003:
  assumes "wf_db d" and "nullable_in ''audit_log'' ''signature'' d" and "upgrade_0003 t d = Inr e"
  shows "downgrade_0003 e = Inr d"
proof -
  from assms(3) obtain d1 cs where s: "alter_nullable ''audit_log'' ''signature'' False d = Inr d1"
      "create_table ''audit_verifier_checkpoint'' cs d1 = Inr e"
    unfolding upgrade_0003_def res_bnd_Inr_iff by blast
  show ?thesis
    by (simp add: downgrade_0003_def create_table_undone [OF wf_alter_nullable [OF assms(1) s(1)] s(2)]
      alter_nullable_undone [OF assms(2) s(1)])
qed

lemma drop_indexed: "create_index i n cols d = Inr e \<Longrightarrow> drop_table n e = drop_table n d"
  by (auto simp: create_index_def drop_table_def split: option.splits if_splits)

lemma undo_0004:
  assumes "wf_db d" and "upgrade_0004 t d = Inr e"
  shows "downgrade_0004 e = Inr d"
proof -
  from assms(2) obtain d1 cs where s: "create_table ''approvals'' cs d = Inr d1"
      "create_index ''idx_approvals_status_expiry'' ''approvals'' [''status'', ''expires_at''] d1 = Inr e"
    unfolding upgrade_0004_def res_bnd_Inr_iff by blast
  show ?thesis by (simp add: downgrade_0004_def drop_indexed [OF s(2)] create_table_undone [OF assms(1) s(1)])
qed

lemma undo_0005: "wf_db d \<Longrightarrow> upgrade_0005 t d = Inr e \<Longrightarrow> downgrade_0005 e = Inr d"
  using add_column_undone unfolding upgrade_0005_def downgrade_0005_def by (fastforce simp: default_col_def col_def)

lemma undo_0006: "wf_db d \<Longrightarrow> upgrade_0006 t d = Inr e \<Longrightarrow> downgrade_0006 e = Inr d"
  using add_column_undone unfolding upgrade_0006_def downgrade_0006_def by (fastforce simp: default_col_def col_def)

text \<open>Without its rows a database shows its schema; what works on the rows works on the schema alone.\<close>

definition bare :: "db_table \<Rightarrow> db_table" where
  "bare tab = tab\<lparr>t_rows := []\<rparr>"

definition schema_of :: "database \<Rightarrow> database" where
  "schema_of d = d\<lparr>d_tables := map (\<lambda>p. (fst p, bare (snd p))) (d_tables d)\<rparr>"

definition on_schema :: "(database \<Rightarrow> database res) \<Rightarrow> bool" where
  "on_schema f \<longleftrightarrow> (\<forall>d e. f d = Inr e \<longrightarrow> f (schema_of d) = Inr (schema_of e))"

lemma on_schemaI: "(\<And>d e. f d = Inr e \<Longrightarrow> f (schema_of d) = Inr (schema_of e)) \<Longrightarrow> on_schema f"
  by (simp add: on_schema_def)

lemma on_schema_bnd:
  "on_schema f \<Longrightarrow> on_schema g \<Longrightarrow> on_schema (\<lambda>d. res_bnd (f d) g)"
  by (auto simp: on_schema_def res_bnd_Inr_iff)

lemma schema_names [simp]:
  "map fst (d_tables (schema_of d)) = map fst (d_tables d)" "d_indexes (schema_of d) = d_indexes d"
  "relations (schema_of d) = relations d"
  by (simp_all add: schema_of_def relations_def image_image)

lemma bare_columns [simp]: "t_columns (bare tab) = t_columns tab" "t_rows (bare tab) = []"
  by (simp_all add: bare_def)

lemma schema_indexes: "schema_of (d\<lparr>d_indexes := is\<rparr>) = (schema_of d)\<lparr>d_indexes := is\<rparr>"
  by (simp add: schema_of_def)

lemma schema_table: "map_of (d_tables (schema_of d)) n = map_option bare (map_of (d_tables d) n)"
proof -
  have "map_of (map (\<lambda>p. (fst p, bare (snd p))) ts) n = map_option bare (map_of ts n)" for ts
    by (induction ts) auto
  then show ?thesis by (simp add: schema_of_def)
qed

lemma on_schema_create_table: "on_schema (create_table n cols)"
  by (intro on_schemaI) (auto simp: create_table_def schema_of_def relations_def bare_def image_image split: if_splits)

lemma on_schema_create_index: "on_schema (create_index n t cols)"
  by (intro on_schemaI)
    (auto simp: create_index_def schema_table bare_columns schema_indexes split: option.splits if_splits)

lemma alter_in_schema:
  assumes "\<And>t u. f t = Inr u \<Longrightarrow> f (bare t) = Inr (bare u)"
  shows "alter_in n f ts = Inr us \<Longrightarrow>
    alter_in n f (map (\<lambda>p. (fst p, bare (snd p))) ts) = Inr (map (\<lambda>p. (fst p, bare (snd p))) us)"
  using assms by (induction n f ts arbitrary: us rule: alter_in.induct) (auto simp: res_bnd_Inr_iff split: if_splits)

lemma on_schema_alter_table:
  assumes "\<And>t u. f t = Inr u \<Longrightarrow> f (bare t) = Inr (bare u)"
  shows "on_schema (alter_table n f)"
proof (rule on_schemaI)
  fix d e assume "alter_table n f d = Inr e"
  then obtain us where "alter_in n f (d_tables d) = Inr us" and e: "e = d\<lparr>d_tables := us\<rparr>"
    by (auto simp: alter_table_def res_bnd_Inr_iff)
  from alter_in_schema [OF assms this(1)] show "alter_table n f (schema_of d) = Inr (schema_of e)"
    by (simp add: alter_table_def schema_of_def e)
qed

lemma on_schema_add_column: "on_schema (add_column t n c)"
  unfolding add_column_def by (intro on_schema_alter_table) (auto simp: bare_def split: if_splits)

lemma on_schema_alter_nullable: "on_schema (alter_nullable n c b)"
  unfolding alter_nullable_def by (intro on_schema_alter_table) (auto simp: bare_def split: if_splits)

lemmas on_schema_ops = on_schema_bnd on_schema_create_table on_schema_create_index on_schema_add_column
  on_schema_alter_nullable

lemma on_schema_upgrades: "list_all on_schema (upgrades t)"
  unfolding upgrades_def REVISIONS_def list.map prod.case list.pred_inject
  unfolding upgrade_0001_def [abs_def] upgrade_0002_def [abs_def] upgrade_0003_def [abs_def] upgrade_0004_def [abs_def]
    upgrade_0005_def [abs_def] upgrade_0006_def [abs_def]
  by (intro conjI on_schema_ops) simp

lemma on_schema_run: "list_all on_schema fs \<Longrightarrow> on_schema (run_steps fs)"
proof (induction fs)
  case Nil
  show ?case by (simp add: on_schema_def)
next
  case (Cons f fs)
  then have "on_schema (\<lambda>d. res_bnd (f d) (run_steps fs))" by (intro on_schema_bnd) auto
  then show ?case by (simp add: on_schema_def)
qed

lemma run_steps_append: "run_steps (fs @ gs) d = res_bnd (run_steps fs d) (run_steps gs)"
  by (induction fs arbitrary: d) (auto simp: res_bnd_def split: sum.splits)

text \<open>What the ORM needs of the migrated tables; the order of columns does not matter.\<close>

definition same_column :: "column \<Rightarrow> column \<Rightarrow> bool" where
  "same_column orm c \<longleftrightarrow> c_name orm = c_name c \<and> c_type orm = c_type c \<and> c_nullable orm = c_nullable c
     \<and> c_primary orm = c_primary c \<and> (c_default orm = NoDefault \<or> c_default orm = c_default c)"

definition matches_metadata :: "database \<Rightarrow> bool" where
  "matches_metadata d \<longleftrightarrow>
     set (map fst (d_tables d)) = set (map fst metadata_tables)
     \<and> list_all (\<lambda>(n, cols). case map_of (d_tables d) n of None \<Rightarrow> False
         | Some tab \<Rightarrow> length (t_columns tab) = length cols
             \<and> list_all (\<lambda>c. list_ex (same_column c) (t_columns tab)) cols) metadata_tables
     \<and> set (d_indexes d) = set metadata_indexes"

definition empty_db :: database where
  "empty_db = \<lparr>d_tables = [], d_indexes = []\<rparr>"

lemma matches_schema: "matches_metadata (schema_of d) = matches_metadata d"
proof -
  have "(case map_option bare v of None \<Rightarrow> False
         | Some tab \<Rightarrow> length (t_columns tab) = length cols \<and> list_all (\<lambda>c. list_ex (same_column c) (t_columns tab)) cols)
      = (case v of None \<Rightarrow> False
         | Some tab \<Rightarrow> length (t_columns tab) = length cols \<and> list_all (\<lambda>c. list_ex (same_column c) (t_columns tab)) cols)"
    for v cols by (cases v) (simp_all add: bare_def)
  then show ?thesis unfolding matches_metadata_def schema_table schema_names by presburger
qed

lemma migrated_empty:
  "case run_steps (upgrades t) empty_db of Inl e \<Rightarrow> False | Inr e \<Rightarrow> matches_metadata e"
  by code_simp

lemma migrated_empty_Inr: "\<exists>e. run_steps (upgrades t) empty_db = Inr e \<and> matches_metadata e"
  using migrated_empty [of t] by (cases "run_steps (upgrades t) empty_db") auto

section \<open>Properties\<close>




definition demo_approvals :: database where
  "demo_approvals = \<lparr>d_tables = [(''approvals'', \<lparr>t_columns = [key_col ''approval_id'' Text],
     t_rows = [[(''approval_id'', Some (JStr ''ap-1''))]]\<rparr>)], d_indexes = []\<rparr>"

lemma demo_approvals_ok: "wf_db demo_approvals" "nullable_in ''audit_log'' ''signature'' demo_approvals"
  by (simp_all add: demo_approvals_def wf_db_def rows_ok_def nullable_in_def key_col_def col_def)


text \<open>
  Revision \<open>0003\<close> refuses a log with an unsigned row, and the refused run leaves the database
  as it was, whatever else it was to do.
\<close>
theorem unsigned_rows_refused:
  assumes "map_of (d_tables d) ''audit_log'' = Some tab" and "r \<in> set (t_rows tab)" and "(''signature'', None) \<in> set r"
  shows "do_run_migrations (upgrade_0003 t # steps) d = (Inl DatabaseError, d)"
proof -
  from assms(2,3) have "list_ex (\<lambda>r. (''signature'', None) \<in> set r) (t_rows tab)" by (auto simp: list_ex_iff)
  then have "alter_nullable ''audit_log'' ''signature'' False d = Inl DatabaseError"
    unfolding alter_nullable_def alter_table_def by (subst alter_in_refused [OF assms(1), where x = DatabaseError]) simp_all
  then show ?thesis by (simp add: do_run_migrations_def upgrade_0003_def)
qed

theorem unsigned_rows_refused_witness:
  "do_run_migrations [upgrade_0003 JNull, upgrade_0004 JNull]
     \<lparr>d_tables = [(''audit_log'', \<lparr>t_columns = [key_col ''seq'' BigInteger, null_col ''signature'' LargeBinary],
       t_rows = [[(''seq'', Some (JInt 1)), (''signature'', None)]]\<rparr>)], d_indexes = []\<rparr>
   = (Inl DatabaseError, \<lparr>d_tables = [(''audit_log'', \<lparr>t_columns = [key_col ''seq'' BigInteger,
       null_col ''signature'' LargeBinary], t_rows = [[(''seq'', Some (JInt 1)), (''signature'', None)]]\<rparr>)],
       d_indexes = []\<rparr>)"
  by (rule unsigned_rows_refused [where tab = "\<lparr>t_columns = [key_col ''seq'' BigInteger, null_col ''signature'' LargeBinary],
       t_rows = [[(''seq'', Some (JInt 1)), (''signature'', None)]]\<rparr>" and r = "[(''seq'', Some (JInt 1)), (''signature'', None)]"])
    simp_all

end
