(* ===== verification/Spec2Isabelle.thy ===== *)
theory Spec2Isabelle
  imports Guarantees AbacTyping Gateway Operations Interleaving DemoScript Migrations
begin

text \<open>
  \<^bold>\<open>SecureMCP gateway.\<close> The gateway sits between AI clients and an upstream MCP server: it
  authenticates a client, keeps one subprocess of the upstream per session, decides every tools/call
  against a policy, and records every decision in a hash-chained log before anything happens. This
  library models the program under src/ and proves what it promises. Paths below are relative to
  src/services/gateway/ unless they begin with scripts/, sample_target/ or alembic/.

  \<^bold>\<open>How the parts interact.\<close> The edge (main.py) buffers a request, authenticates it (auth.py),
  looks the server up and hands the request to the client's session or opens one
  (session\_manager.py, upstream\_client.py). Each session has an interceptor
  (jsonrpc_interceptor.py) for the messages of both sides. A tools/call passes, in this order: the
  replay guard (replay_guard.py), the policy lookup (policy_engine.py), the conditions (abac.py),
  the drift block (drift_detector.py), a step-up proof (step_up.py), an approval (approvals.py) or
  the risk score (risk_engine.py) with the conditions on it, the parameter validator
  (param_validator.py, on schemas of schema_cache.py), and the ALLOW record (audit_log.py). A
  tools/list answer is compared with its baselines, cached and pruned (schema\_pruner.py). Beside
  this run the policy reload (policy\_versions.py), the verifier (audit\_verifier.py), the sweep of
  idle sessions and the administration endpoints.

  \<^bold>\<open>The model.\<close> The program is translated into functions over one state. Two records hold it:
  \<open>world\<close> (theory World) has the live engine, the tables of Postgres as lists of rows, Redis as a
  map of keys with expiry, the files, the clock, the counters of drawn random values, and the
  schedules of failures; \<open>hub\<close> (theory Sessions) adds the registry of sessions and the table of
  subprocesses. An action of type \<open>'a step\<close> is a function from a world to a result and a world. The
  result is \<open>Inr\<close> the value or \<open>Inl\<close> the exception, and the world is the one reached when the
  exception was raised: nothing is undone. \<open>bnd\<close> is sequencing, \<open>try_catch\<close> is \<open>except\<close>. Each store
  operation asks the schedule \<open>w_faults\<close> whether it fails, so every theorem holds for every pattern
  of failures. Code outside the repository is the record \<open>ext\<close>: canonical JSON, SHA-256, HMAC,
  ECDSA, \<open>ast.parse\<close>, YAML with the pydantic models, jsonschema, uuid4 and token sources, the
  environment's settings. Theorems that need a law of one of these name it as a hypothesis.

  \<^bold>\<open>Theories.\<close>
  \<^item> Prelude: exceptions, steps, the relation framework \<open>stays\<close> (what an action leaves intact) with
    the locale \<open>step_relation\<close>, dictionaries. PyData, PyLib: JSON values with Python's equality,
    truth and ordering, and the string, number and date functions of its library.
  \<^item> World: the settings of config.py, the tables of db.py, the metrics, and the operations on
    Redis and the tables with their failures. Decision: decision.py.
  \<^item> Abac, AbacTyping: the compiler and evaluator of conditions in abac.py, and their types.
  \<^item> Policy: the models, validators and lookups of policy\_engine.py. PolicyVersions: its loader and
    store, policy\_versions.py, the reload and start-up of main.py.
  \<^item> AuditLog: audit\_log.py, signing.py, audit\_verifier.py, scripts/verify\_audit\_chain.py.
  \<^item> Replay: replay\_guard.py. Totp, StepUp: step\_up.py. Approvals: approvals.py. Auth: auth.py.
  \<^item> Schema: schema\_cache.py, schema\_pruner.py, param\_validator.py. Drift: drift\_detector.py.
    Risk: risk\_engine.py.
  \<^item> Interceptor: the handlers of jsonrpc\_interceptor.py, one definition per stage in the order of
    the code. Pipeline: inversion of the stages. Guarantees: the properties of calls and lists.
  \<^item> Explainer: decision\_explainer.py. Simulator: policy\_simulator.py.
  \<^item> Upstream: upstream\_client.py. Sessions: session\_manager.py. Admin: the administration endpoints
    of main.py. Edge: its MCP endpoint.
  \<^item> Gateway: every handler and background task as a step of one relation \<open>gateway_step\<close>.
  \<^item> Operations: scripts/reset\_dev\_state.py, scripts/audit\_verifier\_daemon.py,
    scripts/generate\_api\_key.py and sample\_target/rogue\_server.py.
  \<^item> Interleaving: a tools/call that gives way to the rest of the gateway between its stages, the
    function \<open>env\<close> saying what happens in each pause.
  \<^item> DemoScript: scripts/run_demo.py, the client of the signed mode. Migrations: the revisions of
    alembic/versions, the run of alembic/env.py and the tables db.py declares.
  \<^item> Demo: the concrete functions and states the witnesses run on.

  \<^bold>\<open>Interfaces.\<close> A component's contract with the ones that call it is a locale, interpreted on the
  model: \<open>step_relation\<close>, \<open>append_ok\<close>, \<open>tables_ok\<close>, \<open>baselines_ok\<close> and \<open>messages_ok\<close> say what a
  relation between states must allow so that every action of a layer stays within it, and each
  invariant (the log grows, versions are safe, approvals follow their lifecycle, the registry is
  well formed) is one interpretation; \<open>policies_ok\<close> does the same for the operations on policies.
  Nonces and the codes of the step-up store share the locale \<open>claim_store\<close> (theory Replay).

  \<^bold>\<open>What the lemmas show.\<close> For a call: what it must have passed to be forwarded, in any state and
  under any failures (Guarantees), and that it is accounted for in every reachable state (below).
  For the log: writes keep the chain, tampering breaks it, the verifier accepts what the gateway
  writes, and resuming equals a full scan. For one-time things (nonces, challenges, codes,
  approvals): the second use is refused. For policies: a reload or rollback changes the live policy
  only to a recorded one. For sessions: owner, registry, record before process, reaping, shutdown.
  For reads: explanation predicts the live verdict, simulation replays exactly its window, neither
  changes state. Gateway: the invariants hold in every state reachable by any interleaving of steps.
  Interleaving: what a forwarded call has passed whatever happens during its pauses, and that with
  nothing happening it is the call of Interceptor. DemoScript: what the client signs is accepted,
  a forged copy is refused, and its policy grants what it tells. Migrations: the revisions build the
  tables of the ORM whatever rows there are, and each undoes itself.

  \<^bold>\<open>Bounds and fuel.\<close> Recursions are structural or have a termination proof, with three
  exceptions. The retry loop of the audit writer runs as long as the watched pointer is moved by
  another writer; the schedule \<open>w_races\<close> lists those moves, so its length and one more is enough
  fuel. The sweep loop and the verifier daemon never return; they are modelled by the number of
  rounds, and the theorems on them hold for every number. The truncation of
  one-time codes is over 32-bit words and a policy version must fit its 32-bit column; Python's other
  integers are unbounded.

  \<^bold>\<open>Not modelled.\<close> Messages are handled one at a time; a tools/call can also give way between
  its stages (Interleaving), but the interleaving of two asyncio tasks inside one stage is left out,
  except the race on the pointer of the log. A failing store operation
  or file write has no effect of its own (those before it stay: EXEC can fail after the insert). The
  HTTP server, the transport of the MCP library, pipes and signals, the ORM, the
  YAML and pydantic layers, jsonschema and the cryptography are parameters. A float is an exact
  rational, an infinity or NaN, without rounding; times are exact rationals.
  \<open>strptime\<close> reads ASCII digits. Of scripts/run_demo.py the HTTP sessions and the printing are left
  out. The operations of a migration have the documented behaviour of their statements; which
  revisions run, and the table in which alembic notes the current one, belong to alembic. Left out
  entirely: sample_target/overscoped_server.py (tools of another library),
  scripts/generate_signing_key.py, scripts/seed_policies.py (empty) and logging_config.py.
\<close>

section \<open>A call through the whole gateway\<close>

lemma client_to_upstream_Forward:
  assumes "client_to_upstream E s message h = (Inr (Some out), h')"
  shows "\<exists>w w'. bookkeeping (h_world h) w \<and> on_client_message E (ss_interceptor s) message w = (Inr out, w')
    \<and> h' = h\<lparr>h_world := w'\<rparr>"
proof -
  have "\<exists>h1. touch E (ss_id s) h = (Inr (), h1) \<and> in_world (on_client_message E (ss_interceptor s) message) h1 = (Inr out, h')"
    using assms by (auto simp: client_to_upstream_def or_teardown_def try_catch_Inr_iff bnd_Inr_iff)
  then obtain h1 w' where touch: "touch E (ss_id s) h = (Inr (), h1)"
    and run: "on_client_message E (ss_interceptor s) message (h_world h1) = (Inr out, w')" "h' = h1\<lparr>h_world := w'\<rparr>"
    by (cases "on_client_message E (ss_interceptor s) message (h_world (snd (touch E (ss_id s) h)))")
      (auto simp: in_world_def)
  have "stays bookkeeping (r_set_ex k v n)" for k v n
    unfolding r_set_ex_def by (rule bookkeeping_faulty) (simp add: stays_def bookkeeping_put bookkeeping_refl)
  then have "stays hub_bookkeeping (touch E (ss_id s))"
    unfolding touch_def now_def by (intro hub_bookkeeping_in_world bookkeeping.stays_all)
  from staysD [OF this touch] obtain w where "bookkeeping (h_world h) w" "h1 = h\<lparr>h_world := w\<rparr>"
    by (auto simp: hub_bookkeeping_def)
  with run show ?thesis by auto
qed

text \<open>
  C2: Every tool call that leaves the gateway is accounted for: in a state that satisfies the
  invariants (every reachable state does), when a session's pump forwards a tools/call, the log
  holds the SESSION_START row of the session, the newest row is the ALLOW record of the session's
  identity and server, the tool and the arguments, its policy version is a recorded one under the
  hash of the live policy, and the invariants hold again.
\<close>
theorem forwarded_call_accounted:
  assumes "hub_ok E h" and "live_recorded (h_world h)" and "(k, s) \<in> set (h_sessions h)"
    and "client_to_upstream E s (Request rid ''tools/call'' params) h = (Inr (Some (Forward m)), h')"
  shows "session_recorded E (h_world h') s \<and> hub_ok E h' \<and> live_recorded (h_world h')
    \<and> w_audit (h_world h') \<noteq> []
    \<and> (\<exists>ap ch scored. records E ALLOW (ic_identity_id (ss_interceptor s)) (Some (ic_server_id (ss_interceptor s)))
          (Some (cl_tool (call_of E rid params)))
          (allow_payload (w_engine (h_world h)) (call_of E rid params) ap ch scored) (map_option fst scored)
          (en_version (w_engine (h_world h))) (last (w_audit (h_world h'))))
    \<and> (en_version (w_engine (h_world h)), en_content_hash (w_engine (h_world h))) \<in> set (history (h_world h'))"
proof -
  from assms(3,4) have "gateway_step E loads lax h h'" for loads lax by (rule gateway_step.client)
  from gateway_step_sound [OF this] have sound: "sound_step E h h'" .
  with assms(1,2) have ok: "hub_ok E h'" "live_recorded (h_world h')" "log_grows (h_world h) (h_world h')"
    "set (history (h_world h)) \<subseteq> set (history (h_world h'))"
    by (auto simp: sound_step_def keeps_def hub_evolves_def evolves_def recorded_safely_def versions_evolve_def)
  from assms(1,3) have "session_recorded E (h_world h) s" by (auto simp: hub_ok_def session_ok_def)
  then have rec: "session_recorded E (h_world h') s" using ok(3) by (rule session_recorded_grows)
  from client_to_upstream_Forward [OF assms(4)] obtain w w' where
    w: "bookkeeping (h_world h) w" "h' = h\<lparr>h_world := w'\<rparr>" and
    run: "on_client_message E (ss_interceptor s) (Request rid ''tools/call'' params) w = (Inr (Forward m), w')" by blast
  from forwarded_call_recorded [OF run] obtain rows row where
    "w_audit w' = w_audit w @ rows @ [row]"
    "\<exists>ap ch scored. records E ALLOW (ic_identity_id (ss_interceptor s)) (Some (ic_server_id (ss_interceptor s)))
          (Some (cl_tool (call_of E rid params))) (allow_payload (w_engine w) (call_of E rid params) ap ch scored)
          (map_option fst scored) (en_version (w_engine w)) row" by blast
  with w ok rec assms(2) show ?thesis by (auto simp: bookkeeping_fields live_recorded_def)
qed

definition demo_recorded :: world where
  "demo_recorded = snd (audit_write demo SESSION_START ''ops'' (Some ''srv'') None [(''session_id'', JStr ''s1'')] None
     (demo_ready\<lparr>w_versions := [\<lparr>pv_version = 1, pv_content_hash = ''h2'', pv_activated_at = 0, pv_activated_by = ''startup''\<rparr>]\<rparr>))"

definition demo_session_one :: session where
  "demo_session_one = \<lparr>ss_id = ''s1'', ss_interceptor = demo_interceptor, ss_process = 0, ss_task = True\<rparr>"

definition demo_floor :: hub where
  "demo_floor = \<lparr>h_world = demo_recorded, h_sessions = [(''s1'', demo_session_one)], h_processes = [Running],
     h_stubborn = (\<lambda>_. False)\<rparr>"

definition demo_forward :: "outgoing option hub_step" where
  "demo_forward = client_to_upstream demo demo_session_one (Request (IdInt 1) ''tools/call'' demo_params)"

lemma demo_floor_ok: "hub_ok demo demo_floor \<and> live_recorded (h_world demo_floor)"
proof -
  let ?m = "audit_write demo SESSION_START ''ops'' (Some ''srv'') None [(''session_id'', JStr ''s1'')] None"
  let ?w = "demo_ready\<lparr>w_versions := [\<lparr>pv_version = 1, pv_content_hash = ''h2'', pv_activated_at = 0,
    pv_activated_by = ''startup''\<rparr>]\<rparr>"
  have "isl (fst (?m ?w)) = False" by code_simp
  then obtain seq where "fst (?m ?w) = Inr seq" by (cases "fst (?m ?w)") auto
  then have "?m ?w = (Inr seq, demo_recorded)" by (simp add: demo_recorded_def prod_eq_iff)
  from audit_write_recorded [OF this] have "session_recorded demo demo_recorded demo_session_one"
    by (auto simp: session_recorded_def demo_session_one_def demo_interceptor_def intro!: bexI [OF _ last_in_set])
  moreover have "live_recorded demo_recorded" unfolding live_recorded_def by code_simp
  ultimately show ?thesis
    by (simp add: hub_ok_def demo_floor_def pids_def session_ok_def demo_session_one_def demo_interceptor_def)
qed

theorem forwarded_call_accounted_witness:
  "session_recorded demo (h_world (snd (demo_forward demo_floor))) demo_session_one
   \<and> ar_event_type (last (w_audit (h_world (snd (demo_forward demo_floor))))) = ''ALLOW''"
proof -
  have "(case fst (demo_forward demo_floor) of Inr (Some (Forward m)) \<Rightarrow> True | _ \<Rightarrow> False) = True"
    by code_simp
  then obtain m where "fst (demo_forward demo_floor) = Inr (Some (Forward m))"
    by (auto split: sum.splits option.splits outgoing.splits)
  then have "client_to_upstream demo demo_session_one (Request (IdInt 1) ''tools/call'' demo_params) demo_floor
      = (Inr (Some (Forward m)), snd (demo_forward demo_floor))"
    by (simp add: demo_forward_def prod_eq_iff)
  from forwarded_call_accounted [OF demo_floor_ok [THEN conjunct1] demo_floor_ok [THEN conjunct2] _ this, of "''s1''"]
  show ?thesis by (auto simp: records_def demo_floor_def)
qed

end
